(* ===== verification/Prelude.thy ===== *)
theory Prelude
  imports Main "HOL-Library.AList" "HOL-Library.Sublist"
begin

text \<open>
  Shared vocabulary of the development: Go integers of a fixed width, Go maps, and the
  generic lemmas the component theories use.

  A Go map is an association list whose keys are distinct (\<open>wf_map\<close>). The list order
  stands for the order in which one \<open>range\<close> loop of the Go runtime happens to visit the
  entries, so a fact proved for every such list holds for every iteration order. A nil map
  is \<open>None\<close> where the difference to an empty map matters (assignment panics).
\<close>

named_theorems gomap_simps \<open>reading, writing and deleting entries of a Go map\<close>

section \<open>Machine integers\<close>

text \<open>\<open>wrap n x\<close> is the two's complement value that an n-bit Go integer holds for x.\<close>

definition wrap :: "nat \<Rightarrow> int \<Rightarrow> int" where
  "wrap n x = (x + 2 ^ (n - 1)) mod 2 ^ n - 2 ^ (n - 1)"

abbreviation int64 :: "int \<Rightarrow> int" where "int64 \<equiv> wrap 64"
abbreviation int32 :: "int \<Rightarrow> int" where "int32 \<equiv> wrap 32"

definition fits :: "nat \<Rightarrow> int \<Rightarrow> bool" where
  "fits n x \<longleftrightarrow> - (2 ^ (n - 1)) \<le> x \<and> x < 2 ^ (n - 1)"

abbreviation is_int64 :: "int \<Rightarrow> bool" where "is_int64 \<equiv> fits 64"
abbreviation is_int32 :: "int \<Rightarrow> bool" where "is_int32 \<equiv> fits 32"

lemma double_half_pow: "0 < n \<Longrightarrow> (2::int) ^ n = 2 * 2 ^ (n - 1)"
  by (cases n) simp_all

lemma wrap_fits_id [simp]: "0 < n \<Longrightarrow> fits n x \<Longrightarrow> wrap n x = x"
  unfolding wrap_def fits_def by (subst mod_pos_pos_trivial) (auto simp: double_half_pow)

lemma fits_wrap [simp]: "0 < n \<Longrightarrow> fits n (wrap n x)"
  using pos_mod_bound [of "2 ^ n" "x + 2 ^ (n - 1)"] pos_mod_sign [of "2 ^ n" "x + 2 ^ (n - 1)"]
  by (simp add: wrap_def fits_def double_half_pow)

text \<open>Go's integer division truncates towards zero.\<close>

definition quot :: "int \<Rightarrow> int \<Rightarrow> int" where
  "quot a b = sgn a * sgn b * (\<bar>a\<bar> div \<bar>b\<bar>)"

lemma quot_nonneg [simp]: "0 \<le> a \<Longrightarrow> 0 < b \<Longrightarrow> quot a b = a div b"
  by (cases "a = 0") (simp_all add: quot_def)

section \<open>Go maps\<close>

type_synonym ('k, 'v) gomap = "('k \<times> 'v) list"

definition wf_map :: "('k, 'v) gomap \<Rightarrow> bool" where
  "wf_map m \<longleftrightarrow> distinct (map fst m)"

abbreviation mget :: "('k, 'v) gomap \<Rightarrow> 'k \<Rightarrow> 'v option" where "mget \<equiv> map_of"

definition mput :: "'k \<Rightarrow> 'v \<Rightarrow> ('k, 'v) gomap \<Rightarrow> ('k, 'v) gomap" where
  "mput k v m = AList.update k v m"

definition mdel :: "'k \<Rightarrow> ('k, 'v) gomap \<Rightarrow> ('k, 'v) gomap" where
  "mdel k m = AList.delete k m"

text \<open>\<open>m[k]\<close> on a map with string values: the empty string when the key is missing.\<close>

definition mstr :: "('k, string) gomap \<Rightarrow> 'k \<Rightarrow> string" where
  "mstr m k = (case mget m k of None \<Rightarrow> [] | Some s \<Rightarrow> s)"

lemma mget_mput [gomap_simps, simp]: "mget (mput k v m) = (mget m)(k \<mapsto> v)"
  by (simp add: mput_def update_conv')

lemma mget_mdel [gomap_simps, simp]: "mget (mdel k m) = (mget m)(k := None)"
  by (simp add: mdel_def delete_conv')

lemma keys_mput [gomap_simps, simp]: "fst ` set (mput k v m) = insert k (fst ` set m)"
  by (simp add: mput_def dom_update)

lemma keys_mdel [gomap_simps, simp]: "fst ` set (mdel k m) = fst ` set m - {k}"
  by (simp add: mdel_def delete_keys flip: set_map)

lemma mstr_mput [gomap_simps, simp]: "mstr (mput k v m) k' = (if k' = k then v else mstr m k')"
  by (simp add: mstr_def)

lemma wf_map_nil [simp, intro]: "wf_map []"
  by (simp add: wf_map_def)

lemma wf_map_mput [simp, intro]: "wf_map m \<Longrightarrow> wf_map (mput k v m)"
  by (simp add: wf_map_def mput_def distinct_update)

lemma wf_map_mdel [simp, intro]: "wf_map m \<Longrightarrow> wf_map (mdel k m)"
  by (simp add: wf_map_def mdel_def distinct_delete)

lemma mget_None_iff: "mget m k = None \<longleftrightarrow> k \<notin> fst ` set m"
  by (simp add: map_of_eq_None_iff)

lemma mget_Some_in: "mget m k = Some v \<Longrightarrow> k \<in> fst ` set m"
  by (auto dest: map_of_SomeD intro: rev_image_eqI)

text \<open>Copying one map into another, entry by entry, as a \<open>range\<close> loop does.\<close>

fun mput_all :: "('k, 'v) gomap \<Rightarrow> ('k, 'v) gomap \<Rightarrow> ('k, 'v) gomap" where
  "mput_all [] m = m"
| "mput_all ((k, v) # kvs) m = mput_all kvs (mput k v m)"

lemma mget_mput_all:
  "wf_map kvs \<Longrightarrow> mget (mput_all kvs m) = mget m ++ mget kvs"
proof (induction kvs m rule: mput_all.induct)
  case (2 k v kvs m)
  then have "k \<notin> dom (map_of kvs)" by (auto simp: wf_map_def dom_map_of_conv_image_fst)
  with 2 show ?case by (auto simp: wf_map_def map_add_def fun_eq_iff split: option.splits)
qed simp

lemma wf_map_mput_all [simp, intro]: "wf_map m \<Longrightarrow> wf_map (mput_all kvs m)"
  by (induction kvs m rule: mput_all.induct) auto

section \<open>Counting in an interval\<close>

lemma card_Icc_int: "lo \<le> hi \<Longrightarrow> int (card {lo..hi}) = hi - lo + 1"
  by simp

lemma card_Diff_insert_in:
  assumes "finite A" "i \<in> A" "i \<notin> S"
  shows "card (A - S) = Suc (card (A - insert i S))"
proof -
  from assms(2,3) have "A - S = insert i (A - insert i S)" by auto
  then show ?thesis using assms(1) by (metis Diff_iff card_insert_disjoint finite_Diff insertI1)
qed

lemma card_Diff_Int_int:
  assumes "finite A"
  shows "int (card (A - S)) = int (card A) - int (card (A \<inter> S))"
proof -
  have "card (A \<inter> S) \<le> card A" using assms by (intro card_mono) auto
  moreover have "card (A - S) = card A - card (A \<inter> S)" using assms by (intro card_Diff_subset_Int) auto
  ultimately show ?thesis by linarith
qed

lemma Diff_insert_out: "i \<notin> A \<Longrightarrow> A - insert i S = A - S"
  by auto

end
