(* ===== verification/MinMax.thy ===== *)
theory MinMax
  imports Prelude
begin

text \<open>
  \<open>lib/allocator/minmax.go\<close>: the allocator of numbers from a range. Every exported
  method holds the mutex for its whole body, so each is one atomic step on the record below.
  Go's \<open>int\<close> is 64 bits wide on the platforms the image is built for; the counter
  arithmetic wraps explicitly.
\<close>

section \<open>State and operations\<close>

datatype alloc_error =
  ErrNotFound | ErrConflict | ErrInvalidRange | ErrOutOfRange | ErrRangeFull | ErrInternal

record allocator =
  amin :: int
  amax :: int
  free :: int
  used :: "(int, bool) gomap"

definition inRange :: "allocator \<Rightarrow> int \<Rightarrow> bool" where
  "inRange a i \<longleftrightarrow> amin a \<le> i \<and> i \<le> amax a"

definition has :: "allocator \<Rightarrow> int \<Rightarrow> bool" where
  "has a i \<longleftrightarrow> mget (used a) i \<noteq> None"

definition NewMinMaxAllocator :: "int \<Rightarrow> int \<Rightarrow> alloc_error + allocator" where
  "NewMinMaxAllocator lo hi =
     (if lo > hi then Inl ErrInvalidRange
      else Inr \<lparr>amin = lo, amax = hi, free = int64 (1 + hi - lo), used = []\<rparr>)"

text \<open>The counting loop of \<open>SetRange\<close> over the keys of \<open>used\<close>.\<close>

fun countUsed :: "allocator \<Rightarrow> (int \<times> bool) list \<Rightarrow> int \<Rightarrow> int" where
  "countUsed a [] numUsed = numUsed"
| "countUsed a ((i, _) # us) numUsed =
     countUsed a us (if inRange a i then numUsed + 1 else numUsed)"

definition SetRange :: "int \<Rightarrow> int \<Rightarrow> allocator \<Rightarrow> alloc_error option \<times> allocator" where
  "SetRange lo hi a =
     (if lo > hi then (Some ErrInvalidRange, a)
      else if amin a = lo \<and> amax a = hi then (None, a)
      else let a' = a\<lparr>amin := lo, amax := hi\<rparr>; numUsed = countUsed a' (used a') 0
           in (None, a'\<lparr>free := int64 (1 + hi - lo - numUsed)\<rparr>))"

definition Allocate :: "int \<Rightarrow> allocator \<Rightarrow> (bool \<times> alloc_error option) \<times> allocator" where
  "Allocate i a =
     (if \<not> inRange a i then ((False, Some ErrOutOfRange), a)
      else if has a i then ((False, Some ErrConflict), a)
      else ((True, None), a\<lparr>used := mput i True (used a), free := int64 (free a - 1)\<rparr>))"

text \<open>
  The scan of \<open>AllocateNext\<close>: \<open>for i := min; i <= max; i++\<close>. The increment wraps, so with
  \<open>max\<close> the largest integer and every number of the range used, the loop goes on from the smallest
  integer; if it never ends, the outer option is \<open>None\<close>. The inner option is the number found, if any.
\<close>

partial_function (option) scan :: "(int, bool) gomap \<Rightarrow> int \<Rightarrow> int \<Rightarrow> int option option" where
  "scan us hi i =
     (if i \<le> hi then (if mget us i = None then Some (Some i) else scan us hi (int64 (i + 1)))
      else Some None)"

definition AllocateNext ::
    "allocator \<Rightarrow> ((int \<times> bool \<times> alloc_error option) \<times> allocator) option" where
  "AllocateNext a =
     (if free a \<le> 0 then Some ((0, False, Some ErrRangeFull), a)
      else case scan (used a) (amax a) (amin a) of
        None \<Rightarrow> None
      | Some (Some i) \<Rightarrow>
          Some ((i, True, None), a\<lparr>used := mput i True (used a), free := int64 (free a - 1)\<rparr>)
      | Some None \<Rightarrow> Some ((0, False, Some ErrInternal), a))"

definition Release :: "int \<Rightarrow> allocator \<Rightarrow> alloc_error option \<times> allocator" where
  "Release i a =
     (if \<not> has a i then (None, a)
      else let a' = a\<lparr>used := mdel i (used a)\<rparr>
           in (None, if inRange a' i then a'\<lparr>free := int64 (free a' + 1)\<rparr> else a'))"

definition Has :: "allocator \<Rightarrow> int \<Rightarrow> bool" where
  "Has a i = has a i"

definition Free :: "allocator \<Rightarrow> int" where
  "Free a = free a"

section \<open>Invariant\<close>

definition taken :: "allocator \<Rightarrow> int set" where
  "taken a = fst ` set (used a)"

definition span :: "allocator \<Rightarrow> int set" where
  "span a = {amin a..amax a}"

text \<open>
  The range is a range of 64-bit integers whose length is itself a 64-bit integer, and the
  counter says how many numbers of the range are unused.
\<close>

definition valid_range :: "int \<Rightarrow> int \<Rightarrow> bool" where
  "valid_range lo hi \<longleftrightarrow> is_int64 lo \<and> is_int64 hi \<and> lo \<le> hi \<and> is_int64 (1 + hi - lo)"

definition alloc_ok :: "allocator \<Rightarrow> bool" where
  "alloc_ok a \<longleftrightarrow> valid_range (amin a) (amax a) \<and> wf_map (used a) \<and>
     free a = int (card (span a - taken a))"

lemma has_taken [simp]: "has a i \<longleftrightarrow> i \<in> taken a"
  by (simp add: has_def taken_def mget_None_iff)

lemma inRange_span [simp]: "inRange a i \<longleftrightarrow> i \<in> span a"
  by (simp add: inRange_def span_def)

lemma finite_span [simp]: "finite (span a)"
  by (simp add: span_def)

lemma taken_simps [simp]:
  "taken (a\<lparr>used := mput i b (used a)\<rparr>) = insert i (taken a)"
  "taken (a\<lparr>used := mdel i (used a)\<rparr>) = taken a - {i}"
  "taken (a\<lparr>free := n\<rparr>) = taken a"
  by (simp_all add: taken_def)

lemma span_simps [simp]:
  "span (a\<lparr>used := m\<rparr>) = span a" "span (a\<lparr>free := n\<rparr>) = span a"
  by (simp_all add: span_def)

lemma free_bounds: "alloc_ok a \<Longrightarrow> 0 \<le> free a \<and> free a \<le> 1 + amax a - amin a"
  using card_mono [of "span a" "span a - taken a"]
  by (auto simp: alloc_ok_def valid_range_def span_def)

lemma countUsed_card:
  "distinct (map fst us) \<Longrightarrow> countUsed a us n = n + int (card (span a \<inter> fst ` set us))"
  by (induction a us n rule: countUsed.induct) auto

lemma NewMinMaxAllocator_ok:
  "valid_range lo hi \<Longrightarrow> \<exists>a. NewMinMaxAllocator lo hi = Inr a \<and> alloc_ok a \<and> taken a = {} \<and>
     amin a = lo \<and> amax a = hi"
  by (auto simp: NewMinMaxAllocator_def alloc_ok_def valid_range_def span_def taken_def)


section \<open>Every operation keeps the invariant\<close>

lemma SetRange_ok:
  assumes "alloc_ok a" "is_int64 lo" "is_int64 hi" "is_int64 (1 + hi - lo)"
    and "SetRange lo hi a = (e, a')"
  shows "alloc_ok a' \<and> taken a' = taken a"
proof -
  let ?n = "int (card ({lo..hi} - taken a))"
  have n: "?n = 1 + hi - lo - int (card ({lo..hi} \<inter> taken a))" if "lo \<le> hi"
    using that card_Diff_Int_int [of "{lo..hi}" "taken a"] by simp
  have "card ({lo..hi} - taken a) \<le> card {lo..hi}" by (rule card_mono) auto
  then have "is_int64 ?n" if "lo \<le> hi" using that assms(4) by (auto simp: fits_def)
  with n have "int64 (1 + hi - lo - int (card ({lo..hi} \<inter> taken a))) = ?n" if "lo \<le> hi"
    using that by (metis wrap_fits_id zero_less_numeral)
  then show ?thesis using assms
    by (auto simp: SetRange_def Let_def alloc_ok_def valid_range_def taken_def span_def wf_map_def
        countUsed_card split: if_splits)
qed

lemma use_number_ok:
  assumes "alloc_ok a" "i \<in> span a" "i \<notin> taken a"
  shows "alloc_ok (a\<lparr>used := mput i True (used a), free := int64 (free a - 1)\<rparr>)"
proof -
  have "is_int64 (free a - 1)"
    using free_bounds [OF assms(1)] assms(1) by (auto simp: alloc_ok_def valid_range_def fits_def)
  moreover have "int (card (span a - insert i (taken a))) = free a - 1"
    using assms card_Diff_insert_in [OF finite_span assms(2,3)] unfolding alloc_ok_def by linarith
  ultimately show ?thesis using assms by (simp add: alloc_ok_def)
qed

lemma Allocate_ok: "alloc_ok a \<Longrightarrow> Allocate i a = (r, a') \<Longrightarrow> alloc_ok a'"
  using use_number_ok [of a i] by (auto simp: Allocate_def split: if_splits)

lemma Release_ok:
  assumes "alloc_ok a" "Release i a = (e, a')"
  shows "alloc_ok a' \<and> e = None \<and> taken a' = taken a - {i}"
proof -
  have eq: "span a - (taken a - {i}) = (if i \<in> span a then insert i (span a - taken a) else span a - taken a)"
    by auto
  have card: "int (card (span a - (taken a - {i}))) =
      (if i \<in> span a \<and> i \<in> taken a then free a + 1 else free a)"
    unfolding eq using assms(1) by (auto simp: alloc_ok_def insert_absorb)
  have "is_int64 (free a + 1)" if "i \<in> span a" "i \<in> taken a"
  proof -
    have "card (span a - (taken a - {i})) \<le> card (span a)" by (rule card_mono) auto
    with card that assms(1) show ?thesis
      by (auto simp: fits_def alloc_ok_def valid_range_def span_def)
  qed
  with assms card show ?thesis
    by (auto simp: Release_def Let_def alloc_ok_def Diff_triv split: if_splits)
qed

section \<open>The scan of AllocateNext\<close>

text \<open>If the least unused number at or after \<open>i\<close> is \<open>k\<close>, the scan returns it.\<close>

lemma scan_finds:
  assumes "i \<le> k" "k \<le> hi" "is_int64 i" "is_int64 hi" "mget us k = None"
    and "\<forall>j. i \<le> j \<and> j < k \<longrightarrow> mget us j \<noteq> None"
  shows "scan us hi i = Some (Some k)"
  using assms
proof (induction "nat (k - i)" arbitrary: i)
  case 0
  then have "i = k" by simp
  with 0 show ?case by (simp add: scan.simps)
next
  case (Suc n)
  then have lt: "i < k" by simp
  then have fit: "is_int64 (i + 1)" using Suc.prems by (auto simp: fits_def)
  have "scan us hi (i + 1) = Some (Some k)"
    using Suc.prems Suc.hyps(2) lt fit by (intro Suc.hyps(1)) auto
  moreover have "mget us i \<noteq> None" using Suc.prems lt by auto
  ultimately show ?case using lt Suc.prems fit by (subst scan.simps) auto
qed

lemma least_unused:
  assumes "free a > 0" "alloc_ok a"
  obtains k where "k \<in> span a" "k \<notin> taken a" "\<forall>j \<in> span a. j < k \<longrightarrow> j \<in> taken a"
proof -
  let ?S = "span a - taken a"
  have fin: "finite ?S" by simp
  moreover have ne: "?S \<noteq> {}" using assms by (metis alloc_ok_def card.empty less_irrefl of_nat_0)
  ultimately have "Min ?S \<in> ?S" by (rule Min_in)
  moreover have "\<forall>j \<in> span a. j < Min ?S \<longrightarrow> j \<in> taken a"
  proof (intro ballI impI)
    fix j assume "j \<in> span a" "j < Min ?S"
    then show "j \<in> taken a" using Min_le [OF fin, of j] by (meson DiffI not_less)
  qed
  ultimately show ?thesis using that [of "Min ?S"] by blast
qed

text \<open>\<open>AllocateNext\<close> as a contract: the least unused number of the range, or a full range.\<close>

lemma AllocateNext_free:
  assumes "alloc_ok a" "free a > 0"
  shows "\<exists>i a'. AllocateNext a = Some ((i, True, None), a') \<and> i \<in> span a \<and> i \<notin> taken a \<and>
     (\<forall>j \<in> span a. j < i \<longrightarrow> j \<in> taken a) \<and> alloc_ok a' \<and> taken a' = insert i (taken a) \<and>
     span a' = span a"
proof -
  obtain k where k: "k \<in> span a" "k \<notin> taken a" "\<forall>j \<in> span a. j < k \<longrightarrow> j \<in> taken a"
    using least_unused [OF assms(2,1)] .
  then have "scan (used a) (amax a) (amin a) = Some (Some k)"
    using assms(1) by (intro scan_finds)
      (auto simp: span_def taken_def mget_None_iff alloc_ok_def valid_range_def)
  with k assms use_number_ok [OF assms(1) k(1,2)] show ?thesis
    by (auto simp: AllocateNext_def taken_def span_def)
qed

lemma AllocateNext_full:
  assumes "alloc_ok a" "free a \<le> 0"
  shows "AllocateNext a = Some ((0, False, Some ErrRangeFull), a) \<and> span a \<subseteq> taken a"
  using assms by (auto simp: AllocateNext_def alloc_ok_def)


lemma AllocateNext_cases:
  assumes "alloc_ok a" "AllocateNext a = Some ((i, b, e), a')"
  shows "(b \<and> e = None \<and> i \<in> span a - taken a \<and> (\<forall>j \<in> span a. j < i \<longrightarrow> j \<in> taken a) \<and>
      taken a' = insert i (taken a) \<and> span a' = span a \<and> alloc_ok a') \<or>
    (\<not> b \<and> e = Some ErrRangeFull \<and> i = 0 \<and> a' = a \<and> span a \<subseteq> taken a)"
  using assms AllocateNext_free [of a] AllocateNext_full [of a] by (cases "free a > 0") fastforce+

section \<open>The Rangeable interface\<close>

text \<open>
  What the GID allocator relies on when it uses a \<open>Rangeable\<close>: the laws are stated over the
  set of numbers held and the window they are taken from.
\<close>

locale rangeable =
  fixes take_next :: "'p \<Rightarrow> ((int \<times> bool \<times> alloc_error option) \<times> 'p) option"
    and take :: "int \<Rightarrow> 'p \<Rightarrow> (bool \<times> alloc_error option) \<times> 'p"
    and give :: "int \<Rightarrow> 'p \<Rightarrow> alloc_error option \<times> 'p"
    and resize :: "int \<Rightarrow> int \<Rightarrow> 'p \<Rightarrow> alloc_error option \<times> 'p"
    and held :: "'p \<Rightarrow> int set"
    and window :: "'p \<Rightarrow> int set"
    and ok :: "'p \<Rightarrow> bool"
  assumes next_returns: "ok p \<Longrightarrow> take_next p \<noteq> None"
    and next_cases: "ok p \<Longrightarrow> take_next p = Some ((i, b, e), p') \<Longrightarrow>
      (b \<and> e = None \<and> i \<in> window p - held p \<and> (\<forall>j \<in> window p. j < i \<longrightarrow> j \<in> held p) \<and>
        held p' = insert i (held p) \<and> window p' = window p \<and> ok p') \<or>
      (\<not> b \<and> e = Some ErrRangeFull \<and> i = 0 \<and> p' = p \<and> window p \<subseteq> held p)"
    and take_cases: "ok p \<Longrightarrow> take i p = ((b, e), p') \<Longrightarrow>
      ok p' \<and> window p' = window p \<and>
      (b \<and> e = None \<and> i \<in> window p - held p \<and> held p' = insert i (held p) \<or>
       \<not> b \<and> p' = p \<and> (if i \<in> window p then e = Some ErrConflict \<and> i \<in> held p else e = Some ErrOutOfRange))"
    and give_law: "ok p \<Longrightarrow> give i p = (e, p') \<Longrightarrow>
      e = None \<and> ok p' \<and> window p' = window p \<and> held p' = held p - {i}"
    and resize_law: "ok p \<Longrightarrow> is_int64 lo \<Longrightarrow> is_int64 hi \<Longrightarrow> is_int64 (1 + hi - lo) \<Longrightarrow>
      resize lo hi p = (e, p') \<Longrightarrow> ok p' \<and> held p' = held p \<and>
      (if lo \<le> hi then e = None \<and> window p' = {lo..hi} else e = Some ErrInvalidRange \<and> p' = p)"
begin

text \<open>Numbers handed out and not yet given back (\<open>xs\<close>) stay pairwise distinct.\<close>

lemma outstanding_next:
  assumes "ok p" "distinct xs" "set xs \<subseteq> held p" "take_next p = Some ((i, True, e), p')"
  shows "distinct (i # xs) \<and> set (i # xs) \<subseteq> held p' \<and> ok p' \<and> i \<in> window p"
  using next_cases [OF assms(1,4)] assms(2,3) by auto

lemma outstanding_give:
  assumes "ok p" "distinct xs" "set xs \<subseteq> held p" "give i p = (e, p')"
  shows "distinct (remove1 i xs) \<and> set (remove1 i xs) \<subseteq> held p' \<and> ok p'"
  using give_law [OF assms(1,4)] assms(2,3) by auto

lemma next_full:
  assumes "ok p" "take_next p = Some ((i, b, e), p')"
  shows "b \<longleftrightarrow> \<not> window p \<subseteq> held p" and "e = None \<longleftrightarrow> b"
  using next_cases [OF assms] by auto

end

lemma AllocateNext_returns: "alloc_ok a \<Longrightarrow> AllocateNext a \<noteq> None"
  using AllocateNext_free [of a] AllocateNext_full [of a] by (cases "free a > 0") auto

lemma Allocate_cases:
  assumes "alloc_ok a" "Allocate i a = ((b, e), a')"
  shows "alloc_ok a' \<and> span a' = span a \<and>
    (b \<and> e = None \<and> i \<in> span a - taken a \<and> taken a' = insert i (taken a) \<or>
     \<not> b \<and> a' = a \<and> (if i \<in> span a then e = Some ErrConflict \<and> i \<in> taken a else e = Some ErrOutOfRange))"
  using assms Allocate_ok [OF assms] by (auto simp: Allocate_def split: if_splits)

lemma SetRange_cases:
  assumes "alloc_ok a" "is_int64 lo" "is_int64 hi" "is_int64 (1 + hi - lo)" "SetRange lo hi a = (e, a')"
  shows "alloc_ok a' \<and> taken a' = taken a \<and>
    (if lo \<le> hi then e = None \<and> span a' = {lo..hi} else e = Some ErrInvalidRange \<and> a' = a)"
  using SetRange_ok [OF assms] assms(5)
  by (auto simp: SetRange_def Let_def span_def split: if_splits)

lemma Release_span: "Release i a = (e, a') \<Longrightarrow> span a' = span a"
  by (auto simp: Release_def Let_def span_def split: if_splits)

interpretation mm: rangeable AllocateNext Allocate Release SetRange taken span alloc_ok
proof (unfold_locales, goal_cases)
  case 1
  then show ?case by (rule AllocateNext_returns)
next
  case 2
  then show ?case by (rule AllocateNext_cases)
next
  case 3
  then show ?case by (rule Allocate_cases)
next
  case 4
  then show ?case using Release_ok Release_span by blast
next
  case 5
  then show ?case by (rule SetRange_cases)
qed

section \<open>Refinement of a set of numbers\<close>

text \<open>
  The abstract allocator is a range and a finite set of numbers. One operation of the
  interface and its reply:
\<close>

datatype alloc_op = OpAllocate int | OpNext | OpRelease int | OpHas int | OpFree | OpSetRange int int

datatype alloc_reply =
  RAlloc bool "alloc_error option" | RNext int bool "alloc_error option"
| RErr "alloc_error option" | RBool bool | RInt int

fun alloc_step :: "alloc_op \<Rightarrow> allocator \<Rightarrow> (alloc_reply \<times> allocator) option" where
  "alloc_step (OpAllocate i) a = (case Allocate i a of ((b, e), a') \<Rightarrow> Some (RAlloc b e, a'))"
| "alloc_step OpNext a =
     (case AllocateNext a of None \<Rightarrow> None | Some ((i, b, e), a') \<Rightarrow> Some (RNext i b e, a'))"
| "alloc_step (OpRelease i) a = (case Release i a of (e, a') \<Rightarrow> Some (RErr e, a'))"
| "alloc_step (OpHas i) a = Some (RBool (Has a i), a)"
| "alloc_step OpFree a = Some (RInt (Free a), a)"
| "alloc_step (OpSetRange lo hi) a = (case SetRange lo hi a of (e, a') \<Rightarrow> Some (RErr e, a'))"

fun alloc_run :: "alloc_op list \<Rightarrow> allocator \<Rightarrow> (alloc_reply list \<times> allocator) option" where
  "alloc_run [] a = Some ([], a)"
| "alloc_run (x # xs) a =
     (case alloc_step x a of None \<Rightarrow> None
      | Some (r, a') \<Rightarrow> (case alloc_run xs a' of None \<Rightarrow> None | Some (rs, a'') \<Rightarrow> Some (r # rs, a'')))"

type_synonym range_set = "int set \<times> int set"

fun spec_step :: "alloc_op \<Rightarrow> range_set \<Rightarrow> alloc_reply \<times> range_set" where
  "spec_step (OpAllocate i) (R, S) =
     (if i \<notin> R then (RAlloc False (Some ErrOutOfRange), (R, S))
      else if i \<in> S then (RAlloc False (Some ErrConflict), (R, S))
      else (RAlloc True None, (R, insert i S)))"
| "spec_step OpNext (R, S) =
     (if R \<subseteq> S then (RNext 0 False (Some ErrRangeFull), (R, S))
      else let i = Min (R - S) in (RNext i True None, (R, insert i S)))"
| "spec_step (OpRelease i) (R, S) = (RErr None, (R, S - {i}))"
| "spec_step (OpHas i) (R, S) = (RBool (i \<in> S), (R, S))"
| "spec_step OpFree (R, S) = (RInt (int (card (R - S))), (R, S))"
| "spec_step (OpSetRange lo hi) (R, S) =
     (if lo > hi then (RErr (Some ErrInvalidRange), (R, S)) else (RErr None, ({lo..hi}, S)))"

fun spec_run :: "alloc_op list \<Rightarrow> range_set \<Rightarrow> alloc_reply list \<times> range_set" where
  "spec_run [] s = ([], s)"
| "spec_run (x # xs) s =
     (case spec_step x s of (r, s') \<Rightarrow> (case spec_run xs s' of (rs, s'') \<Rightarrow> (r # rs, s'')))"

definition alloc_abs :: "allocator \<Rightarrow> range_set" where
  "alloc_abs a = (span a, taken a)"

text \<open>Only the arguments of \<open>SetRange\<close> can leave the 64-bit integers.\<close>

fun op_fits :: "alloc_op \<Rightarrow> bool" where
  "op_fits (OpSetRange lo hi) \<longleftrightarrow> is_int64 lo \<and> is_int64 hi \<and> is_int64 (1 + hi - lo)"
| "op_fits _ \<longleftrightarrow> True"

lemma Min_Diff_eq:
  assumes "finite R" "k \<in> R - S" "\<forall>j \<in> R. j < k \<longrightarrow> j \<in> S"
  shows "Min (R - S) = (k::int)"
  using assms by (intro Min_eqI) (auto simp: not_less [symmetric])

lemma alloc_step_refines:
  assumes "alloc_ok a" "op_fits x"
  shows "\<exists>a'. alloc_step x a = Some (fst (spec_step x (alloc_abs a)), a') \<and> alloc_ok a' \<and>
     alloc_abs a' = snd (spec_step x (alloc_abs a))"
proof (cases x)
  case (OpAllocate i)
  with assms show ?thesis
    using Allocate_cases [OF assms(1), of i]
    by (cases "Allocate i a") (auto simp: alloc_abs_def split: if_splits)
next
  case OpNext
  obtain i b e a' where next_eq: "AllocateNext a = Some ((i, b, e), a')"
    using AllocateNext_returns [OF assms(1)] by (metis not_None_eq surj_pair)
  then show ?thesis using AllocateNext_cases [OF assms(1) next_eq] assms(1) OpNext
    by (auto simp: alloc_abs_def Let_def Min_Diff_eq)
next
  case (OpRelease i)
  with assms show ?thesis using Release_ok [OF assms(1), of i] Release_span [of i a]
    by (cases "Release i a") (auto simp: alloc_abs_def)
next
  case (OpSetRange lo hi)
  with assms show ?thesis using SetRange_cases [OF assms(1), of lo hi]
    by (cases "SetRange lo hi a") (auto simp: alloc_abs_def)
qed (use assms in \<open>auto simp: alloc_abs_def Has_def Free_def alloc_ok_def\<close>)



section \<open>Loops and wide ranges\<close>

lemma first_unused:
  assumes "(i::int) \<le> k" "mget us k = None"
  obtains j where "i \<le> j" "j \<le> k" "mget us j = None" "\<forall>l. i \<le> l \<and> l < j \<longrightarrow> mget us l \<noteq> None"
proof -
  define n where "n = (LEAST n. mget us (i + int n) = None)"
  have ex: "mget us (i + int (nat (k - i))) = None" using assms by simp
  have n: "mget us (i + int n) = None" unfolding n_def by (rule LeastI [where P = "\<lambda>n. mget us (i + int n) = None", OF ex])
  have "n \<le> nat (k - i)" unfolding n_def by (rule Least_le [where P = "\<lambda>n. mget us (i + int n) = None", OF ex])
  moreover have "mget us l \<noteq> None" if "i \<le> l" "l < i + int n" for l
    using not_less_Least [of "nat (l - i)" "\<lambda>n. mget us (i + int n) = None"] that by (simp add: n_def [symmetric])
  ultimately show thesis using that [of "i + int n"] n assms(1) by auto
qed

text \<open>Without an unused number up to the end, the scan finds nothing, or wraps around.\<close>

lemma scan_passes:
  assumes "i \<le> hi" "is_int64 i" "is_int64 hi" "\<forall>l. i \<le> l \<and> l \<le> hi \<longrightarrow> mget us l \<noteq> None"
  shows "scan us hi i = scan us hi (int64 (hi + 1))"
  using assms
proof (induction "nat (hi - i)" arbitrary: i)
  case 0
  then have "hi = i" by simp
  then show ?case using 0 by (subst scan.simps) auto
next
  case (Suc n)
  then have lt: "i < hi" by simp
  then have fit: "is_int64 (i + 1)" using Suc.prems by (auto simp: fits_def)
  have "scan us hi i = scan us hi (i + 1)"
    using Suc.prems lt fit by (subst scan.simps) auto
  moreover have "scan us hi (i + 1) = scan us hi (int64 (hi + 1))"
    using Suc.prems lt fit Suc.hyps by (intro Suc.hyps) auto
  ultimately show ?case by simp
qed

lemma scan_returns:
  assumes "is_int64 i" "is_int64 hi" "is_int64 k" "mget us k = None"
  shows "\<exists>r. scan us hi i = Some r \<and> (\<forall>j. r = Some j \<longrightarrow> j \<le> hi \<and> mget us j = None)"
proof (cases "\<exists>l. i \<le> l \<and> l \<le> hi \<and> mget us l = None")
  case True
  then obtain l where l: "i \<le> l" "l \<le> hi" "mget us l = None" by blast
  obtain j where j: "i \<le> j" "j \<le> l" "mget us j = None" "\<forall>l. i \<le> l \<and> l < j \<longrightarrow> mget us l \<noteq> None"
    using first_unused [OF l(1,3)] by blast
  have "j \<le> hi" using j(2) l(2) by simp
  then show ?thesis using scan_finds [OF j(1) _ assms(1,2) j(3,4)] j(3) by simp
next
  case none: False
  show ?thesis
  proof (cases "i \<le> hi")
    case False
    then have "scan us hi i = Some None" by (subst scan.simps) simp
    then show ?thesis by simp
  next
    case True
    then have wrap: "scan us hi i = scan us hi (int64 (hi + 1))" 
      by (rule scan_passes [OF _ assms(1,2)]) (use none in simp_all)
    show ?thesis
    proof (cases "hi = 2 ^ 63 - 1")
      case False
      then have "int64 (hi + 1) = hi + 1" using assms(2) by (intro wrap_fits_id) (auto simp: fits_def)
      moreover have "scan us hi (hi + 1) = Some None" by (subst scan.simps) simp
      ultimately show ?thesis using wrap by simp
    next
      case top: True
      have low: "int64 (hi + 1) = - (2 ^ 63)" using top by (simp add: wrap_def)
      have k: "- (2 ^ 63) \<le> k" "k \<le> hi" using assms(3) top by (auto simp: fits_def)
      obtain j where j: "- (2 ^ 63) \<le> j" "j \<le> k" "mget us j = None" "\<forall>l. - (2 ^ 63) \<le> l \<and> l < j \<longrightarrow> mget us l \<noteq> None"
        using first_unused [OF k(1) assms(4)] by blast
      have "j \<le> hi" "is_int64 (- (2 ^ 63))" using j(2) k(2) by (simp_all add: fits_def)
      then show ?thesis using scan_finds [OF j(1) _ _ assms(2) j(3,4)] j(3) wrap low by simp
    qed
  qed
qed

text \<open>
  C30. \<open>AllocateNext\<close> terminates whatever its counters say, as long as one 64 bit number is unused:
  even when the range ends at the largest number, where the loop wraps around. A number that it
  returns without an error was unused and is at most the end of the range.
\<close>

theorem AllocateNext_terminates:
  assumes "is_int64 (amin a)" "is_int64 (amax a)" "is_int64 k" "\<not> has a k"
  shows "\<exists>i b e a'. AllocateNext a = Some ((i, b, e), a') \<and> b = (e = None) \<and>
    (if b then i \<le> amax a \<and> \<not> has a i \<and> has a' i else a' = a)"
proof -
  obtain r where r: "scan (used a) (amax a) (amin a) = Some r" "\<forall>j. r = Some j \<longrightarrow> j \<le> amax a \<and> mget (used a) j = None"
    using scan_returns [OF assms(1-3), of "used a"] assms(4) by (auto simp: has_def simp del: has_taken)
  then show ?thesis by (cases r) (auto simp: AllocateNext_def has_def simp del: has_taken)
qed

theorem AllocateNext_terminates_witness:
  "\<exists>i b e a'. AllocateNext \<lparr>amin = 1, amax = 9223372036854775807, free = 5, used = [(1, True), (2, True)]\<rparr> = Some ((i, b, e), a') \<and>
     b = (e = None)"
proof -
  have "\<not> has \<lparr>amin = 1, amax = 9223372036854775807, free = 5, used = [(1, True), (2, True)]\<rparr> 3"
    by (simp add: has_def del: has_taken)
  with AllocateNext_terminates [of "\<lparr>amin = 1, amax = 9223372036854775807, free = 5, used = [(1, True), (2, True)]\<rparr>" 3]
  show ?thesis by (fastforce simp: fits_def simp del: has_taken)
qed

text \<open>
  C31. The size of a range must be a 64 bit number: the first allocation from a new allocator
  yields the start of the range, exactly if the range has fewer than \<open>2^63\<close> numbers; from a wider
  range it fails with the error for a full range, because the number of free ones has overflowed.
\<close>

theorem wide_range_is_full:
  assumes "lo \<le> hi" "is_int64 lo" "is_int64 hi"
  shows "\<exists>a. NewMinMaxAllocator lo hi = Inr a \<and>
    (if 1 + hi - lo < 2 ^ 63 then \<exists>a'. AllocateNext a = Some ((lo, True, None), a')
     else AllocateNext a = Some ((0, False, Some ErrRangeFull), a))"
proof (cases "1 + hi - lo < 2 ^ 63")
  case True
  then have f: "int64 (1 + hi - lo) = 1 + hi - lo" using assms(1) by (intro wrap_fits_id) (auto simp: fits_def)
  have "scan [] hi lo = Some (Some lo)" using assms(1) by (simp add: scan.simps)
  then show ?thesis using assms(1) f True by (simp add: NewMinMaxAllocator_def AllocateNext_def)
next
  case False
  let ?x = "1 + hi - lo"
  have b: "2 ^ 63 \<le> ?x" "?x \<le> 2 ^ 64" using False assms(2,3) by (auto simp: fits_def)
  have "int64 ?x = int64 (?x - 2 ^ 64)" using mod_add_self2 [of "?x - 2 ^ 63" "2 ^ 64"] by (simp add: wrap_def)
  also have "\<dots> = ?x - 2 ^ 64" by (rule wrap_fits_id) (use b in \<open>simp_all add: fits_def\<close>)
  finally have "int64 ?x \<le> 0" using b(2) by linarith
  then show ?thesis using assms(1) False by (simp add: NewMinMaxAllocator_def AllocateNext_def)
qed

theorem wide_range_is_full_witness:
  "\<exists>a. NewMinMaxAllocator 0 9223372036854775807 = Inr a \<and> AllocateNext a = Some ((0, False, Some ErrRangeFull), a)"
  using wide_range_is_full [of 0 9223372036854775807] by (simp add: fits_def)

end
