(* ===== verification/GoStd.thy ===== *)
theory GoStd
  imports Prelude
begin

text \<open>
  The functions of Go's standard library that the program calls, on strings as byte lists:
  \<open>strconv\<close> (\<open>ParseInt\<close>, \<open>ParseBool\<close>, \<open>Itoa\<close>, \<open>FormatUint\<close>, \<open>Quote\<close>), \<open>strings\<close>
  (\<open>Split\<close>, \<open>Join\<close>, \<open>Trim\<close>, \<open>Contains\<close>, \<open>Replace\<close>, \<open>ToLower\<close>, \<open>ToUpper\<close>) and \<open>path.Join\<close>.
  Case conversion is the ASCII one.
\<close>

section \<open>Decimal numbers\<close>

definition digit_char :: "nat \<Rightarrow> char" where
  "digit_char d = ''0123456789'' ! d"

definition digit_val :: "char \<Rightarrow> nat" where
  "digit_val c = of_char c - 48"

definition is_digit :: "char \<Rightarrow> bool" where
  "is_digit c \<longleftrightarrow> 48 \<le> (of_char c :: nat) \<and> (of_char c :: nat) \<le> 57"

fun show_nat :: "nat \<Rightarrow> string" where
  "show_nat n = (if n < 10 then [digit_char n] else show_nat (n div 10) @ [digit_char (n mod 10)])"

declare show_nat.simps [simp del]

text \<open>\<open>strconv.Itoa\<close>, \<open>strconv.FormatUint\<close> and \<open>fmt.Sprint\<close> of an integer.\<close>

definition itoa :: "int \<Rightarrow> string" where
  "itoa i = (if i < 0 then CHR ''-'' # show_nat (nat (- i)) else show_nat (nat i))"

datatype parse_error = ErrSyntax | ErrRange

text \<open>The digit loop of \<open>ParseUint\<close>: it stops at the first digit that exceeds the maximum.\<close>

fun parse_uint :: "nat \<Rightarrow> string \<Rightarrow> nat \<Rightarrow> parse_error + nat" where
  "parse_uint mx [] n = Inr n"
| "parse_uint mx (c # cs) n =
     (if \<not> is_digit c then Inl ErrSyntax
      else let n1 = 10 * n + digit_val c
           in if n1 > mx then Inl ErrRange else parse_uint mx cs n1)"

text \<open>\<open>ParseInt(s, 10, bits)\<close>: on a range error the value is the nearest representable one.\<close>

definition ParseInt :: "string \<Rightarrow> nat \<Rightarrow> int \<times> parse_error option" where
  "ParseInt s bits =
     (let (neg, ds) = (case s of c # cs \<Rightarrow> if c = CHR ''-'' then (True, cs)
                                  else if c = CHR ''+'' then (False, cs) else (False, s)
                       | [] \<Rightarrow> (False, []));
          cutoff = 2 ^ (bits - 1)
      in if ds = [] then (0, Some ErrSyntax)
         else case parse_uint (2 ^ bits - 1) ds 0 of
           Inl ErrSyntax \<Rightarrow> (0, Some ErrSyntax)
         | Inl ErrRange \<Rightarrow> (if neg then - int cutoff else int cutoff - 1, Some ErrRange)
         | Inr n \<Rightarrow>
             if \<not> neg \<and> n \<ge> cutoff then (int cutoff - 1, Some ErrRange)
             else if neg \<and> n > cutoff then (- int cutoff, Some ErrRange)
             else (if neg then - int n else int n, None))"

lemma of_char_digit: "d < 10 \<Longrightarrow> (of_char (digit_char d) :: nat) = 48 + d"
  by (auto simp: digit_char_def eval_nat_numeral less_Suc_eq)

lemma digit_char_simps [simp]:
  "d < 10 \<Longrightarrow> is_digit (digit_char d)" "d < 10 \<Longrightarrow> digit_val (digit_char d) = d"
  by (simp_all add: is_digit_def digit_val_def of_char_digit)

lemma digit_char_not_sign [simp]:
  "d < 10 \<Longrightarrow> digit_char d \<noteq> CHR ''-''" "d < 10 \<Longrightarrow> digit_char d \<noteq> CHR ''+''"
  using of_char_digit [of d] by (auto dest: arg_cong [where f = "of_char :: char \<Rightarrow> nat"])

text \<open>For the evaluation of closed terms.\<close>

lemmas parse_eval = ParseInt_def is_digit_def digit_val_def

lemma show_nat_small [simp]: "n < 10 \<Longrightarrow> show_nat n = [digit_char n]"
  by (simp add: show_nat.simps)

lemma show_nat_big [simp]: "10 \<le> n \<Longrightarrow> show_nat n = show_nat (n div 10) @ [digit_char (n mod 10)]"
  by (simp add: show_nat.simps)

lemma show_nat_digits: "\<forall>c \<in> set (show_nat n). is_digit c"
  by (induction n rule: show_nat.induct) (subst show_nat.simps, auto)

lemma show_nat_nonempty [simp]: "show_nat n \<noteq> []"
  by (subst show_nat.simps) simp

lemma parse_uint_append:
  "parse_uint mx (xs @ ys) n =
     (case parse_uint mx xs n of Inl e \<Rightarrow> Inl e | Inr m \<Rightarrow> parse_uint mx ys m)"
  by (induction mx xs n rule: parse_uint.induct) (auto simp: Let_def)

lemma parse_uint_show: "n \<le> mx \<Longrightarrow> parse_uint mx (show_nat n) 0 = Inr n"
proof (induction n rule: show_nat.induct)
  case (1 n)
  show ?case
  proof (cases "n < 10")
    case True
    then show ?thesis using 1 by simp
  next
    case False
    then have "parse_uint mx (show_nat (n div 10)) 0 = Inr (n div 10)"
      using 1 by (meson div_le_dividend le_trans)
    moreover have "10 * (n div 10) + n mod 10 = n" by simp
    ultimately show ?thesis using False 1 by (simp add: parse_uint_append)
  qed
qed

lemma hd_show_nat: "show_nat n = c # cs \<Longrightarrow> c \<noteq> CHR ''-'' \<and> c \<noteq> CHR ''+''"
  using show_nat_digits [of n] by (auto simp: is_digit_def)

lemma ParseInt_nonneg_digits:
  "show_nat n = s \<Longrightarrow> n < 2 ^ (bits - 1) \<Longrightarrow> 0 < bits \<Longrightarrow> ParseInt s bits = (int n, None)"
proof -
  assume s: "show_nat n = s" and n: "n < 2 ^ (bits - 1)" and b: "0 < bits"
  have "(2::nat) ^ bits = 2 * 2 ^ (bits - 1)" using b by (cases bits) simp_all
  with n have "n \<le> 2 ^ bits - 1" by linarith
  then have "parse_uint (2 ^ bits - 1) s 0 = Inr n" using s parse_uint_show by blast
  moreover have "s \<noteq> []" using s by auto
  ultimately show ?thesis using s n hd_show_nat [of n]
    by (cases s) (auto simp: ParseInt_def Let_def)
qed

text \<open>What \<open>Itoa\<close> prints, \<open>ParseInt\<close> reads back.\<close>

lemma ParseInt_itoa: "0 < bits \<Longrightarrow> fits bits i \<Longrightarrow> ParseInt (itoa i) bits = (i, None)"
proof (cases "i < 0")
  case True
  assume b: "0 < bits" and i: "fits bits i"
  define n where "n = nat (- i)"
  have n: "i = - int n" using True by (simp add: n_def)
  then have "n \<le> 2 ^ (bits - 1)" using i by (simp add: fits_def)
  moreover have "(2::nat) ^ bits = 2 * 2 ^ (bits - 1)" using b by (cases bits) simp_all
  moreover have "(1::nat) \<le> 2 ^ (bits - 1)" by simp
  ultimately have "n \<le> 2 ^ bits - 1" by linarith
  then have "parse_uint (2 ^ bits - 1) (show_nat n) 0 = Inr n" by (rule parse_uint_show)
  then show ?thesis using True \<open>n \<le> 2 ^ (bits - 1)\<close>
    by (simp add: ParseInt_def itoa_def n not_less)
next
  case False
  assume b: "0 < bits" and i: "fits bits i"
  define n where "n = nat i"
  have n: "i = int n" using False by (simp add: n_def)
  then have "n < 2 ^ (bits - 1)" using i by (simp add: fits_def)
  then show ?thesis using False n b by (simp add: itoa_def ParseInt_nonneg_digits)
qed

lemma ParseInt_fits:
  assumes "0 < bits"
  shows "fits bits (fst (ParseInt s bits))"
proof -
  obtain neg ds where nd: "(case s of c # cs \<Rightarrow> if c = CHR ''-'' then (True, cs)
                                  else if c = CHR ''+'' then (False, cs) else (False, s)
                       | [] \<Rightarrow> (False, [])) = (neg, ds)" by fastforce
  have pos: "(0::int) < 2 ^ (bits - 1)" by simp
  have lt: "n < 2 ^ (bits - 1) \<Longrightarrow> int n < 2 ^ (bits - 1)" for n
    by (metis of_nat_less_iff of_nat_numeral of_nat_power)
  have neg1: "- int n < 2 ^ (bits - 1)" and neg2: "- (2 ^ (bits - 1)) \<le> int n" for n
    using pos by linarith+
  show ?thesis
    unfolding ParseInt_def nd Let_def prod.case using pos
    by (auto simp: fits_def not_le neg1 [simplified] neg2 [simplified] dest!: lt
        split: sum.split parse_error.split)
qed

lemma itoa_nonempty [simp]: "itoa i \<noteq> []"
  by (simp add: itoa_def)

section \<open>Booleans\<close>

definition ParseBool :: "string \<Rightarrow> bool \<times> parse_error option" where
  "ParseBool s =
     (if s \<in> {''1'', ''t'', ''T'', ''TRUE'', ''true'', ''True''} then (True, None)
      else if s \<in> {''0'', ''f'', ''F'', ''FALSE'', ''false'', ''False''} then (False, None)
      else (False, Some ErrSyntax))"

definition show_bool :: "bool \<Rightarrow> string" where
  "show_bool b = (if b then ''true'' else ''false'')"

lemma ParseBool_show [simp]: "ParseBool (show_bool b) = (b, None)"
  by (simp add: ParseBool_def show_bool_def)

section \<open>Strings\<close>

text \<open>\<open>strings.Split\<close> with a one-character separator.\<close>

fun split_on :: "char \<Rightarrow> string \<Rightarrow> string list" where
  "split_on c [] = [[]]"
| "split_on c (x # xs) =
     (if x = c then [] # split_on c xs
      else case split_on c xs of [] \<Rightarrow> [[x]] | y # ys \<Rightarrow> (x # y) # ys)"

fun join :: "string \<Rightarrow> string list \<Rightarrow> string" where
  "join sep [] = []"
| "join sep [x] = x"
| "join sep (x # y # ys) = x @ sep @ join sep (y # ys)"

text \<open>\<open>strings.Trim(s, " ")\<close>\<close>

definition trim_spaces :: "string \<Rightarrow> string" where
  "trim_spaces s = rev (dropWhile (\<lambda>c. c = CHR '' '') (rev (dropWhile (\<lambda>c. c = CHR '' '') s)))"

fun starts_with :: "string \<Rightarrow> string \<Rightarrow> bool" where
  "starts_with [] ys = True"
| "starts_with (x # xs) [] = False"
| "starts_with (x # xs) (y # ys) = (x = y \<and> starts_with xs ys)"

text \<open>\<open>contains s t\<close> is \<open>strings.Contains(s, t)\<close>.\<close>

fun contains :: "string \<Rightarrow> string \<Rightarrow> bool" where
  "contains [] t = (t = [])"
| "contains (x # xs) t = (starts_with t (x # xs) \<or> contains xs t)"

definition ascii_lower :: "char \<Rightarrow> char" where
  "ascii_lower c = (let n = of_char c :: nat in if 65 \<le> n \<and> n \<le> 90 then char_of (n + 32) else c)"

definition ascii_upper :: "char \<Rightarrow> char" where
  "ascii_upper c = (let n = of_char c :: nat in if 97 \<le> n \<and> n \<le> 122 then char_of (n - 32) else c)"

definition ToLower :: "string \<Rightarrow> string" where "ToLower s = map ascii_lower s"
definition ToUpper :: "string \<Rightarrow> string" where "ToUpper s = map ascii_upper s"

lemma starts_with_prefix: "starts_with t s \<longleftrightarrow> prefix t s"
  by (induction t s rule: starts_with.induct) auto

lemma contains_sublist: "contains s t \<longleftrightarrow> sublist t s"
  by (induction s t rule: contains.induct) (auto simp: starts_with_prefix sublist_Cons_right)

lemma split_on_nonempty [simp]: "split_on c s \<noteq> []"
  by (cases s) (auto split: list.splits)

lemma split_on_no_sep: "c \<notin> set s \<Longrightarrow> split_on c s = [s]"
  by (induction s) auto

lemma split_on_append: "c \<notin> set s \<Longrightarrow> split_on c (s @ c # t) = s # split_on c t"
  by (induction s) auto

lemma split_join:
  "xs \<noteq> [] \<Longrightarrow> \<forall>x \<in> set xs. c \<notin> set x \<Longrightarrow> split_on c (join [c] xs) = xs"
  by (induction "[c]" xs rule: join.induct) (auto simp: split_on_no_sep split_on_append)

lemma split_on_parts: "\<forall>x \<in> set (split_on c s). c \<notin> set x"
  by (induction s) (auto split: list.splits)

section \<open>Quoting and paths\<close>

definition hex_char :: "nat \<Rightarrow> char" where
  "hex_char d = (if d < 10 then digit_char d else char_of (87 + d))"

definition quote_char :: "char \<Rightarrow> string" where
  "quote_char c =
     (let n = of_char c :: nat in
      if n = 34 \<or> n = 92 then [char_of (92 :: nat), c]
      else if n = 7 then [char_of (92 :: nat), CHR ''a''] else if n = 8 then [char_of (92 :: nat), CHR ''b'']
      else if n = 12 then [char_of (92 :: nat), CHR ''f''] else if n = 10 then [char_of (92 :: nat), CHR ''n'']
      else if n = 13 then [char_of (92 :: nat), CHR ''r''] else if n = 9 then [char_of (92 :: nat), CHR ''t'']
      else if n = 11 then [char_of (92 :: nat), CHR ''v'']
      else if n < 32 \<or> n = 127 then [char_of (92 :: nat), CHR ''x'', hex_char (n div 16), hex_char (n mod 16)]
      else [c])"

text \<open>\<open>strconv.Quote\<close>, also the verb \<open>%q\<close>.\<close>

definition quote_string :: "string \<Rightarrow> string" where
  "quote_string s = char_of (34 :: nat) # concat (map quote_char s) @ [char_of (34 :: nat)]"

text \<open>\<open>path.Clean\<close>: the stack holds the components kept so far, innermost first.\<close>

fun clean_parts :: "bool \<Rightarrow> string list \<Rightarrow> string list \<Rightarrow> string list" where
  "clean_parts rooted stack [] = rev stack"
| "clean_parts rooted stack (p # ps) =
     (if p = [] \<or> p = ''.'' then clean_parts rooted stack ps
      else if p = ''..'' then
        (case stack of
           [] \<Rightarrow> clean_parts rooted (if rooted then [] else [''..'']) ps
         | t # ts \<Rightarrow> if t = ''..'' then clean_parts rooted (''..'' # stack) ps
                     else clean_parts rooted ts ps)
      else clean_parts rooted (p # stack) ps)"

definition path_clean :: "string \<Rightarrow> string" where
  "path_clean s =
     (let rooted = starts_with ''/'' s; body = join ''/'' (clean_parts rooted [] (split_on CHR ''/'' s))
      in if rooted then CHR ''/'' # body else if body = [] then ''.'' else body)"

definition path_join :: "string list \<Rightarrow> string" where
  "path_join ps = (case filter (\<lambda>p. p \<noteq> []) ps of [] \<Rightarrow> [] | qs \<Rightarrow> path_clean (join ''/'' qs))"

end
