(* ===== verification/Util.thy ===== *)
theory Util
  imports GoStd
begin

text \<open>\<open>lib/util/util.go\<close>: allocation units and access modes.\<close>

type_synonym access_mode = string

definition ReadWriteOnce :: access_mode where "ReadWriteOnce = ''ReadWriteOnce''"

definition KiB :: int where "KiB = 1024"
definition MiB :: int where "MiB = 1024 * KiB"
definition GiB :: int where "GiB = 1024 * MiB"
definition TiB :: int where "TiB = 1024 * GiB"

text \<open>\<open>None\<close> is the runtime panic of an integer division by zero.\<close>

definition RoundUpSize :: "int \<Rightarrow> int \<Rightarrow> int option" where
  "RoundUpSize volumeSizeBytes allocationUnitBytes =
     (if allocationUnitBytes = 0 then None
      else Some (int64 (quot (int64 (volumeSizeBytes + allocationUnitBytes - 1)) allocationUnitBytes)))"

fun AccessModesContains :: "access_mode list \<Rightarrow> access_mode \<Rightarrow> bool" where
  "AccessModesContains [] mode = False"
| "AccessModesContains (m # modes) mode = (if m = mode then True else AccessModesContains modes mode)"

fun AccessModesContainedInAll :: "access_mode list \<Rightarrow> access_mode list \<Rightarrow> bool" where
  "AccessModesContainedInAll indexedModes [] = True"
| "AccessModesContainedInAll indexedModes (mode # modes) =
     (if \<not> AccessModesContains indexedModes mode then False
      else AccessModesContainedInAll indexedModes modes)"

lemma AccessModesContains_set [simp]: "AccessModesContains ms m \<longleftrightarrow> m \<in> set ms"
  by (induction ms) auto

lemma AccessModesContainedInAll_subset [simp]:
  "AccessModesContainedInAll ms rs \<longleftrightarrow> set rs \<subseteq> set ms"
  by (induction rs) auto

lemma ceil_div_least:
  assumes "0 < (u::int)"
  shows "(v + u - 1) div u * u \<ge> v \<and> (\<forall>k. k * u \<ge> v \<longrightarrow> (v + u - 1) div u \<le> k)"
proof -
  have "(v + u - 1) div u * u = v + u - 1 - (v + u - 1) mod u" by (simp add: minus_mod_eq_div_mult)
  moreover have "(v + u - 1) mod u < u" using assms by simp
  ultimately have 1: "(v + u - 1) div u * u \<ge> v" by linarith
  have "(v + u - 1) div u \<le> k" if "k * u \<ge> v" for k
  proof -
    have "v + u - 1 \<le> k * u + (u - 1)" using that by simp
    then have "(v + u - 1) div u \<le> (k * u + (u - 1)) div u" using assms by (rule zdiv_mono1)
    also have "\<dots> = k" using assms by (simp add: div_pos_pos_trivial)
    finally show ?thesis .
  qed
  with 1 show ?thesis by blast
qed

end
