(* ===== verification/Kube.thy ===== *)
theory Kube
  imports Util
begin

text \<open>
  The data the program works on: Kubernetes objects (the fields it reads or writes), the
  types of \<open>lib/controller/volume.go\<close>, and decoded JSON values.
\<close>

section \<open>Errors\<close>

text \<open>A Go error that the program can tell apart: a text, or an \<open>IgnoredError\<close>.\<close>

datatype go_error = Err string | IgnoredError string

type_synonym err = "go_error option"

fun Error :: "go_error \<Rightarrow> string" where
  "Error (Err s) = s"
| "Error (IgnoredError reason) = ''ignored because '' @ reason"

section \<open>Kubernetes objects\<close>

type_synonym uid = string
type_synonym strmap = "(string, string) gomap"

record node_address =
  addr_type :: string
  address :: string

record node =
  node_name :: string
  addresses :: "node_address list"

text \<open>
  A nil annotation map is \<open>None\<close>. Storage requests are given by \<open>Quantity.Value()\<close>. The field
  \<open>pvc_other\<close> stands for everything else in a claim, which is only compared and copied.
\<close>

record pvc =
  pvc_namespace :: string
  pvc_name :: string
  pvc_uid :: uid
  pvc_resourceVersion :: string
  pvc_annotations :: "strmap option"
  pvc_volumeName :: string
  pvc_accessModes :: "access_mode list"
  pvc_storageClassName :: "string option"
  pvc_storage :: int
  pvc_phase :: string
  pvc_other :: string

record fc_source =
  fc_targetWWNs :: "string list"
  fc_lun :: int
  fc_readOnly :: bool
  fc_fsType :: string

record iscsi_source =
  is_targetPortal :: string
  is_portals :: "string list"
  is_iqn :: string
  is_interface :: string
  is_lun :: int
  is_readOnly :: bool
  is_fsType :: string

record nfs_source =
  nfs_server :: string
  nfs_path :: string
  nfs_readOnly :: bool

record claim_ref =
  ref_namespace :: string
  ref_name :: string
  ref_uid :: uid
  ref_resourceVersion :: string

record pv =
  pv_name :: string
  pv_namespace :: string
  pv_uid :: uid
  pv_annotations :: "strmap option"
  pv_reclaimPolicy :: string
  pv_accessModes :: "access_mode list"
  pv_capacity :: int
  pv_storageClassName :: string
  pv_claimRef :: "claim_ref option"
  pv_phase :: string
  pv_fc :: "fc_source option"
  pv_iscsi :: "iscsi_source option"
  pv_nfs :: "nfs_source option"

record storage_class =
  sc_name :: string
  sc_provisioner :: string
  sc_parameters :: strmap
  sc_reclaimPolicy :: "string option"

text \<open>What the class store holds: one of the two versions of a class, or something else, printed.\<close>

datatype class_object = StorageClass storage_class | BetaStorageClass storage_class | OtherObject string

text \<open>\<open>VolumeOptions\<close> of \<open>lib/controller/volume.go\<close>.\<close>

record volume_options =
  vo_reclaimPolicy :: string
  PVName :: string
  PVC :: pvc
  Parameters :: strmap

definition annotations_of :: "strmap option \<Rightarrow> strmap" where
  "annotations_of m = (case m of None \<Rightarrow> [] | Some kvs \<Rightarrow> kvs)"

lemma annotations_of_simps [simp]: "annotations_of (Some m) = m" "annotations_of None = []"
  by (simp_all add: annotations_of_def)

definition BetaStorageClassAnnotation :: string where
  "BetaStorageClassAnnotation = ''volume.beta.kubernetes.io/storage-class''"

text \<open>\<open>metav1.SetMetaDataAnnotation\<close> and \<open>metav1.HasAnnotation\<close>.\<close>

definition SetMetaDataAnnotation :: "string \<Rightarrow> string \<Rightarrow> pv \<Rightarrow> pv" where
  "SetMetaDataAnnotation ann v p = p\<lparr>pv_annotations := Some (mput ann v (annotations_of (pv_annotations p)))\<rparr>"

definition HasAnnotation :: "pv \<Rightarrow> string \<Rightarrow> bool" where
  "HasAnnotation p ann \<longleftrightarrow> mget (annotations_of (pv_annotations p)) ann \<noteq> None"

section \<open>Storage classes of claims and volumes\<close>

definition GetPersistentVolumeClaimClass :: "pvc \<Rightarrow> string" where
  "GetPersistentVolumeClaimClass claim =
     (case mget (annotations_of (pvc_annotations claim)) BetaStorageClassAnnotation of
        Some class \<Rightarrow> class
      | None \<Rightarrow> (case pvc_storageClassName claim of Some class \<Rightarrow> class | None \<Rightarrow> []))"

definition GetPersistentVolumeClass :: "pv \<Rightarrow> string" where
  "GetPersistentVolumeClass volume =
     (case mget (annotations_of (pv_annotations volume)) BetaStorageClassAnnotation of
        Some class \<Rightarrow> class
      | None \<Rightarrow> pv_storageClassName volume)"

section \<open>JSON values\<close>

text \<open>
  What \<open>encoding/json\<close> stores in an \<open>interface{}\<close>. A number is a \<open>float64\<close>; every finite one
  is \<open>m / 10^k\<close> for some integer m and natural k, written \<open>JNum m k\<close>. \<open>JNull\<close> is Go's nil, and
  also what indexing a map with a missing key yields.
\<close>

datatype json =
  JNull | JBool bool | JNum int nat | JStr string | JArr "json list" | JObj "(string \<times> json) list"

definition jget :: "(string \<times> json) list \<Rightarrow> string \<Rightarrow> json" where
  "jget kvs k = (case map_of kvs k of None \<Rightarrow> JNull | Some v \<Rightarrow> v)"

fun type_name :: "json \<Rightarrow> string" where
  "type_name JNull = ''nil''"
| "type_name (JBool b) = ''bool''"
| "type_name (JNum m k) = ''float64''"
| "type_name (JStr s) = ''string''"
| "type_name (JArr xs) = ''[]interface {}''"
| "type_name (JObj kvs) = ''map[string]interface {}''"

text \<open>
  Conversion of a \<open>float64\<close> to an integer type truncates; out of range the result is the
  machine's (the smallest integer on amd64).
\<close>

definition float_int :: "nat \<Rightarrow> int \<Rightarrow> nat \<Rightarrow> int" where
  "float_int bits m k = (let t = quot m (10 ^ k) in if fits bits t then t else - (2 ^ (bits - 1)))"

lemma float_int_whole [simp]: "fits bits n \<Longrightarrow> float_int bits n 0 = n"
  by (simp add: float_int_def quot_def sgn_mult_abs)

lemma fits_float_int [simp]: "0 < bits \<Longrightarrow> fits bits (float_int bits m k)"
proof -
  assume "0 < bits"
  have "(0::int) < 2 ^ (bits - 1)" by simp
  then have "fits bits (- (2 ^ (bits - 1)))" unfolding fits_def by linarith
  then show ?thesis by (simp add: float_int_def Let_def)
qed

text \<open>
  \<open>fmt.Sprint\<close> of a decoded value; a fractional number is printed with all its decimals, and
  Go's switch to an exponent from \<open>10^21\<close> on is left out.
\<close>

definition show_decimal :: "int \<Rightarrow> nat \<Rightarrow> string" where
  "show_decimal m k =
     (if m mod 10 ^ k = 0 then itoa (m div 10 ^ k)
      else (let a = nat \<bar>m\<bar>; fr = show_nat (a mod 10 ^ k) in
            (if m < 0 then ''-'' else '''') @ show_nat (a div 10 ^ k) @ ''.'' @
            rev (dropWhile (\<lambda>c. c = CHR ''0'') (rev (replicate (k - length fr) (CHR ''0'') @ fr)))))"

fun sprint :: "json \<Rightarrow> string" where
  "sprint JNull = ''<nil>''"
| "sprint (JBool b) = show_bool b"
| "sprint (JNum m k) = show_decimal m k"
| "sprint (JStr s) = s"
| "sprint (JArr xs) = ''['' @ join '' '' (map sprint xs) @ '']''"
| "sprint (JObj kvs) = ''map['' @ join '' '' (map (\<lambda>(k, v). k @ '':'' @ sprint v) kvs) @ '']''"

end
