(* ===== verification/GoProg.thy ===== *)
theory GoProg
  imports Kube
begin

text \<open>
  Programs with effects. A Go function that talks to InfiniBox or Kubernetes is a function of
  an environment (how the outside answers) and of the world (what has been asked so far, and
  the variables shared between calls); it ends with a value or a panic, and the world it has
  reached survives a panic, as it does in Go.

  The environment answers each call from the whole history of calls, so a fact proved for
  every environment holds for every service, including one that other clients use at the
  same time.
\<close>

section \<open>Calls to the outside\<close>

datatype http_method = GET | PUT | POST | DELETE

record rest_client =
  rc_user :: string
  rc_password :: string
  rc_host :: string

record request =
  rq_client :: rest_client
  rq_method :: http_method
  rq_url :: string
  rq_query :: string
  rq_body :: "json option"

text \<open>
  A resty response: \<open>decoded\<close> is the outcome of \<open>json.Unmarshal\<close> on its body (an error text
  or a value). A failed call returns a response together with an error, or, when the request
  could not even be built, no response at all (\<open>NilResponse\<close>).
\<close>

record response =
  status_code :: int
  status_line :: string
  final_url :: string
  decoded :: "string + json"

datatype reply = NilResponse string | Response response "string option"

text \<open>
  A watch on a claim (by its name, from a resource version on) or on the events that a field
  selector picks in a namespace.
\<close>

datatype watch_target =
  WatchClaim string string
| WatchEvents string string string

text \<open>
  The actions: REST calls to InfiniBox, calls to the API server, and looks into the caches that
  the informers keep, which may change between any two of them. Events have a type, a reason
  and a message.
\<close>

datatype action =
  Rest request
| GetPV string | CreatePV pv | DeletePV string | ListPVs
| GetClass string
| ReadClass string | ReadNodes | ReadVolumes
| ClaimEvent pvc string string string | VolumeEvent pv string string string
| ListEvents string string | StartWatch watch_target | StopWatch watch_target
| Sleep int

record env =
  answer :: "action list \<Rightarrow> request \<Rightarrow> reply"
  pv_lookup :: "action list \<Rightarrow> string \<Rightarrow> pv option \<times> err"
  pv_create :: "action list \<Rightarrow> pv \<Rightarrow> err"
  pv_delete :: "action list \<Rightarrow> string \<Rightarrow> err"
  pv_list :: "action list \<Rightarrow> go_error + pv list"
  class_lookup :: "action list \<Rightarrow> string \<Rightarrow> storage_class \<times> err"
  cached_class :: "action list \<Rightarrow> string \<Rightarrow> go_error + class_object option"
  cached_nodes :: "action list \<Rightarrow> node option list"
  cached_volumes :: "action list \<Rightarrow> pv option list"
  list_events :: "action list \<Rightarrow> string \<Rightarrow> string \<Rightarrow> go_error + string list"
  start_watch :: "action list \<Rightarrow> watch_target \<Rightarrow> err"
  event_selector :: "pvc \<Rightarrow> string"
  claim_reference :: "pvc \<Rightarrow> go_error + claim_ref"
  getenv :: "string \<Rightarrow> string option"

text \<open>
  The ConfigMap store of the controller. Provisioners receive the \<open>Data\<close> map of the cached
  object by reference, so their assignments to it are assignments to the cache.
\<close>

datatype config_object = ConfigMap "strmap option" | NotConfigMap

record world =
  history :: "action list"
  rest_client :: "rest_client option"
  configuration :: "(string, config_object) gomap"
  networkspacesUsed :: int
  networkspacesIps :: "(string, int) gomap"

definition configMapName :: string where
  "configMapName = ''default/infinidatprovisionerconfig''"

section \<open>Programs\<close>

datatype 'a outcome = Done 'a | Panic string

type_synonym 'a prog = "env \<Rightarrow> world \<Rightarrow> 'a outcome \<times> world"

definition ret :: "'a \<Rightarrow> 'a prog" where
  "ret x = (\<lambda>e w. (Done x, w))"

definition panic :: "string \<Rightarrow> 'a prog" where
  "panic s = (\<lambda>e w. (Panic s, w))"

definition bind :: "'a prog \<Rightarrow> ('a \<Rightarrow> 'b prog) \<Rightarrow> 'b prog" where
  "bind m f = (\<lambda>e w. case m e w of (Done x, w') \<Rightarrow> f x e w' | (Panic s, w') \<Rightarrow> (Panic s, w'))"

abbreviation seq :: "'a prog \<Rightarrow> 'b prog \<Rightarrow> 'b prog" where
  "seq m n \<equiv> bind m (\<lambda>_. n)"

text \<open>A deferred function that recovers: it turns a panic into the function's results.\<close>

definition on_panic :: "(string \<Rightarrow> 'a prog) \<Rightarrow> 'a prog \<Rightarrow> 'a prog" where
  "on_panic h m = (\<lambda>e w. case m e w of (Done x, w') \<Rightarrow> (Done x, w') | (Panic s, w') \<Rightarrow> h s e w')"

text \<open>
  The idiom \<open>defer func() { if res := recover(); res != nil && err == nil { err = errors.New(msg
  + fmt.Sprint(res)) } }()\<close> for a function whose named results are \<open>results err\<close>, where \<open>err0\<close>
  is the value of \<open>err\<close> while m runs: an error already set is kept.
\<close>

definition guard :: "err \<Rightarrow> (err \<Rightarrow> 'a) \<Rightarrow> string \<Rightarrow> 'a prog \<Rightarrow> 'a prog" where
  "guard err0 results msg m =
     on_panic (\<lambda>p. ret (results (case err0 of None \<Rightarrow> Some (Err (msg @ p)) | Some e \<Rightarrow> Some e))) m"

definition lift :: "'a outcome \<Rightarrow> 'a prog" where
  "lift x = (\<lambda>e w. (x, w))"

definition ask :: "(env \<Rightarrow> 'a) \<Rightarrow> 'a prog" where
  "ask f = (\<lambda>e w. (Done (f e), w))"

definition look :: "(world \<Rightarrow> 'a) \<Rightarrow> 'a prog" where
  "look f = (\<lambda>e w. (Done (f w), w))"

definition change :: "(world \<Rightarrow> world) \<Rightarrow> unit prog" where
  "change f = (\<lambda>e w. (Done (), f w))"

definition call :: "action \<Rightarrow> (env \<Rightarrow> action list \<Rightarrow> 'a) \<Rightarrow> 'a prog" where
  "call a f = (\<lambda>e w. (Done (f e (history w)), w\<lparr>history := history w @ [a]\<rparr>))"

text \<open>
  A deferred function that turns a panic into the results \<open>results p\<close> and then cleans up, seeing
  the named results; what it returns are those results.
\<close>

definition deferred :: "(string \<Rightarrow> 'a) \<Rightarrow> ('a \<Rightarrow> unit prog) \<Rightarrow> 'a prog \<Rightarrow> 'a prog" where
  "deferred results undo m = bind (on_panic (\<lambda>p. ret (results p)) m) (\<lambda>r. seq (undo r) (ret r))"

definition nil_dereference :: string where
  "nil_dereference = ''runtime error: invalid memory address or nil pointer dereference''"
definition index_out_of_range :: string where
  "index_out_of_range = ''runtime error: index out of range''"
definition divide_by_zero :: string where
  "divide_by_zero = ''runtime error: integer divide by zero''"
definition nil_map_write :: string where
  "nil_map_write = ''assignment to entry in nil map''"

section \<open>Type assertions and indexing\<close>

definition bad_assertion :: "json \<Rightarrow> string \<Rightarrow> 'a prog" where
  "bad_assertion v t =
     panic (''interface conversion: interface {} is '' @ type_name v @ '', not '' @ t)"

definition as_obj :: "json \<Rightarrow> (string \<times> json) list prog" where
  "as_obj v = (case v of JObj kvs \<Rightarrow> ret kvs | _ \<Rightarrow> bad_assertion v ''map[string]interface {}'')"

definition as_arr :: "json \<Rightarrow> json list prog" where
  "as_arr v = (case v of JArr xs \<Rightarrow> ret xs | _ \<Rightarrow> bad_assertion v ''[]interface {}'')"

definition as_str :: "json \<Rightarrow> string prog" where
  "as_str v = (case v of JStr s \<Rightarrow> ret s | _ \<Rightarrow> bad_assertion v ''string'')"

text \<open>\<open>int64(v.(float64))\<close> and \<open>int32(v.(float64))\<close>\<close>

definition as_int :: "nat \<Rightarrow> json \<Rightarrow> int prog" where
  "as_int bits v = (case v of JNum m k \<Rightarrow> ret (float_int bits m k) | _ \<Rightarrow> bad_assertion v ''float64'')"

definition index :: "'a list \<Rightarrow> int \<Rightarrow> 'a prog" where
  "index xs i = (if 0 \<le> i \<and> i < int (length xs) then ret (xs ! nat i) else panic index_out_of_range)"

section \<open>The configuration map\<close>

text \<open>\<open>getConfiguration\<close> of the controller: the cached map, or nil.\<close>

definition getConfiguration :: "world \<Rightarrow> strmap option" where
  "getConfiguration w =
     (case mget (configuration w) configMapName of Some (ConfigMap d) \<Rightarrow> d | _ \<Rightarrow> None)"

definition read_config :: "string \<Rightarrow> string prog" where
  "read_config k = look (\<lambda>w. mstr (annotations_of (getConfiguration w)) k)"

definition write_config :: "string \<Rightarrow> string \<Rightarrow> unit prog" where
  "write_config k v = (\<lambda>e w.
     case getConfiguration w of
       None \<Rightarrow> (Panic nil_map_write, w)
     | Some d \<Rightarrow> (Done (), w\<lparr>configuration :=
                    mput configMapName (ConfigMap (Some (mput k v d))) (configuration w)\<rparr>))"

text \<open>\<open>for key, value := range options.Parameters { config[key] = value }\<close>\<close>

fun merge_config :: "(string \<times> string) list \<Rightarrow> unit prog" where
  "merge_config [] = ret ()"
| "merge_config ((k, v) # kvs) = seq (write_config k v) (merge_config kvs)"

section \<open>Rules\<close>

lemma bind_Done [simp]: "m e w = (Done x, w') \<Longrightarrow> bind m f e w = f x e w'"
  by (simp add: bind_def)

lemma bind_Panic [simp]: "m e w = (Panic s, w') \<Longrightarrow> bind m f e w = (Panic s, w')"
  by (simp add: bind_def)

lemma ret_simp [simp]: "ret x e w = (Done x, w)"
  by (simp add: ret_def)

lemma panic_simp [simp]: "panic s e w = (Panic s, w)"
  by (simp add: panic_def)

lemma lift_simp [simp]: "lift x e w = (x, w)"
  by (simp add: lift_def)

lemma ask_simp [simp]: "ask f e w = (Done (f e), w)"
  by (simp add: ask_def)

lemma look_simp [simp]: "look f e w = (Done (f w), w)"
  by (simp add: look_def)

lemma change_simp [simp]: "change f e w = (Done (), f w)"
  by (simp add: change_def)

lemma call_simp [simp]: "call a f e w = (Done (f e (history w)), w\<lparr>history := history w @ [a]\<rparr>)"
  by (simp add: call_def)

lemma bind_ret [simp]: "bind (ret x) f = f x"
  by (simp add: bind_def ret_def)

lemma bind_panic [simp]: "bind (panic s) f = panic s"
  by (simp add: bind_def panic_def fun_eq_iff)

lemma bind_assoc: "bind (bind m f) g = bind m (\<lambda>x. bind (f x) g)"
  by (auto simp: bind_def fun_eq_iff split: prod.splits outcome.splits)

lemma bind_eq_Done:
  "bind m f e w = (Done y, w'') \<longleftrightarrow> (\<exists>x w'. m e w = (Done x, w') \<and> f x e w' = (Done y, w''))"
  by (auto simp: bind_def split: prod.splits outcome.splits)

lemma bind_eq_Panic:
  "bind m f e w = (Panic s, w'') \<longleftrightarrow>
     m e w = (Panic s, w'') \<or> (\<exists>x w'. m e w = (Done x, w') \<and> f x e w' = (Panic s, w''))"
  by (auto simp: bind_def split: prod.splits outcome.splits)

lemma guard_Done [simp]: "m e w = (Done x, w') \<Longrightarrow> guard err0 results msg m e w = (Done x, w')"
  by (simp add: guard_def on_panic_def)

lemma guard_Panic [simp]:
  "m e w = (Panic s, w') \<Longrightarrow> guard err0 results msg m e w =
     (Done (results (case err0 of None \<Rightarrow> Some (Err (msg @ s)) | Some x \<Rightarrow> Some x)), w')"
  by (simp add: guard_def on_panic_def)

lemma guard_None_Panic:
  "m e w = (Panic s, w') \<Longrightarrow> guard None results msg m e w = (Done (results (Some (Err (msg @ s)))), w')"
  by simp

lemma guard_ret [simp]: "guard err0 results msg (ret x) = ret x"
  by (simp add: fun_eq_iff)

text \<open>A function with a deferred recover never panics.\<close>

lemma guard_returns: "\<exists>x w'. guard err0 results msg m e w = (Done x, w')"
  by (cases "m e w"; cases "fst (m e w)") auto

lemma guard_eq_Done:
  "guard err0 results msg m e w = (Done y, w') \<longleftrightarrow>
     m e w = (Done y, w') \<or>
     (\<exists>s. m e w = (Panic s, w') \<and> y = results (case err0 of None \<Rightarrow> Some (Err (msg @ s)) | Some x \<Rightarrow> Some x))"
  by (cases "m e w"; cases "fst (m e w)") auto

lemma as_simps [simp]:
  "as_obj (JObj kvs) = ret kvs" "as_arr (JArr xs) = ret xs" "as_str (JStr s) = ret s"
  "as_int b (JNum m k) = ret (float_int b m k)"
  "as_obj JNull = bad_assertion JNull ''map[string]interface {}''"
  "as_arr JNull = bad_assertion JNull ''[]interface {}''"
  by (simp_all add: as_obj_def as_arr_def as_str_def as_int_def)

lemma bad_assertion_simp [simp]:
  "bad_assertion v t e w = (Panic (''interface conversion: interface {} is '' @ type_name v @ '', not '' @ t), w)"
  by (simp add: bad_assertion_def)

lemma as_obj_eq_Done [simp]: "as_obj v e w = (Done kvs, w') \<longleftrightarrow> v = JObj kvs \<and> w' = w"
  by (cases v) (auto simp: as_obj_def)

lemma as_arr_eq_Done [simp]: "as_arr v e w = (Done xs, w') \<longleftrightarrow> v = JArr xs \<and> w' = w"
  by (cases v) (auto simp: as_arr_def)

lemma as_str_eq_Done [simp]: "as_str v e w = (Done s, w') \<longleftrightarrow> v = JStr s \<and> w' = w"
  by (cases v) (auto simp: as_str_def)

lemma as_int_eq_Done [simp]:
  "as_int b v e w = (Done i, w') \<longleftrightarrow> (\<exists>m k. v = JNum m k \<and> i = float_int b m k) \<and> w' = w"
  by (cases v) (auto simp: as_int_def)

lemma index_eq_Done [simp]:
  "index xs i e w = (Done x, w') \<longleftrightarrow> 0 \<le> i \<and> i < int (length xs) \<and> x = xs ! nat i \<and> w' = w"
  by (auto simp: index_def)

section \<open>What a program asks of the outside\<close>

text \<open>
  \<open>issues P m\<close>: from every environment and world, m only appends to the history, and every
  action it appends satisfies P.
\<close>

definition issues :: "(action \<Rightarrow> bool) \<Rightarrow> 'a prog \<Rightarrow> bool" where
  "issues P m \<longleftrightarrow> (\<forall>e w. \<exists>xs. history (snd (m e w)) = history w @ xs \<and> (\<forall>a \<in> set xs. P a))"

named_theorems issues_intro \<open>syntax-directed rules for \<open>issues\<close>\<close>

lemma issuesI:
  "(\<And>e w. \<exists>xs. history (snd (m e w)) = history w @ xs \<and> (\<forall>a \<in> set xs. P a)) \<Longrightarrow> issues P m"
  by (simp add: issues_def)

lemma issuesD:
  "issues P m \<Longrightarrow> m e w = (r, w') \<Longrightarrow> \<exists>xs. history w' = history w @ xs \<and> (\<forall>a \<in> set xs. P a)"
  unfolding issues_def by (metis snd_conv)

lemma issues_grows: "issues P m \<Longrightarrow> m e w = (r, w') \<Longrightarrow> prefix (history w) (history w')"
  by (drule (1) issuesD) auto

lemma issues_mono: "issues P m \<Longrightarrow> (\<And>a. P a \<Longrightarrow> Q a) \<Longrightarrow> issues Q m"
  unfolding issues_def by meson

lemma issues_ret [issues_intro]: "issues P (ret x)"
  by (simp add: issues_def)

lemma issues_panic [issues_intro]: "issues P (panic s)"
  by (simp add: issues_def)

lemma issues_lift [issues_intro]: "issues P (lift x)"
  by (simp add: issues_def)

lemma issues_look [issues_intro]: "issues P (look f)"
  by (simp add: issues_def)

lemma issues_ask [issues_intro]: "issues P (ask f)"
  by (simp add: issues_def)

lemma issues_call [issues_intro]: "P a \<Longrightarrow> issues P (call a f)"
  by (simp add: issues_def)

lemma issues_change [issues_intro]: "(\<And>w. history (f w) = history w) \<Longrightarrow> issues P (change f)"
  by (simp add: issues_def)

lemma issues_bind [issues_intro]:
  assumes m: "issues P m" and f: "\<And>x. issues P (f x)"
  shows "issues P (bind m f)"
proof (rule issuesI)
  fix e w
  obtain r w1 where mw: "m e w = (r, w1)" by fastforce
  obtain xs where xs: "history w1 = history w @ xs" "\<forall>a \<in> set xs. P a"
    using issuesD [OF m mw] by blast
  show "\<exists>xs. history (snd (bind m f e w)) = history w @ xs \<and> (\<forall>a \<in> set xs. P a)"
  proof (cases r)
    case (Done x)
    obtain r2 w2 where fw: "f x e w1 = (r2, w2)" by fastforce
    obtain ys where "history w2 = history w1 @ ys" "\<forall>a \<in> set ys. P a"
      using issuesD [OF f fw] by blast
    with xs mw fw Done show ?thesis by (intro exI [of _ "xs @ ys"]) auto
  next
    case (Panic s)
    with xs mw show ?thesis by auto
  qed
qed

lemma issues_on_panic [issues_intro]:
  assumes m: "issues P m" and h: "\<And>s. issues P (h s)"
  shows "issues P (on_panic h m)"
proof (rule issuesI)
  fix e w
  obtain r w1 where mw: "m e w = (r, w1)" by fastforce
  obtain xs where xs: "history w1 = history w @ xs" "\<forall>a \<in> set xs. P a"
    using issuesD [OF m mw] by blast
  show "\<exists>xs. history (snd (on_panic h m e w)) = history w @ xs \<and> (\<forall>a \<in> set xs. P a)"
  proof (cases r)
    case (Done x)
    with xs mw show ?thesis by (auto simp: on_panic_def)
  next
    case (Panic s)
    obtain r2 w2 where fw: "h s e w1 = (r2, w2)" by fastforce
    obtain ys where "history w2 = history w1 @ ys" "\<forall>a \<in> set ys. P a"
      using issuesD [OF h fw] by blast
    with xs mw fw Panic show ?thesis by (intro exI [of _ "xs @ ys"]) (auto simp: on_panic_def)
  qed
qed

lemma issues_guard [issues_intro]: "issues P m \<Longrightarrow> issues P (guard err0 results msg m)"
  unfolding guard_def by (intro issues_intro)

lemma issues_deferred [issues_intro]:
  "issues P m \<Longrightarrow> (\<And>r. issues P (undo r)) \<Longrightarrow> issues P (deferred results undo m)"
  unfolding deferred_def by (intro issues_intro)

lemma issues_if [issues_intro]: "(b \<Longrightarrow> issues P m) \<Longrightarrow> (\<not> b \<Longrightarrow> issues P n) \<Longrightarrow> issues P (if b then m else n)"
  by simp

lemma issues_case_prod [issues_intro]: "(\<And>a b. issues P (f a b)) \<Longrightarrow> issues P (case x of (a, b) \<Rightarrow> f a b)"
  by (cases x) simp

lemma issues_case_option [issues_intro]:
  "issues P m \<Longrightarrow> (\<And>a. issues P (f a)) \<Longrightarrow> issues P (case x of None \<Rightarrow> m | Some a \<Rightarrow> f a)"
  by (cases x) simp_all

lemma issues_case_sum [issues_intro]:
  "(\<And>a. issues P (f a)) \<Longrightarrow> (\<And>b. issues P (g b)) \<Longrightarrow> issues P (case x of Inl a \<Rightarrow> f a | Inr b \<Rightarrow> g b)"
  by (cases x) simp_all

lemma issues_case_reply [issues_intro]:
  "(\<And>a. issues P (f a)) \<Longrightarrow> (\<And>a b. issues P (g a b)) \<Longrightarrow>
     issues P (case x of NilResponse a \<Rightarrow> f a | Response a b \<Rightarrow> g a b)"
  by (cases x) simp_all

lemma issues_case_outcome [issues_intro]:
  "(\<And>a. issues P (f a)) \<Longrightarrow> (\<And>b. issues P (g b)) \<Longrightarrow> issues P (case x of Done a \<Rightarrow> f a | Panic b \<Rightarrow> g b)"
  by (cases x) simp_all

lemma issues_let [issues_intro]: "issues P (f x) \<Longrightarrow> issues P (let y = x in f y)"
  by (simp add: Let_def)

lemma issues_bad_assertion [issues_intro]: "issues P (bad_assertion v t)"
  unfolding bad_assertion_def by (rule issues_panic)

lemma issues_as [issues_intro]:
  "issues P (as_obj v)" "issues P (as_arr v)" "issues P (as_str v)" "issues P (as_int b v)"
  by (auto simp: as_obj_def as_arr_def as_str_def as_int_def issues_intro split: json.split)

lemma issues_index [issues_intro]: "issues P (index xs i)"
  by (auto simp: index_def issues_intro)

lemma issues_read_config [issues_intro]: "issues P (read_config k)"
  unfolding read_config_def by (rule issues_look)

lemma issues_write_config [issues_intro]: "issues P (write_config k v)"
  by (auto simp: issues_def write_config_def split: option.split)

lemma issues_merge_config [issues_intro]: "issues P (merge_config kvs)"
  by (induction kvs rule: merge_config.induct) (auto simp only: merge_config.simps intro!: issues_intro)

text \<open>\<open>len\<close>-safe remainder of Go's \<open>%\<close>.\<close>

definition go_rem :: "int \<Rightarrow> int \<Rightarrow> int" where
  "go_rem a b = a - b * quot a b"

lemma go_rem_nonneg [simp]: "0 \<le> a \<Longrightarrow> 0 < b \<Longrightarrow> go_rem a b = a mod b"
  by (simp add: go_rem_def minus_mult_div_eq_mod)

section \<open>Calls through the REST client\<close>

definition Apiusername :: string where "Apiusername = ''MGMT_USERNAME''"
definition Apipassword :: string where "Apipassword = ''MGMT_PASSWORD''"
definition Apiurl :: string where "Apiurl = ''MGMT_URL''"

text \<open>\<open>os.Getenv\<close>\<close>

definition Getenv :: "string \<Rightarrow> string prog" where
  "Getenv k = ask (\<lambda>e. case getenv e k of None \<Rightarrow> [] | Some v \<Rightarrow> v)"

definition perform :: "rest_client \<Rightarrow> http_method \<Rightarrow> string \<Rightarrow> string \<Rightarrow> json option \<Rightarrow> reply prog" where
  "perform c m url query body =
     (let rq = \<lparr>rq_client = c, rq_method = m, rq_url = url, rq_query = query, rq_body = body\<rparr>
      in call (Rest rq) (\<lambda>e h. answer e h rq))"

text \<open>
  \<open>GetRestClient\<close> of \<open>lib/commons/common.go\<close>: the client is made once, from the environment
  variables, and tried on the management URL; a failure is only logged.
\<close>

definition GetRestClient :: "rest_client prog" where
  "GetRestClient =
     bind (look world.rest_client) (\<lambda>c. case c of
       Some client \<Rightarrow> ret client
     | None \<Rightarrow>
         bind (Getenv Apiusername) (\<lambda>user. bind (Getenv Apipassword) (\<lambda>password. bind (Getenv Apiurl) (\<lambda>url.
           let client = \<lparr>rc_user = user, rc_password = password, rc_host = url\<rparr> in
           seq (change (\<lambda>w. w\<lparr>rest_client := Some client\<rparr>))
          (seq (perform client GET url [] None)
          (ret client))))))"

definition rest :: "http_method \<Rightarrow> string \<Rightarrow> string \<Rightarrow> json option \<Rightarrow> reply prog" where
  "rest m url query body = bind GetRestClient (\<lambda>c. perform c m url query body)"

text \<open>The \<open>err\<close> of \<open>res, err := ...\<close>\<close>

fun reply_err :: "reply \<Rightarrow> err" where
  "reply_err (NilResponse s) = Some (Err s)"
| "reply_err (Response r None) = None"
| "reply_err (Response r (Some s)) = Some (Err s)"

text \<open>
  The actions of a REST program: the client's own test call, or a call with a method from M.
\<close>

fun is_rest :: "http_method set \<Rightarrow> action \<Rightarrow> bool" where
  "is_rest M (Rest rq) \<longleftrightarrow> rq_method rq \<in> insert GET M"
| "is_rest M _ \<longleftrightarrow> False"

lemma issues_GetRestClient: "issues (is_rest M) GetRestClient"
  unfolding GetRestClient_def perform_def Getenv_def by (intro issues_intro) auto

lemma issues_rest [issues_intro]: "m \<in> insert GET M \<Longrightarrow> issues (is_rest M) (rest m url q b)"
  unfolding rest_def perform_def by (intro issues_intro issues_GetRestClient) auto

lemma rest_returns: "\<exists>r w'. rest m url q b e w = (Done r, w')"
  by (auto simp: rest_def GetRestClient_def perform_def Getenv_def bind_def Let_def split: option.split)

text \<open>A REST call ends with its own request in the history.\<close>

lemma rest_last:
  assumes "rest m url q b e w = (Done r, w')"
  shows "\<exists>rq xs. history w' = history w @ xs @ [Rest rq] \<and> rq_method rq = m \<and> rq_url rq = url \<and>
     rq_query rq = q \<and> rq_body rq = b \<and> r = answer e (history w @ xs) rq"
  using assms
  by (cases "world.rest_client w")
    (auto simp: rest_def GetRestClient_def perform_def Getenv_def bind_def Let_def)

lemma rest_frame:
  assumes "rest m url q b e w = (Done r, w')"
  shows "configuration w' = configuration w \<and> networkspacesUsed w' = networkspacesUsed w \<and>
     networkspacesIps w' = networkspacesIps w"
  using assms
  by (cases "world.rest_client w")
    (auto simp: rest_def GetRestClient_def perform_def Getenv_def bind_def Let_def)

section \<open>Following the history\<close>

text \<open>An action is a request with a given method and URL.\<close>

fun asks :: "http_method \<Rightarrow> string \<Rightarrow> action \<Rightarrow> bool" where
  "asks m url (Rest rq) \<longleftrightarrow> rq_method rq = m \<and> rq_url rq = url"
| "asks m url _ \<longleftrightarrow> False"

abbreviation silent :: "'a prog \<Rightarrow> bool" where
  "silent m \<equiv> issues (\<lambda>_. False) m"

lemma silentD: "silent m \<Longrightarrow> m e w = (r, w') \<Longrightarrow> history w' = history w"
  by (drule (1) issuesD) auto

text \<open>Between two worlds only actions of the given kind were performed.\<close>

definition did :: "(action \<Rightarrow> bool) \<Rightarrow> world \<Rightarrow> world \<Rightarrow> bool" where
  "did P w w' \<longleftrightarrow> (\<exists>xs. history w' = history w @ xs \<and> (\<forall>a \<in> set xs. P a))"

lemma did_refl [simp]: "did P w w"
  by (simp add: did_def)

lemma did_trans [trans]: "did P w1 w2 \<Longrightarrow> did P w2 w3 \<Longrightarrow> did P w1 w3"
  unfolding did_def by (metis Un_iff append.assoc set_append)

lemma did_mono: "did P w w' \<Longrightarrow> (\<And>a. P a \<Longrightarrow> Q a) \<Longrightarrow> did Q w w'"
  unfolding did_def by blast

lemma did_prefix: "did P w w' \<Longrightarrow> prefix (history w) (history w')"
  by (auto simp: did_def)

lemma issues_did: "issues P m \<Longrightarrow> m e w = (r, w') \<Longrightarrow> did P w w'"
  unfolding did_def by (rule issuesD)

lemma is_rest_mono: "is_rest M a \<Longrightarrow> M \<subseteq> N \<Longrightarrow> is_rest N a"
  by (cases a) auto

lemma did_rest_mono: "did (is_rest M) w w' \<Longrightarrow> M \<subseteq> N \<Longrightarrow> did (is_rest N) w w'"
  by (erule did_mono) (rule is_rest_mono)

text \<open>The last thing that was done between two worlds is a request with this method and URL.\<close>

definition ended :: "http_method \<Rightarrow> string \<Rightarrow> world \<Rightarrow> world \<Rightarrow> bool" where
  "ended m url w w' \<longleftrightarrow> (\<exists>xs a. history w' = history w @ xs @ [a] \<and> asks m url a)"

lemma ended_later: "did P w0 w \<Longrightarrow> ended m url w w' \<Longrightarrow> ended m url w0 w'"
  unfolding ended_def did_def by fastforce

text \<open>A program whose only request is its first step.\<close>

lemma rest_then:
  assumes "bind (rest m u q b) f e w = (r, w')" "\<And>x. silent (f x)"
  shows "ended m u w w'"
proof -
  obtain x w1 where R: "rest m u q b e w = (Done x, w1)" using rest_returns by blast
  obtain rq xs where A: "history w1 = history w @ xs @ [Rest rq]" "rq_method rq = m" "rq_url rq = u"
    using rest_last [OF R] by blast
  moreover have "f x e w1 = (r, w')" using assms(1) R by simp
  then have "history w' = history w1" using assms(2) silentD by blast
  ultimately show ?thesis unfolding ended_def by (intro exI [of _ xs] exI [of _ "Rest rq"]) simp
qed

lemma read_config_Done [simp]:
  "read_config k e w = (Done (mstr (annotations_of (getConfiguration w)) k), w)"
  by (simp add: read_config_def)

text \<open>For executing a program step by step, given the results of its steps.\<close>

lemmas exec = bind_Done bind_Panic read_config_Done ret_simp prod.case option.case option.distinct
  not_True_eq_False not_False_eq_True if_True if_False simp_thms

lemma deferred_eq_Done:
  "deferred results undo m e w = (Done r, w2) \<longleftrightarrow>
     (\<exists>w1 y. on_panic (\<lambda>p. ret (results p)) m e w = (Done r, w1) \<and> undo r e w1 = (Done y, w2))"
  by (auto simp: deferred_def bind_eq_Done)

lemma on_panic_eq_Done:
  "on_panic (\<lambda>p. ret (results p)) m e w = (Done r, w1) \<longleftrightarrow>
     m e w = (Done r, w1) \<or> (\<exists>s. m e w = (Panic s, w1) \<and> r = results s)"
  by (cases "m e w"; cases "fst (m e w)") (auto simp: on_panic_def)

section \<open>Programs that never panic\<close>

definition returns :: "'a prog \<Rightarrow> bool" where
  "returns m \<longleftrightarrow> (\<forall>e w. \<exists>x w'. m e w = (Done x, w'))"

named_theorems returns_intro \<open>syntax-directed rules for \<open>returns\<close>\<close>

lemma returnsD: "returns m \<Longrightarrow> \<exists>x w'. m e w = (Done x, w')"
  unfolding returns_def by blast

lemma returns_no_panic: "returns m \<Longrightarrow> m e w \<noteq> (Panic s, w')"
  using returnsD [of m e w] by auto

lemma returns_simple [returns_intro]:
  "returns (ret x)" "returns (look f1)" "returns (ask f2)" "returns (change f3)" "returns (call a f4)"
  "returns (guard err0 results msg m)" "returns (rest me u q b)" "returns (read_config k)" "returns (Getenv k)"
  unfolding returns_def by (simp_all add: guard_returns rest_returns read_config_def Getenv_def)

lemma returns_bind [returns_intro]: "returns m \<Longrightarrow> (\<And>x. returns (f x)) \<Longrightarrow> returns (bind m f)"
  unfolding returns_def by (metis bind_Done)

lemma returns_deferred [returns_intro]:
  assumes "\<And>r. returns (undo r)"
  shows "returns (deferred results undo m)"
proof -
  have "\<exists>r w'. on_panic (\<lambda>p. ret (results p)) m e w = (Done r, w')" for e w
    by (cases "m e w"; cases "fst (m e w)") (auto simp: on_panic_def)
  then have "returns (on_panic (\<lambda>p. ret (results p)) m)" unfolding returns_def by blast
  then show ?thesis unfolding deferred_def by (intro returns_intro assms)
qed

lemma returns_split [returns_intro]:
  "\<And>P m n. (P \<Longrightarrow> returns m) \<Longrightarrow> (\<not> P \<Longrightarrow> returns n) \<Longrightarrow> returns (if P then m else n)"
  "\<And>f p. (\<And>a b. returns (f a b)) \<Longrightarrow> returns (case p of (a, b) \<Rightarrow> f a b)"
  "\<And>m f o'. returns m \<Longrightarrow> (\<And>a. returns (f a)) \<Longrightarrow> returns (case o' of None \<Rightarrow> m | Some a \<Rightarrow> f a)"
  "\<And>f g s. (\<And>a. returns (f a)) \<Longrightarrow> (\<And>b. returns (g b)) \<Longrightarrow> returns (case s of Inl a \<Rightarrow> f a | Inr b \<Rightarrow> g b)"
  "\<And>f x. returns (f x) \<Longrightarrow> returns (let y = x in f y)"
  by (simp_all split: prod.split option.split sum.split)

section \<open>Programs that leave the configuration alone\<close>

definition keeps :: "'a prog \<Rightarrow> bool" where
  "keeps m \<longleftrightarrow> (\<forall>e w. configuration (snd (m e w)) = configuration w)"

named_theorems keeps_intro \<open>syntax-directed rules for \<open>keeps\<close>\<close>

lemma keepsD: "keeps m \<Longrightarrow> m e w = (r, w') \<Longrightarrow> configuration w' = configuration w"
  unfolding keeps_def by (metis snd_conv)

lemma keeps_getConfiguration: "keeps m \<Longrightarrow> m e w = (r, w') \<Longrightarrow> getConfiguration w' = getConfiguration w"
  by (drule (1) keepsD) (simp add: getConfiguration_def)

lemma keeps_simple [keeps_intro]:
  "keeps (ret x)" "keeps (panic s)" "keeps (look f1)" "keeps (ask f2)" "keeps (call a f3)" "keeps (lift y)"
  "keeps (read_config k)" "keeps (Getenv k)" "keeps (bad_assertion v t)"
  unfolding keeps_def by (simp_all add: read_config_def Getenv_def)

lemma keeps_change [keeps_intro]: "(\<And>w. configuration (f w) = configuration w) \<Longrightarrow> keeps (change f)"
  by (simp add: keeps_def)

lemma keeps_bind [keeps_intro]: "keeps m \<Longrightarrow> (\<And>x. keeps (f x)) \<Longrightarrow> keeps (bind m f)"
  by (auto simp: keeps_def bind_def split: prod.split outcome.split) (metis snd_conv)+

lemma keeps_on_panic [keeps_intro]: "keeps m \<Longrightarrow> (\<And>s. keeps (h s)) \<Longrightarrow> keeps (on_panic h m)"
  by (auto simp: keeps_def on_panic_def split: prod.split outcome.split) (metis snd_conv)+

lemma keeps_guard [keeps_intro]: "keeps m \<Longrightarrow> keeps (guard err0 results msg m)"
  unfolding guard_def by (intro keeps_intro)

lemma keeps_deferred [keeps_intro]: "keeps m \<Longrightarrow> (\<And>r. keeps (undo r)) \<Longrightarrow> keeps (deferred results undo m)"
  unfolding deferred_def by (intro keeps_intro)

lemma keeps_rest [keeps_intro]: "keeps (rest m u q b)"
  unfolding rest_def GetRestClient_def perform_def Let_def
  by (auto simp: keeps_def bind_def Getenv_def split: option.split)

lemma keeps_as [keeps_intro]: "keeps (as_obj v)" "keeps (as_arr v)" "keeps (as_str v)" "keeps (as_int b v)" "keeps (index xs i)"
  by (auto simp: as_obj_def as_arr_def as_str_def as_int_def index_def keeps_intro split: json.split)

lemma keeps_split [keeps_intro]:
  "\<And>P m n. (P \<Longrightarrow> keeps m) \<Longrightarrow> (\<not> P \<Longrightarrow> keeps n) \<Longrightarrow> keeps (if P then m else n)"
  "\<And>f p. (\<And>a b. keeps (f a b)) \<Longrightarrow> keeps (case p of (a, b) \<Rightarrow> f a b)"
  "\<And>m f o'. keeps m \<Longrightarrow> (\<And>a. keeps (f a)) \<Longrightarrow> keeps (case o' of None \<Rightarrow> m | Some a \<Rightarrow> f a)"
  "\<And>f g s. (\<And>a. keeps (f a)) \<Longrightarrow> (\<And>b. keeps (g b)) \<Longrightarrow> keeps (case s of Inl a \<Rightarrow> f a | Inr b \<Rightarrow> g b)"
  "\<And>f x. keeps (f x) \<Longrightarrow> keeps (let y = x in f y)"
  "\<And>m n b. keeps m \<Longrightarrow> keeps n \<Longrightarrow> keeps (case b of True \<Rightarrow> m | False \<Rightarrow> n)"
  "\<And>f g r. (\<And>a. keeps (f a)) \<Longrightarrow> (\<And>a b. keeps (g a b)) \<Longrightarrow> keeps (case r of NilResponse a \<Rightarrow> f a | Response a b \<Rightarrow> g a b)"
  by (simp_all split: prod.split option.split sum.split bool.split reply.split)

lemma keeps_case_json [keeps_intro]:
  "keeps a \<Longrightarrow> (\<And>b. keeps (f1 b)) \<Longrightarrow> (\<And>m k. keeps (f2 m k)) \<Longrightarrow> (\<And>s. keeps (f3 s)) \<Longrightarrow>
   (\<And>xs. keeps (f4 xs)) \<Longrightarrow> (\<And>kvs. keeps (f5 kvs)) \<Longrightarrow>
   keeps (case x of JNull \<Rightarrow> a | JBool b \<Rightarrow> f1 b | JNum m k \<Rightarrow> f2 m k | JStr s \<Rightarrow> f3 s
     | JArr xs \<Rightarrow> f4 xs | JObj kvs \<Rightarrow> f5 kvs)"
  by (cases x) simp_all

section \<open>Programs that write only some keys of the configuration\<close>

definition writes :: "string set \<Rightarrow> 'a prog \<Rightarrow> bool" where
  "writes K m \<longleftrightarrow> (\<forall>e w d. getConfiguration w = Some d \<longrightarrow>
     (\<exists>d'. getConfiguration (snd (m e w)) = Some d' \<and> (\<forall>k. k \<notin> K \<longrightarrow> mget d' k = mget d k)))"

named_theorems writes_intro \<open>syntax-directed rules for \<open>writes\<close>\<close>

lemma writesD:
  "writes K m \<Longrightarrow> m e w = (r, w') \<Longrightarrow> getConfiguration w = Some d \<Longrightarrow>
     \<exists>d'. getConfiguration w' = Some d' \<and> (\<forall>k. k \<notin> K \<longrightarrow> mget d' k = mget d k)"
  unfolding writes_def by (metis snd_conv)

lemma writes_keeps: "keeps m \<Longrightarrow> writes K m"
  by (simp add: keeps_def writes_def getConfiguration_def)

lemma getConfiguration_frame [simp]:
  "getConfiguration (w\<lparr>history := h\<rparr>) = getConfiguration w"
  "getConfiguration (w\<lparr>networkspacesUsed := n\<rparr>) = getConfiguration w"
  "getConfiguration (w\<lparr>networkspacesIps := m\<rparr>) = getConfiguration w"
  "getConfiguration (w\<lparr>rest_client := c\<rparr>) = getConfiguration w"
  "getConfiguration (w\<lparr>configuration := mput configMapName (ConfigMap d) conf\<rparr>) = d"
  by (simp_all add: getConfiguration_def)

lemma writes_write [writes_intro]: "k \<in> K \<Longrightarrow> writes K (write_config k v)"
  by (auto simp: writes_def write_config_def)

lemma writes_bind [writes_intro]:
  assumes m: "writes K m" and f: "\<And>x. writes K (f x)"
  shows "writes K (bind m f)"
  unfolding writes_def
proof (intro allI impI)
  fix e w d assume d: "getConfiguration w = Some d"
  obtain r w1 where R: "m e w = (r, w1)" by fastforce
  obtain d1 where d1: "getConfiguration w1 = Some d1" "\<forall>k. k \<notin> K \<longrightarrow> mget d1 k = mget d k"
    using writesD [OF m R d] by blast
  show "\<exists>d'. getConfiguration (snd (bind m f e w)) = Some d' \<and> (\<forall>k. k \<notin> K \<longrightarrow> mget d' k = mget d k)"
  proof (cases r)
    case (Done x)
    obtain r2 w2 where R2: "f x e w1 = (r2, w2)" by fastforce
    then show ?thesis using writesD [OF f R2 d1(1)] d1(2) R Done by auto
  qed (use R d1 in auto)
qed

lemma guard_world: "snd (guard err0 results msg m e w) = snd (m e w)"
  by (simp add: guard_def on_panic_def split: prod.split outcome.split)

lemma writes_guard [writes_intro]: "writes K m \<Longrightarrow> writes K (guard err0 results msg m)"
  by (simp add: writes_def guard_world)

lemma writes_split [writes_intro]:
  "\<And>P m n. (P \<Longrightarrow> writes K m) \<Longrightarrow> (\<not> P \<Longrightarrow> writes K n) \<Longrightarrow> writes K (if P then m else n)"
  "\<And>f p. (\<And>a b. writes K (f a b)) \<Longrightarrow> writes K (case p of (a, b) \<Rightarrow> f a b)"
  "\<And>m f o'. writes K m \<Longrightarrow> (\<And>a. writes K (f a)) \<Longrightarrow> writes K (case o' of None \<Rightarrow> m | Some a \<Rightarrow> f a)"
  "\<And>f x. writes K (f x) \<Longrightarrow> writes K (let y = x in f y)"
  by (simp_all split: prod.split option.split)

lemma merge_config_Some:
  "getConfiguration w = Some d \<Longrightarrow>
     \<exists>w'. merge_config kvs e w = (Done (), w') \<and> getConfiguration w' = Some (mput_all kvs d) \<and> history w' = history w"
proof (induction kvs arbitrary: w d)
  case (Cons kv kvs)
  obtain k v where kv: "kv = (k, v)" by fastforce
  define w1 where "w1 = w\<lparr>configuration := mput configMapName (ConfigMap (Some (mput k v d))) (configuration w)\<rparr>"
  have "write_config k v e w = (Done (), w1)" "getConfiguration w1 = Some (mput k v d)" "history w1 = history w"
    using Cons.prems by (simp_all add: w1_def write_config_def)
  then show ?case using Cons.IH [of w1 "mput k v d"] by (auto simp: kv)
qed simp

section \<open>Sample environments for the witnesses\<close>

definition idle_world :: world where
  "idle_world = \<lparr>history = [], rest_client = None, configuration = [], networkspacesUsed = 1, networkspacesIps = []\<rparr>"

text \<open>Every REST call fails, no volume exists, every Kubernetes call succeeds.\<close>

definition quiet_env :: env where
  "quiet_env = \<lparr>answer = (\<lambda>h rq. NilResponse ''no route to host''),
     pv_lookup = (\<lambda>h n. (None, Some (Err ''not found''))),
     pv_create = (\<lambda>h p. None), pv_delete = (\<lambda>h n. None), pv_list = (\<lambda>h. Inr []),
     class_lookup = (\<lambda>h n. (\<lparr>sc_name = n, sc_provisioner = [], sc_parameters = [], sc_reclaimPolicy = None\<rparr>, None)),
     cached_class = (\<lambda>h n. Inr None), cached_nodes = (\<lambda>h. []), cached_volumes = (\<lambda>h. []),
     list_events = (\<lambda>h ns s. Inr []), start_watch = (\<lambda>h t. None), event_selector = (\<lambda>c. pvc_name c),
     claim_reference = (\<lambda>c. Inr \<lparr>ref_namespace = pvc_namespace c, ref_name = pvc_name c,
        ref_uid = pvc_uid c, ref_resourceVersion = pvc_resourceVersion c\<rparr>),
     getenv = (\<lambda>k. None)\<rparr>"

definition sample_pvc :: pvc where
  "sample_pvc = \<lparr>pvc_namespace = ''default'', pvc_name = ''data'', pvc_uid = ''u-1'', pvc_resourceVersion = ''7'',
     pvc_annotations = None, pvc_volumeName = [], pvc_accessModes = [ReadWriteOnce],
     pvc_storageClassName = Some ''gold'', pvc_storage = 1073741824, pvc_phase = ''Pending'', pvc_other = ''''\<rparr>"

definition sample_options :: volume_options where
  "sample_options = \<lparr>vo_reclaimPolicy = ''Delete'', PVName = ''k8s-u-1'', PVC = sample_pvc, Parameters = []\<rparr>"

section \<open>The first step of a function with a deferred recover\<close>

lemma guard_bind:
  assumes "guard None results msg (bind m k) e w = (Done r, w')"
  obtains (panicked) s where "m e w = (Panic s, w')" "r = results (Some (Err (msg @ s)))"
  | (went_on) x w1 where "m e w = (Done x, w1)" "guard None results msg (k x) e w1 = (Done r, w')"
  using assms by (cases "m e w"; cases "fst (m e w)") (auto simp: guard_def on_panic_def bind_def)

lemma guard_of_returns: "returns m \<Longrightarrow> guard err0 results msg m = m"
  by (intro ext) (metis guard_Done returnsD)

lemma guard_bind_returns:
  assumes "guard None results msg (bind m k) e w = (Done r, w')" "returns m"
  obtains x w1 where "m e w = (Done x, w1)" "guard None results msg (k x) e w1 = (Done r, w')"
  using assms(1) by (cases rule: guard_bind) (auto simp: returns_no_panic [OF assms(2)])

lemma guard_read_config:
  "guard err0 results msg (bind (read_config key) k) e w =
     guard err0 results msg (k (mstr (annotations_of (getConfiguration w)) key)) e w"
  by (simp add: guard_def on_panic_def bind_def)

end
