(* ===== verification/GidAllocator.thy ===== *)
theory GidAllocator
  imports MinMax GoProg
begin

text \<open>
  \<open>lib/gidallocator/allocator.go\<close>: group ids for volumes, from one number allocator per
  storage class. The allocators are reached through the table, so a pointer to one of them is
  modelled by its key.
\<close>

section \<open>Constants and parsing\<close>

definition VolumeGidAnnotationKey :: string where
  "VolumeGidAnnotationKey = ''pv.beta.kubernetes.io/gid''"

definition MaxInt32 :: int where "MaxInt32 = 2147483647"

definition defaultGidMin :: int where "defaultGidMin = 2000"
definition defaultGidMax :: int where "defaultGidMax = MaxInt32"
definition absoluteGidMin :: int where "absoluteGidMin = 2000"
definition absoluteGidMax :: int where "absoluteGidMax = MaxInt32"

lemmas gid_bounds = defaultGidMin_def defaultGidMax_def absoluteGidMin_def absoluteGidMax_def MaxInt32_def

fun alloc_error_text :: "alloc_error \<Rightarrow> string" where
  "alloc_error_text ErrNotFound = ''number not allocated''"
| "alloc_error_text ErrConflict = ''number already allocated''"
| "alloc_error_text ErrInvalidRange = ''invalid range''"
| "alloc_error_text ErrOutOfRange = ''out of range''"
| "alloc_error_text ErrRangeFull = ''range full''"
| "alloc_error_text ErrInternal = ''internal error''"

definition convertGid :: "string \<Rightarrow> int \<times> err" where
  "convertGid gidString =
     (let (gid64, perr) = ParseInt gidString 32 in
      if perr \<noteq> None then (0, Some (Err (''failed to parse gid '' @ gidString @ '' '')))
      else if gid64 < 0 then (0, Some (Err (''negative GIDs are not allowed: '' @ gidString)))
      else (gid64, None))"

definition getGid :: "pv \<Rightarrow> int \<times> bool \<times> err" where
  "getGid volume =
     (case mget (annotations_of (pv_annotations volume)) VolumeGidAnnotationKey of
        None \<Rightarrow> (0, False, None)
      | Some gidStr \<Rightarrow> (let (gid, e) = convertGid gidStr in (gid, True, e)))"

text \<open>The body of one \<open>case\<close> of the parameter loop: the bound read from value v.\<close>

definition gidBound :: "string \<Rightarrow> string \<Rightarrow> string \<Rightarrow> go_error + int" where
  "gidBound what k v =
     (let (g, e) = convertGid v in
      case e of
        Some er \<Rightarrow> Inl (Err (''invalid value '' @ v @ '' for parameter '' @ k @ '': '' @ Error er))
      | None \<Rightarrow>
          if g < absoluteGidMin then Inl (Err (what @ '' must be >= '' @ itoa absoluteGidMin))
          else if g > absoluteGidMax then Inl (Err (what @ '' must be <= '' @ itoa absoluteGidMax))
          else Inr g)"

fun classParametersLoop :: "(string \<times> string) list \<Rightarrow> int \<Rightarrow> int \<Rightarrow> go_error + int \<times> int" where
  "classParametersLoop [] gidMin gidMax = Inr (gidMin, gidMax)"
| "classParametersLoop ((k, v) # params) gidMin gidMax =
     (if ToLower k = ''gidmin'' then
        (case gidBound ''gidMin'' k v of Inl e \<Rightarrow> Inl e | Inr g \<Rightarrow> classParametersLoop params g gidMax)
      else if ToLower k = ''gidmax'' then
        (case gidBound ''gidMax'' k v of Inl e \<Rightarrow> Inl e | Inr g \<Rightarrow> classParametersLoop params gidMin g)
      else classParametersLoop params gidMin gidMax)"

definition parseClassParameters :: "strmap \<Rightarrow> go_error + int \<times> int" where
  "parseClassParameters params =
     (case classParametersLoop params defaultGidMin defaultGidMax of
        Inl e \<Rightarrow> Inl e
      | Inr (gidMin, gidMax) \<Rightarrow>
          if gidMin > gidMax
          then Inl (Err (''gidMax '' @ itoa gidMax @ '' is not >= gidMin '' @ itoa gidMin))
          else Inr (gidMin, gidMax))"

section \<open>The tables\<close>

type_synonym gid_tables = "(string, allocator) gomap"

text \<open>The loop of \<open>collectGids\<close> over the listed volumes.\<close>

fun collectLoop :: "string \<Rightarrow> pv list \<Rightarrow> allocator \<Rightarrow> allocator \<times> alloc_error option" where
  "collectLoop className [] gidTable = (gidTable, None)"
| "collectLoop className (p # pvs) gidTable =
     (if GetPersistentVolumeClass p \<noteq> className then collectLoop className pvs gidTable
      else case mget (annotations_of (pv_annotations p)) VolumeGidAnnotationKey of
        None \<Rightarrow> collectLoop className pvs gidTable
      | Some gidStr \<Rightarrow>
          (case convertGid gidStr of
             (gid, Some e) \<Rightarrow> collectLoop className pvs gidTable
           | (gid, None) \<Rightarrow>
               (case Allocate gid gidTable of ((b, e), gidTable') \<Rightarrow>
                  if e = Some ErrConflict then collectLoop className pvs gidTable'
                  else if e \<noteq> None then (gidTable', e)
                  else collectLoop className pvs gidTable')))"

definition collectGids :: "string \<Rightarrow> allocator \<Rightarrow> (allocator \<times> err) prog" where
  "collectGids className gidTable =
     bind (call ListPVs (\<lambda>e h. pv_list e h)) (\<lambda>r. case r of
       Inl er \<Rightarrow> ret (gidTable, Some er)
     | Inr pvs \<Rightarrow> ret (case collectLoop className pvs gidTable of
                    (t, e) \<Rightarrow> (t, map_option (\<lambda>x. Err (alloc_error_text x)) e)))"

text \<open>\<open>SetRange\<close> on the table a class already has.\<close>

definition reuseTable :: "string \<Rightarrow> allocator \<Rightarrow> int \<Rightarrow> int \<Rightarrow> gid_tables \<Rightarrow> alloc_error option \<times> gid_tables" where
  "reuseTable className gidTable lo hi tabs =
     (case SetRange lo hi gidTable of (e, t) \<Rightarrow> (e, mput className t tabs))"

text \<open>
  \<open>getGidTable\<close> looks the class up under the lock, builds a table without it, and takes the
  lock again to publish it; \<open>others\<close> is what other goroutines do to the tables in between. The
  result is an error, if any; without one the table is the entry of the class.
\<close>

definition getGidTable :: "(gid_tables \<Rightarrow> gid_tables) \<Rightarrow> string \<Rightarrow> int \<Rightarrow> int \<Rightarrow> gid_tables \<Rightarrow> (err \<times> gid_tables) prog" where
  "getGidTable others className lo hi tabs =
     (case mget tabs className of
        Some gidTable \<Rightarrow>
          ret (case reuseTable className gidTable lo hi tabs of
                 (e, tabs') \<Rightarrow> (map_option (\<lambda>x. Err (alloc_error_text x)) e, tabs'))
      | None \<Rightarrow>
          (case NewMinMaxAllocator 0 absoluteGidMax of
             Inl x \<Rightarrow> ret (Some (Err (alloc_error_text x)), tabs)
           | Inr newGidTable \<Rightarrow>
               bind (collectGids className newGidTable) (\<lambda>(t, e).
               let tabs = others tabs in
               case e of
                 Some er \<Rightarrow> ret (Some er, tabs)
               | None \<Rightarrow>
                   (case SetRange lo hi t of
                      (Some x, _) \<Rightarrow> ret (Some (Err (alloc_error_text x)), tabs)
                    | (None, t) \<Rightarrow>
                        (case mget tabs className of
                           Some gidTable \<Rightarrow>
                             ret (case reuseTable className gidTable lo hi tabs of
                                    (e, tabs') \<Rightarrow> (map_option (\<lambda>x. Err (alloc_error_text x)) e, tabs'))
                         | None \<Rightarrow> ret (None, mput className t tabs))))))"

text \<open>The allocator's \<open>AllocateNext\<close>; \<open>None\<close> when the scan of the table does not end.\<close>

definition gidAllocateNext :: "(gid_tables \<Rightarrow> gid_tables) \<Rightarrow> volume_options \<Rightarrow> gid_tables \<Rightarrow> ((int \<times> err) \<times> gid_tables) option prog" where
  "gidAllocateNext others options tabs =
     (let class = GetPersistentVolumeClaimClass (PVC options) in
      case parseClassParameters (Parameters options) of
        Inl e \<Rightarrow> ret (Some ((0, Some e), tabs))
      | Inr (gidMin, gidMax) \<Rightarrow>
          bind (getGidTable others class gidMin gidMax tabs) (\<lambda>(e, tabs).
          case e of
            Some er \<Rightarrow> ret (Some ((0, Some (Err (''failed to get gidTable: '' @ Error er))), tabs))
          | None \<Rightarrow>
              (case mget tabs class of
                 None \<Rightarrow> panic nil_dereference
               | Some gidTable \<Rightarrow>
                   (case AllocateNext gidTable of
                      None \<Rightarrow> ret None
                    | Some ((gid, _, ae), t) \<Rightarrow>
                        ret (Some (case ae of
                            Some x \<Rightarrow> ((0, Some (Err (''failed to reserve gid from table: '' @ alloc_error_text x))), mput class t tabs)
                          | None \<Rightarrow> ((gid, None), mput class t tabs)))))))"

text \<open>\<open>Release\<close>: the error of the class lookup is not looked at.\<close>

definition gidRelease :: "(gid_tables \<Rightarrow> gid_tables) \<Rightarrow> pv \<Rightarrow> gid_tables \<Rightarrow> (err \<times> gid_tables) prog" where
  "gidRelease others volume tabs =
     bind (call (GetClass (GetPersistentVolumeClass volume)) (\<lambda>e h. class_lookup e h (GetPersistentVolumeClass volume))) (\<lambda>(class, _).
     case parseClassParameters (sc_parameters class) of
       Inl e \<Rightarrow> ret (Some e, tabs)
     | Inr (gidMin, gidMax) \<Rightarrow>
         (case getGid volume of
            (gid, exists, Some _) \<Rightarrow> ret (None, tabs)
          | (gid, exists, None) \<Rightarrow>
              if \<not> exists then ret (None, tabs)
              else bind (getGidTable others (sc_name class) gidMin gidMax tabs) (\<lambda>(e, tabs).
                case e of
                  Some er \<Rightarrow> ret (Some (Err (''failed to get gidTable: '' @ Error er)), tabs)
                | None \<Rightarrow>
                    (case mget tabs (sc_name class) of
                       None \<Rightarrow> panic nil_dereference
                     | Some gidTable \<Rightarrow>
                         (case MinMax.Release gid gidTable of
                            (Some x, t) \<Rightarrow> ret (Some (Err (''failed to release gid '' @ itoa gid @ '': '' @ alloc_error_text x)), mput (sc_name class) t tabs)
                          | (None, t) \<Rightarrow> ret (None, mput (sc_name class) t tabs))))))"

section \<open>Parsed numbers are group ids\<close>

lemma convertGid_range: "convertGid s = (g, None) \<Longrightarrow> 0 \<le> g \<and> g \<le> MaxInt32"
  using ParseInt_fits [of 32 s]
  by (auto simp: convertGid_def MaxInt32_def fits_def split: prod.splits if_splits)

lemma convertGid_itoa: "0 \<le> g \<Longrightarrow> g \<le> MaxInt32 \<Longrightarrow> convertGid (itoa g) = (g, None)"
  using ParseInt_itoa [of 32 g] by (simp add: convertGid_def fits_def MaxInt32_def)

lemma gidBound_range: "gidBound what k v = Inr g \<Longrightarrow> absoluteGidMin \<le> g \<and> g \<le> absoluteGidMax"
  by (auto simp: gidBound_def split: prod.splits option.splits if_splits)

lemma classParametersLoop_range:
  assumes "classParametersLoop params lo hi = Inr (lo', hi')"
    and "absoluteGidMin \<le> lo" "lo \<le> absoluteGidMax" "absoluteGidMin \<le> hi" "hi \<le> absoluteGidMax"
  shows "absoluteGidMin \<le> lo' \<and> lo' \<le> absoluteGidMax \<and> absoluteGidMin \<le> hi' \<and> hi' \<le> absoluteGidMax"
  using assms
proof (induction params lo hi rule: classParametersLoop.induct)
  case (2 k v params lo hi)
  then show ?case using gidBound_range by (auto split: if_splits sum.splits)
qed simp

lemma parseClassParameters_range:
  assumes "parseClassParameters params = Inr (lo, hi)"
  shows "2000 \<le> lo \<and> lo \<le> hi \<and> hi \<le> MaxInt32"
  using assms classParametersLoop_range [of params defaultGidMin defaultGidMax lo hi]
  by (auto simp: parseClassParameters_def gid_bounds split: sum.splits if_splits)

lemma gid_range_valid:
  assumes "parseClassParameters params = Inr (lo, hi)"
  shows "is_int64 lo" "is_int64 hi" "is_int64 (1 + hi - lo)" "lo \<le> hi"
  using parseClassParameters_range [OF assms] by (auto simp: fits_def MaxInt32_def)


section \<open>The parameter loop does not depend on the iteration order\<close>

definition lower_keys :: "strmap \<Rightarrow> string list" where
  "lower_keys params = map (\<lambda>(k, v). ToLower k) params"

lemma classParametersLoop_iff:
  assumes "distinct (lower_keys params)"
  shows "classParametersLoop params lo hi = Inr (l, h) \<longleftrightarrow>
    (\<forall>(k, v) \<in> set params. (ToLower k = ''gidmin'' \<longrightarrow> gidBound ''gidMin'' k v = Inr l) \<and>
       (ToLower k = ''gidmax'' \<longrightarrow> gidBound ''gidMax'' k v = Inr h)) \<and>
    (''gidmin'' \<notin> set (lower_keys params) \<longrightarrow> l = lo) \<and>
    (''gidmax'' \<notin> set (lower_keys params) \<longrightarrow> h = hi)"
  using assms
proof (induction params lo hi rule: classParametersLoop.induct)
  case (1 lo hi)
  then show ?case by (auto simp: lower_keys_def)
next
  case (2 k v params lo hi)
  have d: "distinct (lower_keys params)" and nk: "ToLower k \<notin> set (lower_keys params)"
    using "2.prems" by (auto simp: lower_keys_def)
  have absent: "ToLower k' \<noteq> ToLower k" if "(k', v') \<in> set params" for k' v'
    using nk that by (force simp: lower_keys_def)
  consider (min) "ToLower k = ''gidmin''" | (max) "ToLower k = ''gidmax''"
    | (other) "ToLower k \<noteq> ''gidmin''" "ToLower k \<noteq> ''gidmax''" by blast
  then show ?case
  proof cases
    case min
    with "2.IH"(1) d nk absent show ?thesis
      by (cases "gidBound ''gidMin'' k v") (auto simp: lower_keys_def split_beta)
  next
    case max
    with "2.IH"(2) d nk absent show ?thesis
      by (cases "gidBound ''gidMax'' k v") (auto simp: lower_keys_def split_beta)
  next
    case other
    with "2.IH"(3) d show ?thesis by (auto simp: lower_keys_def split_beta)
  qed
qed

lemma classParametersLoop_order:
  assumes "distinct (lower_keys params)" "distinct (lower_keys params')" "set params = set params'"
  shows "classParametersLoop params lo hi = Inr r \<longleftrightarrow> classParametersLoop params' lo hi = Inr r"
proof -
  have "set (lower_keys params) = set (lower_keys params')"
    using assms(3) by (simp add: lower_keys_def)
  then show ?thesis
    using assms by (cases r) (simp add: classParametersLoop_iff)
qed

section \<open>Tables\<close>

definition tables_ok :: "gid_tables \<Rightarrow> bool" where
  "tables_ok tabs \<longleftrightarrow> (\<forall>c t. mget tabs c = Some t \<longrightarrow> alloc_ok t)"

text \<open>No table disappears and no number is given back.\<close>

definition tables_grow :: "gid_tables \<Rightarrow> gid_tables \<Rightarrow> bool" where
  "tables_grow tabs tabs' \<longleftrightarrow>
     (\<forall>c t. mget tabs c = Some t \<longrightarrow> (\<exists>t'. mget tabs' c = Some t' \<and> taken t \<subseteq> taken t'))"

definition only_allocates :: "(gid_tables \<Rightarrow> gid_tables) \<Rightarrow> bool" where
  "only_allocates others \<longleftrightarrow> (\<forall>tabs. tables_ok tabs \<longrightarrow> tables_ok (others tabs) \<and> tables_grow tabs (others tabs))"

lemma tables_grow_refl [simp]: "tables_grow tabs tabs"
  by (auto simp: tables_grow_def)

lemma tables_grow_trans: "tables_grow a b \<Longrightarrow> tables_grow b c \<Longrightarrow> tables_grow a c"
  unfolding tables_grow_def by (meson order_trans)

lemma tables_grow_put:
  "(\<And>t0. mget tabs c = Some t0 \<Longrightarrow> taken t0 \<subseteq> taken t) \<Longrightarrow> tables_grow tabs (mput c t tabs)"
  by (auto simp: tables_grow_def)

lemma tables_ok_put [simp]: "tables_ok tabs \<Longrightarrow> alloc_ok t \<Longrightarrow> tables_ok (mput c t tabs)"
  by (auto simp: tables_ok_def)

lemma tables_okD: "tables_ok tabs \<Longrightarrow> mget tabs c = Some t \<Longrightarrow> alloc_ok t"
  by (auto simp: tables_ok_def)

lemma only_allocates_id [simp]: "only_allocates (\<lambda>t. t)"
  by (simp add: only_allocates_def)

text \<open>The group ids that the volumes of a class carry.\<close>

definition class_gids :: "string \<Rightarrow> pv list \<Rightarrow> int set" where
  "class_gids className pvs =
     {g. \<exists>p \<in> set pvs. GetPersistentVolumeClass p = className \<and>
        (\<exists>s. mget (annotations_of (pv_annotations p)) VolumeGidAnnotationKey = Some s \<and> convertGid s = (g, None))}"

text \<open>Collecting over the full range never fails, and takes exactly the ids in use.\<close>

lemma collectLoop_ok:
  assumes "alloc_ok t" "{0..MaxInt32} \<subseteq> span t" "collectLoop className pvs t = (t', e)"
  shows "e = None \<and> alloc_ok t' \<and> span t' = span t \<and> taken t' = taken t \<union> class_gids className pvs"
  using assms
proof (induction className pvs t rule: collectLoop.induct)
  case (1 className t)
  then show ?case by (simp add: class_gids_def)
next
  case (2 className p pvs t)
  show ?case
  proof (cases "\<exists>s g. GetPersistentVolumeClass p = className \<and>
      mget (annotations_of (pv_annotations p)) VolumeGidAnnotationKey = Some s \<and> convertGid s = (g, None)")
    case False
    then have "class_gids className (p # pvs) = class_gids className pvs"
      by (auto simp: class_gids_def)
    with False 2 show ?thesis
      by (auto split: if_splits option.splits prod.splits)
  next
    case True
    then obtain s g where g: "GetPersistentVolumeClass p = className"
      "mget (annotations_of (pv_annotations p)) VolumeGidAnnotationKey = Some s" "convertGid s = (g, None)"
      by blast
    obtain b e1 t1 where A: "Allocate g t = ((b, e1), t1)" by (metis surj_pair)
    have win: "g \<in> span t" using convertGid_range [OF g(3)] "2.prems"(2) by auto
    note T = mm.take_cases [OF "2.prems"(1) A]
    have rest: "collectLoop className pvs t1 = (t', e)"
      using "2.prems"(3) g A T win by (auto split: if_splits)
    have gids: "class_gids className (p # pvs) = insert g (class_gids className pvs)"
      using g by (auto simp: class_gids_def)
    have ok1: "alloc_ok t1" "span t1 = span t" "taken t1 = insert g (taken t)"
      using T win by (auto split: if_splits)
    have "e = None \<and> alloc_ok t' \<and> span t' = span t1 \<and> taken t' = taken t1 \<union> class_gids className pvs"
    proof (cases "e1 = Some ErrConflict")
      case True
      then show ?thesis using "2.IH"(3) g A rest ok1 "2.prems"(2) by auto
    next
      case False
      then have "e1 = None" using T win by auto
      then show ?thesis using "2.IH"(4) g A rest ok1 "2.prems"(2) by auto
    qed
    then show ?thesis using ok1 gids by auto
  qed
qed


lemma NewMinMaxAllocator_gids:
  "NewMinMaxAllocator 0 absoluteGidMax = Inr t0 \<Longrightarrow> alloc_ok t0 \<and> span t0 = {0..MaxInt32} \<and> taken t0 = {}"
  using NewMinMaxAllocator_ok [of 0 absoluteGidMax]
  by (auto simp: valid_range_def fits_def gid_bounds span_def)

lemma NewMinMaxAllocator_gids_returns: "\<exists>t0. NewMinMaxAllocator 0 absoluteGidMax = Inr t0"
  by (simp add: NewMinMaxAllocator_def gid_bounds)

lemma reuseTable_ok:
  assumes "tables_ok tabs" "mget tabs c = Some t" "is_int64 lo" "is_int64 hi" "is_int64 (1 + hi - lo)" "lo \<le> hi"
  shows "\<exists>t'. reuseTable c t lo hi tabs = (None, mput c t' tabs) \<and> alloc_ok t' \<and> span t' = {lo..hi} \<and> taken t' = taken t"
proof -
  obtain e t' where S: "SetRange lo hi t = (e, t')" by fastforce
  show ?thesis using mm.resize_law [OF tables_okD [OF assms(1,2)] assms(3-5) S] S assms(6)
    by (auto simp: reuseTable_def)
qed

text \<open>
  What \<open>getGidTable\<close> leaves behind: the class has one table over the wanted range; it is the
  table that was there (before, or meanwhile), or a new one that knows the ids in use.
\<close>

definition table_ready :: "env \<Rightarrow> world \<Rightarrow> string \<Rightarrow> int \<Rightarrow> int \<Rightarrow> gid_tables \<Rightarrow> gid_tables \<Rightarrow> gid_tables \<Rightarrow> bool" where
  "table_ready e w c lo hi tabs mid tabs' \<longleftrightarrow>
     tables_ok tabs' \<and> tables_grow tabs tabs' \<and>
     (\<exists>t'. mget tabs' c = Some t' \<and> span t' = {lo..hi} \<and>
        (case mget tabs c of Some t \<Rightarrow> taken t' = taken t
         | None \<Rightarrow> (case mget mid c of Some t \<Rightarrow> taken t' = taken t
                  | None \<Rightarrow> \<exists>pvs. pv_list e (history w) = Inr pvs \<and> taken t' = class_gids c pvs)))"

lemma getGidTable_ready:
  assumes ok: "tables_ok tabs" "only_allocates others"
    and r: "is_int64 lo" "is_int64 hi" "is_int64 (1 + hi - lo)" "lo \<le> hi"
    and run: "getGidTable others c lo hi tabs e w = (r, w')"
  shows "\<exists>er tabs'. r = Done (er, tabs') \<and> tables_ok tabs' \<and> tables_grow tabs tabs' \<and>
     (er = None \<longrightarrow> table_ready e w c lo hi tabs (others tabs) tabs')"
proof (cases "mget tabs c")
  case (Some t)
  obtain t' where t': "reuseTable c t lo hi tabs = (None, mput c t' tabs)" "alloc_ok t'"
      "span t' = {lo..hi}" "taken t' = taken t"
    using reuseTable_ok [OF ok(1) Some r] by blast
  then have "tables_grow tabs (mput c t' tabs)" using Some by (intro tables_grow_put) auto
  with run Some t' ok(1) show ?thesis by (auto simp: getGidTable_def table_ready_def)
next
  case None
  have mid: "tables_ok (others tabs)" "tables_grow tabs (others tabs)"
    using ok by (auto simp: only_allocates_def)
  obtain t0 where t0: "NewMinMaxAllocator 0 absoluteGidMax = Inr t0"
    using NewMinMaxAllocator_gids_returns by blast
  note t0' = NewMinMaxAllocator_gids [OF t0]
  show ?thesis
  proof (cases "pv_list e (history w)")
    case (Inl er)
    with run None t0 mid show ?thesis by (auto simp: getGidTable_def collectGids_def bind_def Let_def)
  next
    case (Inr pvs)
    obtain t1 e1 where C: "collectLoop c pvs t0 = (t1, e1)" by fastforce
    have t1: "e1 = None" "alloc_ok t1" "span t1 = {0..MaxInt32}" "taken t1 = class_gids c pvs"
      using collectLoop_ok [OF _ _ C] t0' by auto
    obtain e2 t2 where S: "SetRange lo hi t1 = (e2, t2)" by fastforce
    have t2: "e2 = None" "alloc_ok t2" "span t2 = {lo..hi}" "taken t2 = taken t1"
      using mm.resize_law [OF t1(2) r(1-3) S] r(4) by auto
    show ?thesis
    proof (cases "mget (others tabs) c")
      case None': None
      have "tables_grow tabs (mput c t2 (others tabs))"
        by (rule tables_grow_trans [OF mid(2)], rule tables_grow_put) (use None' in auto)
      with run None None' Inr t0 C S t1 t2 mid show ?thesis
        by (auto simp: getGidTable_def collectGids_def bind_def Let_def table_ready_def)
    next
      case (Some t)
      obtain t' where t': "reuseTable c t lo hi (others tabs) = (None, mput c t' (others tabs))" "alloc_ok t'"
          "span t' = {lo..hi}" "taken t' = taken t"
        using reuseTable_ok [OF mid(1) Some r] by blast
      have "tables_grow tabs (mput c t' (others tabs))"
        by (rule tables_grow_trans [OF mid(2)], rule tables_grow_put) (use Some t' in auto)
      with run None Some Inr t0 C S t1 t2 t' mid show ?thesis
        by (auto simp: getGidTable_def collectGids_def bind_def Let_def table_ready_def)
    qed
  qed
qed

lemma gidAllocateNext_step:
  assumes ok: "tables_ok tabs" "only_allocates others"
    and run: "gidAllocateNext others options tabs e w = (r, w')"
  shows "\<exists>g er tabs'. r = Done (Some ((g, er), tabs')) \<and> tables_ok tabs' \<and> tables_grow tabs tabs' \<and>
     (er = None \<longrightarrow>
       (\<exists>lo hi t1 t2 tabs1.
          parseClassParameters (Parameters options) = Inr (lo, hi) \<and>
          table_ready e w (GetPersistentVolumeClaimClass (PVC options)) lo hi tabs (others tabs) tabs1 \<and>
          mget tabs1 (GetPersistentVolumeClaimClass (PVC options)) = Some t1 \<and>
          mget tabs' (GetPersistentVolumeClaimClass (PVC options)) = Some t2 \<and>
          taken t2 = insert g (taken t1) \<and> g \<in> {lo..hi} \<and> g \<notin> taken t1))"
proof (cases "parseClassParameters (Parameters options)")
  case (Inl er)
  with run ok show ?thesis by (auto simp: gidAllocateNext_def Let_def)
next
  case (Inr lh)
  obtain lo hi where lh: "parseClassParameters (Parameters options) = Inr (lo, hi)"
    using Inr by (metis surj_pair)
  let ?c = "GetPersistentVolumeClaimClass (PVC options)"
  obtain r1 w1 where G: "getGidTable others ?c lo hi tabs e w = (r1, w1)" by fastforce
  obtain er tabs1 where R: "r1 = Done (er, tabs1)" "tables_ok tabs1" "tables_grow tabs tabs1"
      "er = None \<Longrightarrow> table_ready e w ?c lo hi tabs (others tabs) tabs1"
    using getGidTable_ready [OF ok gid_range_valid [OF lh] G] by blast
  show ?thesis
  proof (cases er)
    case (Some x)
    with run lh G R show ?thesis by (auto simp: gidAllocateNext_def Let_def bind_def)
  next
    case None
    with R(4) obtain t1 where t1: "mget tabs1 ?c = Some t1" "span t1 = {lo..hi}"
      unfolding table_ready_def by blast
    have a1: "alloc_ok t1" using R(2) t1(1) by (rule tables_okD)
    obtain g b ae t2 where N: "AllocateNext t1 = Some ((g, b, ae), t2)"
      using AllocateNext_returns [OF a1] by (metis not_None_eq surj_pair)
    note L = mm.next_cases [OF a1 N]
    have "tables_grow tabs (mput ?c t2 tabs1)"
      by (rule tables_grow_trans [OF R(3)], rule tables_grow_put) (use t1 L in auto)
    moreover have "tables_ok (mput ?c t2 tabs1)" using R(2) L a1 by auto
    ultimately show ?thesis
      using run lh G R None t1 N L by (cases ae) (auto simp: gidAllocateNext_def Let_def bind_def, blast)
  qed
qed

lemma gidRelease_step:
  assumes ok: "tables_ok tabs" "only_allocates others"
    and run: "gidRelease others volume tabs e w = (r, w')"
  shows "\<exists>er tabs'. r = Done (er, tabs') \<and> tables_ok tabs' \<and>
     (\<forall>c t. mget tabs c = Some t \<longrightarrow> (\<exists>t'. mget tabs' c = Some t' \<and>
        (if c = sc_name (fst (class_lookup e (history w) (GetPersistentVolumeClass volume)))
         then taken t - {fst (getGid volume)} else taken t) \<subseteq> taken t'))"
proof -
  obtain cls ce where C: "class_lookup e (history w) (GetPersistentVolumeClass volume) = (cls, ce)"
    by fastforce
  obtain gid exists ge where V: "getGid volume = (gid, exists, ge)" by (metis surj_pair)
  let ?w = "w\<lparr>history := history w @ [GetClass (GetPersistentVolumeClass volume)]\<rparr>"
  show ?thesis
  proof (cases "\<exists>lo hi. parseClassParameters (sc_parameters cls) = Inr (lo, hi) \<and> ge = None \<and> exists")
    case False
    with run C V ok show ?thesis
      by (cases ge; cases "parseClassParameters (sc_parameters cls)")
        (auto simp: gidRelease_def bind_def split: if_splits prod.splits)
  next
    case True
    then obtain lo hi where lh: "parseClassParameters (sc_parameters cls) = Inr (lo, hi)" "ge = None" "exists"
      by blast
    obtain r1 w1 where G: "getGidTable others (sc_name cls) lo hi tabs e ?w = (r1, w1)" by fastforce
    obtain er tabs1 where R: "r1 = Done (er, tabs1)" "tables_ok tabs1" "tables_grow tabs tabs1"
        "er = None \<Longrightarrow> table_ready e ?w (sc_name cls) lo hi tabs (others tabs) tabs1"
      using getGidTable_ready [OF ok gid_range_valid [OF lh(1)] G] by blast
    show ?thesis
    proof (cases er)
      case (Some x)
      with run C V lh G R show ?thesis
        by (auto simp: gidRelease_def bind_def tables_grow_def) (meson Diff_subset order_trans)
    next
      case None
      with R(4) obtain t1 where t1: "mget tabs1 (sc_name cls) = Some t1"
        unfolding table_ready_def by blast
      have a1: "alloc_ok t1" using R(2) t1 by (rule tables_okD)
      obtain e2 t2 where D: "MinMax.Release gid t1 = (e2, t2)" by fastforce
      have L: "e2 = None" "alloc_ok t2" "taken t2 = taken t1 - {gid}"
        using mm.give_law [OF a1 D] by auto
      have run': "r = Done (None, mput (sc_name cls) t2 tabs1)"
        using run C V lh G R None t1 D L by (simp add: gidRelease_def bind_def)
      have "tables_ok (mput (sc_name cls) t2 tabs1)" using R(2) L by simp
      moreover have "\<exists>t'. mget (mput (sc_name cls) t2 tabs1) c = Some t' \<and>
          (if c = sc_name cls then taken t - {gid} else taken t) \<subseteq> taken t'"
        if "mget tabs c = Some t" for c t
        using that R(3) L t1 unfolding tables_grow_def by (cases "c = sc_name cls") fastforce+
      ultimately show ?thesis unfolding C V fst_conv using run' by blast
    qed
  qed
qed


section \<open>Properties\<close>

text \<open>
  C24. A group id that \<open>AllocateNext\<close> returns without error lies in the range the storage class
  asks for, inside \<open>[2000, MaxInt32]\<close>; it is not held by the table of the class, and when the
  class had no table yet (and none appeared meanwhile) no listed volume of the class carries it.
  The call never panics, its scan always ends, and no table loses a number.
\<close>

theorem gid_fresh:
  assumes "tables_ok tabs" "only_allocates others"
    and "gidAllocateNext others options tabs e w = (r, w')"
  shows "\<exists>g er tabs'. r = Done (Some ((g, er), tabs')) \<and> tables_ok tabs' \<and> tables_grow tabs tabs' \<and>
    (er = None \<longrightarrow>
      (\<exists>lo hi. parseClassParameters (Parameters options) = Inr (lo, hi) \<and> 2000 \<le> lo \<and> lo \<le> g \<and> g \<le> hi \<and> hi \<le> MaxInt32) \<and>
      (\<forall>t. mget tabs (GetPersistentVolumeClaimClass (PVC options)) = Some t \<longrightarrow> g \<notin> taken t) \<and>
      (mget tabs (GetPersistentVolumeClaimClass (PVC options)) = None \<and>
       mget (others tabs) (GetPersistentVolumeClaimClass (PVC options)) = None \<longrightarrow>
         (\<exists>pvs. pv_list e (history w) = Inr pvs \<and>
            g \<notin> class_gids (GetPersistentVolumeClaimClass (PVC options)) pvs)))"
proof -
  let ?c = "GetPersistentVolumeClaimClass (PVC options)"
  obtain g er tabs' where S: "r = Done (Some ((g, er), tabs'))" "tables_ok tabs'" "tables_grow tabs tabs'"
    and N: "er = None \<longrightarrow> (\<exists>lo hi t1 t2 tabs1. parseClassParameters (Parameters options) = Inr (lo, hi) \<and>
       table_ready e w ?c lo hi tabs (others tabs) tabs1 \<and> mget tabs1 ?c = Some t1 \<and>
       mget tabs' ?c = Some t2 \<and> taken t2 = insert g (taken t1) \<and> g \<in> {lo..hi} \<and> g \<notin> taken t1)"
    using gidAllocateNext_step [OF assms] by blast
  show ?thesis
  proof (cases er)
    case None
    with N obtain lo hi t1 tabs1 where F: "parseClassParameters (Parameters options) = Inr (lo, hi)"
       "table_ready e w ?c lo hi tabs (others tabs) tabs1" "mget tabs1 ?c = Some t1" "g \<in> {lo..hi}" "g \<notin> taken t1"
      by blast
    have "\<forall>t. mget tabs ?c = Some t \<longrightarrow> g \<notin> taken t"
      using F(2,3,5) by (auto simp: table_ready_def)
    moreover have "\<exists>pvs. pv_list e (history w) = Inr pvs \<and> g \<notin> class_gids ?c pvs"
      if "mget tabs ?c = None" "mget (others tabs) ?c = None"
      using F(2,3,5) that by (auto simp: table_ready_def)
    ultimately show ?thesis using S None F(1,4) parseClassParameters_range [OF F(1)] by auto
  qed (use S in auto)
qed

theorem gid_fresh_witness:
  "\<exists>g er tabs'. fst (gidAllocateNext (\<lambda>t. t) sample_options [] quiet_env idle_world) = Done (Some ((g, er), tabs'))"
  using gid_fresh [of "[]" "\<lambda>t. t" sample_options quiet_env idle_world
      "fst (gidAllocateNext (\<lambda>t. t) sample_options [] quiet_env idle_world)"
      "snd (gidAllocateNext (\<lambda>t. t) sample_options [] quiet_env idle_world)"]
  by (auto simp: tables_ok_def)

text \<open>
  A run of allocations and releases, with the list of the ids handed out and not yet released
  (class and number). A release drops the id of the volume from the class the API returns.
\<close>

datatype gid_op =
  GAlloc "gid_tables \<Rightarrow> gid_tables" volume_options
| GRelease "gid_tables \<Rightarrow> gid_tables" pv

fun gid_run :: "gid_op list \<Rightarrow> gid_tables \<Rightarrow> (string \<times> int) list \<Rightarrow> (gid_tables \<times> (string \<times> int) list) option prog" where
  "gid_run [] tabs out = ret (Some (tabs, out))"
| "gid_run (GAlloc others opt # ops) tabs out =
     bind (gidAllocateNext others opt tabs) (\<lambda>r. case r of
       None \<Rightarrow> ret None
     | Some ((g, None), tabs') \<Rightarrow> gid_run ops tabs' ((GetPersistentVolumeClaimClass (PVC opt), g) # out)
     | Some ((g, Some _), tabs') \<Rightarrow> gid_run ops tabs' out)"
| "gid_run (GRelease others v # ops) tabs out =
     bind (look history) (\<lambda>h.
     bind (ask (\<lambda>e. sc_name (fst (class_lookup e h (GetPersistentVolumeClass v))))) (\<lambda>c.
     bind (gidRelease others v tabs) (\<lambda>(er, tabs').
       gid_run ops tabs' (removeAll (c, fst (getGid v)) out))))"

fun op_others :: "gid_op \<Rightarrow> gid_tables \<Rightarrow> gid_tables" where
  "op_others (GAlloc others opt) = others"
| "op_others (GRelease others v) = others"

definition all_held :: "gid_tables \<Rightarrow> (string \<times> int) list \<Rightarrow> bool" where
  "all_held tabs out \<longleftrightarrow> (\<forall>(c, g) \<in> set out. \<exists>t. mget tabs c = Some t \<and> g \<in> taken t)"

lemma all_held_grow: "all_held tabs out \<Longrightarrow> tables_grow tabs tabs' \<Longrightarrow> all_held tabs' out"
  unfolding all_held_def tables_grow_def by fast

lemma gid_alloc_held:
  assumes "tables_ok tabs" "only_allocates others" "all_held tabs out" "distinct out"
    and "gidAllocateNext others options tabs e w = (Done (Some ((g, None), tabs')), w')"
  shows "all_held tabs' ((GetPersistentVolumeClaimClass (PVC options), g) # out) \<and>
    distinct ((GetPersistentVolumeClaimClass (PVC options), g) # out) \<and> tables_ok tabs'"
proof -
  let ?c = "GetPersistentVolumeClaimClass (PVC options)"
  from gidAllocateNext_step [OF assms(1,2,5)] obtain t1 t2 tabs1 lo hi where S: "tables_ok tabs'" "tables_grow tabs tabs'"
     "table_ready e w ?c lo hi tabs (others tabs) tabs1"
     "mget tabs1 ?c = Some t1" "mget tabs' ?c = Some t2" "taken t2 = insert g (taken t1)" "g \<notin> taken t1"
    by auto
  have "(?c, g) \<notin> set out"
    using assms(3) S(3,4,7) by (auto simp: all_held_def table_ready_def)
  then show ?thesis using S assms(4) all_held_grow [OF assms(3) S(2)] by (auto simp: all_held_def)
qed

lemma gid_release_held:
  assumes "tables_ok tabs" "only_allocates others" "all_held tabs out"
    and "gidRelease others v tabs e w = (Done (er, tabs'), w')"
  shows "all_held tabs' (removeAll (sc_name (fst (class_lookup e (history w) (GetPersistentVolumeClass v))), fst (getGid v)) out)
    \<and> tables_ok tabs'"
proof -
  let ?c = "sc_name (fst (class_lookup e (history w) (GetPersistentVolumeClass v)))"
  have S: "tables_ok tabs'" "\<And>c t. mget tabs c = Some t \<Longrightarrow> (\<exists>t'. mget tabs' c = Some t' \<and>
        (if c = ?c then taken t - {fst (getGid v)} else taken t) \<subseteq> taken t')"
    using gidRelease_step [OF assms(1,2,4)] by auto
  have "\<exists>t. mget tabs' c = Some t \<and> g \<in> taken t" if "(c, g) \<in> set out" "(c, g) \<noteq> (?c, fst (getGid v))" for c g
  proof -
    obtain t where "mget tabs c = Some t" "g \<in> taken t" using assms(3) \<open>(c, g) \<in> set out\<close> by (auto simp: all_held_def)
    then show ?thesis using S(2) [of c t] that(2) by (auto split: if_splits)
  qed
  then show ?thesis using S(1) by (auto simp: all_held_def)
qed

text \<open>
  C3. Uniqueness: however allocations and releases follow each other, and whatever other
  goroutines allocate while a table is being built, the group ids that are handed out and not
  released are pairwise distinct within a storage class, and the run ends normally.
\<close>

theorem gids_unique:
  assumes "tables_ok tabs" "\<forall>x \<in> set ops. only_allocates (op_others x)"
    and "distinct out" "all_held tabs out"
  shows "\<exists>tabs' out' w'. gid_run ops tabs out e w = (Done (Some (tabs', out')), w') \<and> distinct out' \<and>
    all_held tabs' out' \<and> tables_ok tabs'"
  using assms
proof (induction ops arbitrary: tabs out w)
  case (Cons x ops)
  have rest: "\<forall>x \<in> set ops. only_allocates (op_others x)" using Cons.prems(2) by simp
  show ?case
  proof (cases x)
    case (GAlloc others opt)
    then have oa: "only_allocates others" using Cons.prems(2) by auto
    obtain r w1 where A: "gidAllocateNext others opt tabs e w = (r, w1)" by fastforce
    from gidAllocateNext_step [OF Cons.prems(1) oa A] obtain g er tabs1
      where R: "r = Done (Some ((g, er), tabs1))" "tables_ok tabs1" "tables_grow tabs tabs1" by blast
    show ?thesis
    proof (cases er)
      case None
      with gid_alloc_held [OF Cons.prems(1) oa Cons.prems(4,3), of opt e w g tabs1 w1] A R
        Cons.IH [OF _ rest, of tabs1 "(GetPersistentVolumeClaimClass (PVC opt), g) # out" w1]
      show ?thesis by (auto simp: GAlloc)
    next
      case (Some y)
      with A R Cons.IH [OF R(2) rest Cons.prems(3) all_held_grow [OF Cons.prems(4) R(3)], of w1]
      show ?thesis by (auto simp: GAlloc)
    qed
  next
    case (GRelease others v)
    then have oa: "only_allocates others" using Cons.prems(2) by auto
    obtain r w1 where A: "gidRelease others v tabs e w = (r, w1)" by fastforce
    from gidRelease_step [OF Cons.prems(1) oa A] obtain er tabs1 where R: "r = Done (er, tabs1)" by blast
    note H = gid_release_held [OF Cons.prems(1) oa Cons.prems(4) A [unfolded R]]
    have d: "distinct (removeAll p out)" for p using Cons.prems(3) by (simp add: distinct_removeAll)
    have "bind (look history) (\<lambda>h. bind (ask (\<lambda>e. sc_name (fst (class_lookup e h (GetPersistentVolumeClass v))))) f) e w =
        f (sc_name (fst (class_lookup e (history w) (GetPersistentVolumeClass v)))) e w" for f
      by (simp add: bind_def)
    with A R H d Cons.IH [OF _ rest, of tabs1] show ?thesis by (simp add: GRelease)
  qed
qed simp

theorem gids_unique_witness:
  "\<exists>tabs' out' w'. gid_run [GAlloc (\<lambda>t. t) sample_options, GAlloc (\<lambda>t. t) sample_options] [] [] quiet_env idle_world =
      (Done (Some (tabs', out')), w') \<and> distinct out'"
  using gids_unique [of "[]" "[GAlloc (\<lambda>t. t) sample_options, GAlloc (\<lambda>t. t) sample_options]" "[]" quiet_env idle_world]
  by (fastforce simp: tables_ok_def all_held_def)

text \<open>
  C34. The range read from the parameters of a storage class does not depend on the order in
  which Go iterates over them, as long as no two keys differ only in their case.
\<close>

theorem parseClassParameters_order:
  assumes "distinct (lower_keys params)" "distinct (lower_keys params')" "set params = set params'"
  shows "parseClassParameters params = Inr r \<longleftrightarrow> parseClassParameters params' = Inr r"
proof -
  have "parseClassParameters ps = Inr r \<longleftrightarrow>
      classParametersLoop ps defaultGidMin defaultGidMax = Inr r \<and> fst r \<le> snd r" for ps
    by (cases r) (auto simp: parseClassParameters_def split: sum.splits)
  then show ?thesis using classParametersLoop_order [OF assms] by simp
qed

theorem parseClassParameters_order_witness:
  "parseClassParameters [(''gidMin'', ''3000''), (''fsType'', ''xfs''), (''GidMax'', ''4000'')] = Inr (3000, 4000) \<and>
   parseClassParameters [(''GidMax'', ''4000''), (''gidMin'', ''3000''), (''fsType'', ''xfs'')] = Inr (3000, 4000)"
proof -
  let ?a = "[(''gidMin'', ''3000''), (''fsType'', ''xfs''), (''GidMax'', ''4000'')]"
  let ?b = "[(''GidMax'', ''4000''), (''gidMin'', ''3000''), (''fsType'', ''xfs'')]"
  have l: "lower_keys ?a = [''gidmin'', ''fstype'', ''gidmax'']" "lower_keys ?b = [''gidmax'', ''gidmin'', ''fstype'']"
    by code_simp+
  then have k: "ToLower ''gidMin'' = ''gidmin''" "ToLower ''fsType'' = ''fstype''" "ToLower ''GidMax'' = ''gidmax''"
    by (simp_all add: lower_keys_def)
  have a: "parseClassParameters ?a = Inr (3000, 4000)"
    by (simp add: parseClassParameters_def k gidBound_def convertGid_def parse_eval gid_bounds)
  then show ?thesis using parseClassParameters_order [of ?a ?b "(3000, 4000)"] l by auto
qed

end
