(* ===== verification/Commons.thy ===== *)
theory Commons
  imports GoProg
begin

text \<open>
  \<open>lib/commons/common.go\<close>: checking InfiniBox responses, pools, network spaces, hosts,
  metadata and unmapping, all through the one REST client.
\<close>

section \<open>Checking a response\<close>

definition assertion_text :: "json \<Rightarrow> string \<Rightarrow> string" where
  "assertion_text v t = ''interface conversion: interface {} is '' @ type_name v @ '', not '' @ t"

text \<open>\<open>ParseError\<close>: the error text of a response, if it has one; panics are recovered inside.\<close>

definition ParseError :: "json \<Rightarrow> string \<times> bool" where
  "ParseError responseinmap =
     (let recovered = (\<lambda>v t. (''recovered in parseError  '' @ assertion_text v t, True)) in
      case responseinmap of
        JNull \<Rightarrow> ('''', False)
      | JObj resultmap \<Rightarrow>
          (case jget resultmap ''code'' of
             JStr code \<Rightarrow>
               (case jget resultmap ''message'' of
                  JStr message \<Rightarrow> (code @ '' '' @ message, True)
                | v \<Rightarrow> recovered v ''string'')
           | v \<Rightarrow> recovered v ''string'')
      | v \<Rightarrow> recovered v ''map[string]interface {}'')"

text \<open>
  \<open>CheckResponse\<close>. Without a response at all, both the body and the deferred recovery
  dereference nil, so the panic leaves the function. A decoded object is never a nil map, so
  the \<open>empty response\<close> branches of the source cannot be reached.
\<close>

definition CheckResponse :: "reply \<Rightarrow> (json \<times> err) outcome" where
  "CheckResponse r =
     (case r of
        NilResponse s \<Rightarrow> Panic nil_dereference
      | Response res err \<Rightarrow>
          if status_code res = 401 then
            Done (JNull, Some (Err (''Request authentication failed for : '' @ final_url res)))
          else if status_code res = 503 then Done (JNull, Some (Err (status_line res)))
          else case err of
            Some s \<Rightarrow> Done (JNull, Some (Err (''Error While Resty call for request '' @ final_url res @ s)))
          | None \<Rightarrow>
              (case decoded res of
                 Inl er \<Rightarrow> Done (JNull, Some (Err er))
               | Inr response \<Rightarrow>
                   (case response of
                      JObj responseinmap \<Rightarrow>
                        (case ParseError (jget responseinmap ''error'') of
                           (str, True) \<Rightarrow> Done (JNull, Some (Err str))
                         | (_, False) \<Rightarrow>
                             if jget responseinmap ''result'' \<noteq> JNull
                             then Done (jget responseinmap ''result'', None)
                             else Done (JNull, Some (Err (''result part of response is nil for request '' @ final_url res))))
                    | v \<Rightarrow> Done (JNull, Some (Err (''error while parsing management api response '' @
                             assertion_text v ''map[string]interface {}'' @ ''for request '' @ final_url res))))))"

text \<open>An accepted response: what \<open>CheckResponse\<close> needs to hand out a result.\<close>

definition accepted :: "reply \<Rightarrow> json \<Rightarrow> bool" where
  "accepted r v \<longleftrightarrow>
     (\<exists>res o'. r = Response res None \<and> status_code res \<notin> {401, 503} \<and> decoded res = Inr (JObj o') \<and>
        jget o' ''error'' = JNull \<and> jget o' ''result'' = v \<and> v \<noteq> JNull)"

lemma ParseError_none [simp]: "snd (ParseError v) = False \<longleftrightarrow> v = JNull"
  by (cases v) (auto simp: ParseError_def Let_def split: json.split)

lemma ParseError_JNull [simp]: "ParseError JNull = ('''', False)"
  by (simp add: ParseError_def)

lemma CheckResponse_panics: "(\<exists>s. CheckResponse r = Panic s) \<longleftrightarrow> (\<exists>s. r = NilResponse s)"
  by (cases r) (auto simp: CheckResponse_def split: option.split sum.split json.split bool.split prod.split)

lemma CheckResponse_accepts: "CheckResponse r = Done (v, None) \<longleftrightarrow> accepted r v"
proof (cases r)
  case (Response res er)
  have P: "ParseError x = (str, False) \<longleftrightarrow> x = JNull \<and> str = ''''" for x str
    using ParseError_none [of x] by (cases "ParseError x") (auto simp: ParseError_def)
  show ?thesis unfolding Response
    by (auto simp: CheckResponse_def accepted_def P split: option.split sum.split json.split bool.split prod.split)
qed (simp add: CheckResponse_def accepted_def)

lemma CheckResponse_rejects: "CheckResponse r = Done (v, Some x) \<Longrightarrow> v = JNull"
  by (auto simp: CheckResponse_def split: reply.splits option.splits sum.splits json.splits bool.splits prod.splits if_splits)

lemma accepted_err: "accepted r v \<Longrightarrow> reply_err r = None"
  by (auto simp: accepted_def)

text \<open>
  A call followed by \<open>CheckResponse\<close>, inside a function with named results \<open>results err\<close> whose
  deferred recovery reports msg: k continues with the checked result.
\<close>

definition checked :: "(err \<Rightarrow> 'a) \<Rightarrow> string \<Rightarrow> reply \<Rightarrow> (json \<Rightarrow> err \<Rightarrow> 'a prog) \<Rightarrow> 'a prog" where
  "checked results msg r k =
     guard (reply_err r) results msg (bind (lift (CheckResponse r)) (\<lambda>(v, err). guard err results msg (k v err)))"

lemma issues_checked [issues_intro]:
  "(\<And>v err. issues P (k v err)) \<Longrightarrow> issues P (checked results msg r k)"
  unfolding checked_def by (intro issues_intro)

lemma returns_checked [returns_intro]: "returns (checked results msg r k)"
  unfolding checked_def by (rule returns_intro)

lemma checked_eq:
  "checked results msg r k e w =
     (case r of NilResponse s \<Rightarrow> (Done (results (Some (Err s))), w)
      | Response res er \<Rightarrow> (case CheckResponse r of Done (v, err) \<Rightarrow> guard err results msg (k v err) e w
                           | Panic s \<Rightarrow> (Done (results (case reply_err r of None \<Rightarrow> Some (Err (msg @ s)) | Some x \<Rightarrow> Some x)), w)))"
proof (cases r)
  case (NilResponse s)
  then show ?thesis by (simp add: checked_def CheckResponse_def guard_def on_panic_def bind_def)
next
  case (Response res er)
  obtain v err where C: "CheckResponse r = Done (v, err)"
    using CheckResponse_panics [of r] Response by (cases "CheckResponse r") auto
  obtain x w' where "guard err results msg (k v err) e w = (Done x, w')"
    by (meson guard_returns)
  then show ?thesis using C Response by (simp add: checked_def bind_def guard_def on_panic_def)
qed

lemma checked_Done:
  assumes "checked results msg r k e w = (Done x, w')"
  shows "(\<exists>er. x = results (Some er)) \<or>
     (\<exists>v err. CheckResponse r = Done (v, err) \<and> k v err e w = (Done x, w'))"
proof (cases r)
  case (NilResponse s)
  then show ?thesis using assms by (auto simp: checked_eq)
next
  case (Response res er)
  obtain v err where C: "CheckResponse r = Done (v, err)"
    using CheckResponse_panics [of r] Response by (cases "CheckResponse r") auto
  then have "guard err results msg (k v err) e w = (Done x, w')"
    using assms Response by (simp add: checked_eq)
  then show ?thesis using C by (auto simp: guard_eq_Done split: option.splits)
qed

lemma checked_ok:
  assumes "checked results msg r k e w = (Done x, w')" "\<And>er. x \<noteq> results (Some er)"
  shows "\<exists>v err. CheckResponse r = Done (v, err) \<and> k v err e w = (Done x, w')"
  using checked_Done [OF assms(1)] assms(2) by blast

text \<open>
  \<open>made e w w' url i\<close>: between w and w' a POST to the URL was accepted, and the answer gave
  the new object the id i.
\<close>

definition made :: "env \<Rightarrow> world \<Rightarrow> world \<Rightarrow> string \<Rightarrow> int \<Rightarrow> bool" where
  "made e w w' url i \<longleftrightarrow>
     (\<exists>h rq fields m k. prefix (h @ [Rest rq]) (history w') \<and> prefix (history w) h \<and>
        rq_method rq = POST \<and> rq_url rq = url \<and> accepted (answer e h rq) (JObj fields) \<and>
        jget fields ''id'' = JNum m k \<and> i = float_int 64 m k)"

lemma made_mono: "made e w w' url i \<Longrightarrow> prefix (history w') (history w'') \<Longrightarrow> made e w w'' url i"
  unfolding made_def by (blast intro: prefix_order.trans)

lemma made_earlier: "made e w w' url i \<Longrightarrow> prefix (history w0) (history w) \<Longrightarrow> made e w0 w' url i"
  unfolding made_def by (blast intro: prefix_order.trans)

lemma made_fits: "made e w w' url i \<Longrightarrow> fits 64 i"
  by (auto simp: made_def)

section \<open>Metadata\<close>

definition AttachMetadata :: "int \<Rightarrow> volume_options \<Rightarrow> string \<Rightarrow> string \<Rightarrow> err prog" where
  "AttachMetadata resourceId options kuberVersion filesystemType =
     (let msg = ''error while attaching mettadata on infinibox  '';
          body = [(''host.k8s.namespace '', JStr (pvc_namespace (PVC options))),
                  (''host.k8s.pvcname '', JStr (pvc_name (PVC options))),
                  (''host.k8s.pvcid '', JStr (pvc_uid (PVC options))),
                  (''host.k8s.pvname '', JStr (PVName options)),
                  (''host.created_by'', JStr (''K8S/'' @ kuberVersion))] @
                 (if filesystemType \<noteq> '''' then [(''filesystem_type'', JStr filesystemType)] else [])
      in bind (rest PUT (''api/rest/metadata/'' @ itoa resourceId) '''' (Some (JObj body))) (\<lambda>resmd.
         checked (\<lambda>e. e) msg resmd (\<lambda>resulput err.
           case err of
             Some er \<Rightarrow> ret (Some (Err (''['' @ PVName options @ ''] '' @ Error er)))
           | None \<Rightarrow> ret None)))"

definition DetachMetadata :: "int \<Rightarrow> string \<Rightarrow> err prog" where
  "DetachMetadata resourceId resourceName =
     bind (rest DELETE (''api/rest/metadata/'' @ itoa resourceId) ''approved=true'' None) (\<lambda>resmd.
     checked (\<lambda>e. e) ''error while removing metatdata '' resmd (\<lambda>_ err.
       case err of
         Some er \<Rightarrow> ret (Some (Err (''['' @ resourceName @ ''] '' @ Error er)))
       | None \<Rightarrow> ret None))"

section \<open>Pools and network spaces\<close>

text \<open>The loop of \<open>GetPoolID\<close>: the last pool of that name wins.\<close>

fun poolLoop :: "string \<Rightarrow> json list \<Rightarrow> int \<Rightarrow> int prog" where
  "poolLoop name [] poolId = ret poolId"
| "poolLoop name (result # results) poolId =
     bind (as_obj result) (\<lambda>resultmap.
       if jget resultmap ''name'' = JStr name
       then bind (as_int 64 (jget resultmap ''id'')) (\<lambda>i. poolLoop name results i)
       else poolLoop name results poolId)"

definition GetPoolID :: "string \<Rightarrow> (int \<times> err) prog" where
  "GetPoolID name =
     bind (rest GET ''api/rest/pools'' (''name='' @ name) None) (\<lambda>respool.
     checked (\<lambda>e. (0, e)) ''error while Get Pool ID  '' respool (\<lambda>resultpool err.
       bind (as_arr resultpool) (\<lambda>arryofresult.
       bind (poolLoop name arryofresult (-1)) (\<lambda>poolId.
       if poolId = -1 then ret (poolId, Some (Err (''No such pool: '' @ name)))
       else ret (poolId, None)))))"

definition NetworkspaceValidation :: "string \<Rightarrow> (bool \<times> err) prog" where
  "NetworkspaceValidation networkspace =
     bind (rest GET ''api/rest/network/spaces'' (''name='' @ networkspace) None) (\<lambda>respool.
     checked (\<lambda>e. (False, e)) ''error while Networkspace Validation   '' respool (\<lambda>nspace err.
       if err \<noteq> None then ret (False, err)
       else if sprint nspace = ''[]''
       then ret (False, Some (Err (''No such network space: '' @ networkspace)))
       else ret (True, None)))"

fun validSpaces :: "string list \<Rightarrow> string list prog" where
  "validSpaces [] = ret []"
| "validSpaces (name # names) =
     bind (NetworkspaceValidation name) (\<lambda>(flag, err).
     bind (validSpaces names) (\<lambda>rest'. ret (if flag then name # rest' else rest')))"

definition OneTimeValidation :: "string \<Rightarrow> string \<Rightarrow> (string \<times> err) prog" where
  "OneTimeValidation poolname networkspace =
     guard None (\<lambda>e. ('''', e)) ''error while One Time Validation   '' (
       bind (GetPoolID poolname) (\<lambda>(_, err).
       if err \<noteq> None then ret ('''', err)
       else
         bind (validSpaces (split_on CHR '','' networkspace)) (\<lambda>arrayOfValidnetspaces.
         if length arrayOfValidnetspaces > 0
         then ret (join '','' arrayOfValidnetspaces, None)
         else ret ('''', Some (Err ''provide valid network spaces'')))))"

section \<open>Hosts\<close>

text \<open>
  The loop of \<open>GetHostList\<close>. Its inner \<open>err\<close> shadows the named one, which stays nil; a body
  that is not JSON only skips the node. A panic leaves the named results with a nil list.
\<close>

fun hostLoop :: "node list \<Rightarrow> string list \<Rightarrow> (string list \<times> err) prog" where
  "hostLoop [] hostList = ret (hostList, None)"
| "hostLoop (n # nodes) hostList =
     bind (rest GET ''api/rest/hosts'' (''name='' @ node_name n) None) (\<lambda>resGet.
     case resGet of
       NilResponse s \<Rightarrow> ret (hostList, Some (Err s))
     | Response res (Some s) \<Rightarrow> ret (hostList, Some (Err s))
     | Response res None \<Rightarrow>
         (case decoded res of
            Inl _ \<Rightarrow> hostLoop nodes hostList
          | Inr JNull \<Rightarrow> hostLoop nodes hostList
          | Inr response \<Rightarrow>
              bind (as_obj response) (\<lambda>responseInMap.
              case ParseError (jget responseInMap ''error'') of
                (str, True) \<Rightarrow> ret (hostList, Some (Err str))
              | (_, False) \<Rightarrow>
                  if jget responseInMap ''metadata'' \<noteq> JNull then
                    bind (as_obj (jget responseInMap ''metadata'')) (\<lambda>wholeMap.
                    bind (as_int 64 (jget wholeMap ''number_of_objects'')) (\<lambda>number.
                    hostLoop nodes (if number > 0 then hostList @ [node_name n] else hostList)))
                  else hostLoop nodes hostList)))"

definition GetHostList :: "node list \<Rightarrow> (string list \<times> err) prog" where
  "GetHostList k8sNodeList =
     guard None (\<lambda>e. ([], e)) ''error while getting host list '' (hostLoop k8sNodeList [])"

definition UnMap :: "int \<Rightarrow> int \<Rightarrow> err prog" where
  "UnMap hostId volId =
     bind (rest DELETE (''api/rest/hosts/'' @ itoa hostId @ ''/luns/volume_id/'' @ itoa volId) ''approved=true'' None) (\<lambda>unmapResponse.
     checked (\<lambda>e. e) ''error while unmap volume '' unmapResponse (\<lambda>_ err.
       case err of
         Some er \<Rightarrow> if contains (Error er) ''LUN_NOT_FOUND'' then ret None else ret (Some er)
       | None \<Rightarrow> ret None))"

section \<open>What these functions ask for\<close>

lemma issues_AttachMetadata [issues_intro]: "PUT \<in> M \<Longrightarrow> issues (is_rest M) (AttachMetadata i opt v t)"
  unfolding AttachMetadata_def Let_def by (intro issues_intro) auto

lemma issues_DetachMetadata [issues_intro]: "DELETE \<in> M \<Longrightarrow> issues (is_rest M) (DetachMetadata i n)"
  unfolding DetachMetadata_def by (intro issues_intro) auto

lemma issues_poolLoop [issues_intro]: "issues P (poolLoop name rs i)"
  by (induction name rs i rule: poolLoop.induct) (auto simp only: poolLoop.simps intro!: issues_intro)

lemma issues_GetPoolID [issues_intro]: "issues (is_rest M) (GetPoolID name)"
  unfolding GetPoolID_def by (intro issues_intro) auto

lemma issues_NetworkspaceValidation [issues_intro]: "issues (is_rest M) (NetworkspaceValidation ns)"
  unfolding NetworkspaceValidation_def by (intro issues_intro) auto

lemma issues_validSpaces [issues_intro]: "issues (is_rest M) (validSpaces ns)"
  by (induction ns rule: validSpaces.induct) (auto simp only: validSpaces.simps intro!: issues_intro)

lemma issues_OneTimeValidation [issues_intro]: "issues (is_rest M) (OneTimeValidation p ns)"
  unfolding OneTimeValidation_def by (intro issues_intro)

lemma issues_case_json [issues_intro]:
  "issues P a \<Longrightarrow> (\<And>b. issues P (f1 b)) \<Longrightarrow> (\<And>m k. issues P (f2 m k)) \<Longrightarrow> (\<And>s. issues P (f3 s)) \<Longrightarrow>
   (\<And>xs. issues P (f4 xs)) \<Longrightarrow> (\<And>kvs. issues P (f5 kvs)) \<Longrightarrow>
   issues P (case x of JNull \<Rightarrow> a | JBool b \<Rightarrow> f1 b | JNum m k \<Rightarrow> f2 m k | JStr s \<Rightarrow> f3 s
     | JArr xs \<Rightarrow> f4 xs | JObj kvs \<Rightarrow> f5 kvs)"
  by (cases x) simp_all

lemma issues_case_bool [issues_intro]:
  "issues P m \<Longrightarrow> issues P n \<Longrightarrow> issues P (case b of True \<Rightarrow> m | False \<Rightarrow> n)"
  by (cases b) simp_all

lemma issues_hostLoop [issues_intro]: "issues (is_rest M) (hostLoop ns hs)"
proof (induction ns arbitrary: hs)
  case Nil
  show ?case by (simp only: hostLoop.simps issues_ret)
next
  case (Cons n ns)
  show ?case unfolding hostLoop.simps by (intro issues_intro Cons.IH) auto
qed

lemma issues_GetHostList [issues_intro]: "issues (is_rest M) (GetHostList ns)"
  unfolding GetHostList_def by (intro issues_intro)

lemma issues_UnMap [issues_intro]: "DELETE \<in> M \<Longrightarrow> issues (is_rest M) (UnMap h v)"
  unfolding UnMap_def by (intro issues_intro) auto

section \<open>They never panic\<close>

lemma commons_return [returns_intro]:
  "returns (AttachMetadata i opt v t)" "returns (DetachMetadata i n)" "returns (GetPoolID name)"
  "returns (NetworkspaceValidation ns)" "returns (OneTimeValidation p ns)" "returns (GetHostList nodes)"
  "returns (UnMap h vol)"
  unfolding AttachMetadata_def DetachMetadata_def GetPoolID_def NetworkspaceValidation_def
    OneTimeValidation_def GetHostList_def UnMap_def Let_def
  by (intro returns_intro)+

section \<open>They leave the configuration alone\<close>

lemma keeps_checked [keeps_intro]: "(\<And>v err. keeps (k v err)) \<Longrightarrow> keeps (checked results msg r k)"
  unfolding checked_def by (intro keeps_intro)

lemma keeps_poolLoop [keeps_intro]: "keeps (poolLoop name rs i)"
  by (induction name rs i rule: poolLoop.induct) (auto simp only: poolLoop.simps intro!: keeps_intro)

lemma keeps_hostLoop [keeps_intro]: "keeps (hostLoop ns hs)"
proof (induction ns arbitrary: hs)
  case (Cons n ns)
  show ?case unfolding hostLoop.simps by (intro keeps_intro Cons.IH)
qed (simp only: hostLoop.simps keeps_intro)

lemma keeps_validation [keeps_intro]:
  "keeps (GetPoolID name)" "keeps (NetworkspaceValidation ns)"
  unfolding GetPoolID_def NetworkspaceValidation_def by (intro keeps_intro)+

lemma keeps_validSpaces [keeps_intro]: "keeps (validSpaces ns)"
  by (induction ns rule: validSpaces.induct) (auto simp only: validSpaces.simps intro!: keeps_intro)

lemma keeps_commons [keeps_intro]:
  "keeps (AttachMetadata i opt v t)" "keeps (DetachMetadata i n)" "keeps (OneTimeValidation p spaces)"
  "keeps (GetHostList nodes)" "keeps (UnMap h vol)"
  unfolding AttachMetadata_def DetachMetadata_def OneTimeValidation_def GetHostList_def UnMap_def Let_def
  by (intro keeps_intro)+

section \<open>Where a request ends\<close>

lemma AttachMetadata_asks:
  "AttachMetadata v opt kv t e w = (r, w') \<Longrightarrow>
     ended PUT (''api/rest/metadata/'' @ itoa v) w w'"
  unfolding AttachMetadata_def Let_def by (erule rest_then) (intro issues_intro)

lemma DetachMetadata_asks:
  "DetachMetadata v n e w = (r, w') \<Longrightarrow>
     ended DELETE (''api/rest/metadata/'' @ itoa v) w w'"
  unfolding DetachMetadata_def by (erule rest_then) (intro issues_intro)

lemma rest_grows: "rest m u q b e w = (r, w') \<Longrightarrow> prefix (history w) (history w')"
  by (rule issues_grows [OF issues_rest [of m "{m}"]]) simp_all

text \<open>A POST that is followed by the reading of the new object's id.\<close>

lemma made_by_post:
  assumes "rest POST url q b e w = (Done r, w1)" "accepted r (JObj kvs)" "jget kvs ''id'' = JNum m k" "float_int 64 m k = i"
  shows "made e w w1 url i"
proof -
  obtain rq xs where "history w1 = history w @ xs @ [Rest rq]" "rq_method rq = POST" "rq_url rq = url"
      "r = answer e (history w @ xs) rq"
    using rest_last [OF assms(1)] by blast
  then show ?thesis unfolding made_def using assms(2-4)
    by (intro exI [of _ "history w @ xs"] exI [of _ rq] exI [of _ kvs] exI [of _ m] exI [of _ k]) simp
qed

lemma merge_config_Done:
  "merge_config kvs e w = (Done (), w') \<Longrightarrow>
     history w' = history w \<and> (\<forall>d. getConfiguration w = Some d \<longrightarrow> getConfiguration w' = Some (mput_all kvs d)) \<and>
     (getConfiguration w = None \<longrightarrow> kvs = [] \<and> w' = w)"
  by (induction kvs arbitrary: w)
    (fastforce simp: bind_eq_Done write_config_def getConfiguration_def split: option.splits config_object.splits)+

text \<open>The last thing that was done is a request with this method and URL, and it was accepted.\<close>

definition ended_ok :: "env \<Rightarrow> http_method \<Rightarrow> string \<Rightarrow> world \<Rightarrow> world \<Rightarrow> bool" where
  "ended_ok e m url w w' \<longleftrightarrow>
     (\<exists>xs rq v. history w' = history w @ xs @ [Rest rq] \<and> rq_method rq = m \<and> rq_url rq = url \<and>
        accepted (answer e (history w @ xs) rq) v)"

lemma ended_ok_later: "did P w0 w \<Longrightarrow> ended_ok e m url w w' \<Longrightarrow> ended_ok e m url w0 w'"
  unfolding ended_ok_def did_def by fastforce

lemma rest_ended_ok:
  assumes "rest m url q b e w = (Done r, w')" "accepted r v"
  shows "ended_ok e m url w w'"
proof -
  obtain rq xs where "history w' = history w @ xs @ [Rest rq]" "rq_method rq = m" "rq_url rq = url"
      "r = answer e (history w @ xs) rq"
    using rest_last [OF assms(1)] by blast
  then show ?thesis unfolding ended_ok_def using assms(2) by blast
qed

lemma checked_None:
  assumes "checked (\<lambda>e. e) msg r k e w = (Done None, w')"
  shows "\<exists>v err. CheckResponse r = Done (v, err) \<and> k v err e w = (Done None, w')"
  using checked_ok [OF assms] by simp

text \<open>The last step of both \<open>volDestroy\<close>: the deletion itself, and what its answer must be.\<close>

lemma volume_deleted:
  assumes run: "bind (rest DELETE url q None) (\<lambda>resp. checked (\<lambda>e. e) msg resp (\<lambda>x _.
      if x = JNull then ret (Some x1) else ret None)) e w = (Done z, w')"
  shows "ended DELETE url w w'" "did (is_rest {DELETE}) w w'" "z = None \<Longrightarrow> ended_ok e DELETE url w w'"
proof -
  show "ended DELETE url w w'" using run by (rule rest_then) (intro issues_intro)
  show "did (is_rest {DELETE}) w w'" using _ run by (rule issues_did) (intro issues_intro, simp)
  assume z: "z = None"
  obtain resp w1 where R: "rest DELETE url q None e w = (Done resp, w1)" using rest_returns by blast
  then obtain x err where X: "CheckResponse resp = Done (x, err)" "x \<noteq> JNull" "w' = w1"
    using run z by (auto dest!: checked_None split: if_splits)
  then have "err = None" using CheckResponse_rejects by (cases err) auto
  then show "ended_ok e DELETE url w w'" using X rest_ended_ok [OF R] CheckResponse_accepts by blast
qed

section \<open>The configuration of a pool and its network spaces\<close>

text \<open>
  The iSCSI and the NFS provisioner begin in the same way: they merge the parameters of the class
  into the configuration, validate the pool and the network spaces, and store the valid ones.
\<close>

lemma configured_cases:
  assumes "guard None results msg (seq (merge_config pars) (bind (read_config key1) (\<lambda>pool. bind (read_config key2) (\<lambda>spaces.
      bind (OneTimeValidation pool spaces) (\<lambda>(valid, err). if err \<noteq> None then ret (refuse err)
        else seq (write_config key valid) k))))) e w = (Done r, w')"
  obtains (refused) x where "did (is_rest {}) w w'" "r = results (Some x) \<or> r = refuse (Some x)"
  | (configured) w1 where "did (is_rest {}) w w1" "guard None results msg k e w1 = (Done r, w')"
  using assms
proof (cases rule: guard_bind)
  case (panicked s)
  then show thesis using refused issues_did [OF issues_merge_config] by blast
next
  case (went_on u w0)
  have d0: "did (is_rest {}) w w0" by (rule issues_did [OF issues_merge_config went_on(1)])
  from went_on(2) obtain valid er w1 where V: "OneTimeValidation (mstr (annotations_of (getConfiguration w0)) key1)
        (mstr (annotations_of (getConfiguration w0)) key2) e w0 = (Done (valid, er), w1)"
      "guard None results msg (if er \<noteq> None then ret (refuse er) else seq (write_config key valid) k) e w1 = (Done r, w')"
    by (auto simp: guard_read_config elim: guard_bind_returns [OF _ commons_return(5)])
  have d1: "did (is_rest {}) w w1" using d0 issues_did [OF issues_OneTimeValidation V(1)] by (rule did_trans)
  show thesis
  proof (cases er)
    case (Some x)
    then show thesis using V(2) d1 by (intro refused [of x]) simp_all
  next
    case None
    then have "guard None results msg (seq (write_config key valid) k) e w1 = (Done r, w')" using V(2) by simp
    then show thesis
    proof (cases rule: guard_bind)
      case (panicked s)
      then show thesis using refused did_trans [OF d1 issues_did [OF issues_write_config]] by blast
    next
      case (went_on u w2)
      then show thesis using configured did_trans [OF d1 issues_did [OF issues_write_config]] by blast
    qed
  qed
qed

section \<open>Creating a volume for the hosts\<close>

text \<open>
  The iSCSI and the Fibre Channel provisioner create a volume in the same way: they look the
  hosts up, create the volume, and go on to map it, with the volume's id, only if there was no error.
\<close>

lemma host_volume_cases:
  assumes run: "guard None (\<lambda>e. (vol, 0, 0, e)) msg (bind (read_config key) (\<lambda>pool. bind (GetHostList ns) (\<lambda>(hs, err).
        if err \<noteq> None then ret (vol, 0, 0, err)
        else bind (create pool) (\<lambda>(vid, err). case err of Some er \<Rightarrow> ret (vol, 0, vid, refuse er) | None \<Rightarrow> after hs vid)))) e w
      = (Done (vol', lun, vid, er), w')"
    and create: "\<And>pool. returns (create pool)" "\<And>pool. issues (is_rest {POST}) (create pool)"
      "\<And>pool e w i x w'. create pool e w = (Done (i, x), w') \<Longrightarrow> (x \<noteq> None \<longrightarrow> i = 0) \<and> (x = None \<longrightarrow> made e w w' url i)"
    and after: "\<And>hs i. returns (after hs i)" and refuse: "\<And>er. refuse er \<noteq> None"
  obtains (refused) "vol' = vol" "vid = 0" "er \<noteq> None" "did (is_rest {POST}) w w'"
  | (created) hs i w1 where "did (is_rest {POST}) w w1" "made e w w1 url i" "after hs i e w1 = (Done (vol', lun, vid, er), w')"
proof -
  show thesis
  proof (rule guard_bind_returns [OF run [unfolded guard_read_config] commons_return(6)], goal_cases)
    case hosts: (1 x w0)
    obtain hs er0 where x: "x = (hs, er0)" by (cases x)
    have d0: "did (is_rest {POST}) w w0" by (rule issues_did [OF issues_GetHostList hosts(1)])
    show thesis
    proof (cases er0)
      case (Some y)
      then show thesis using hosts(2) d0 by (intro refused) (auto simp: x)
    next
      case None
      show thesis
      proof (rule guard_bind_returns [OF hosts(2) [unfolded x prod.case None not_True_eq_False simp_thms if_False] create(1)], goal_cases)
        case made: (1 y w1)
        obtain i er1 where y: "y = (i, er1)" by (cases y)
        note C = create(3) [OF made(1) [unfolded y]]
        have d1: "did (is_rest {POST}) w w1" using d0 issues_did [OF create(2) made(1)] by (rule did_trans)
        show thesis
        proof (cases er1)
          case (Some z)
          then show thesis using made(2) C d1 refuse by (intro refused) (auto simp: y)
        next
          case None
          then show thesis using made(2) C made_earlier [OF _ did_prefix [OF d0]]
            by (intro created [OF d1]) (auto simp: y guard_of_returns [OF after])
        qed
      qed
    qed
  qed
qed

end
