(* ===== verification/Fixtures.thy ===== *)
theory Fixtures
  imports Commons
begin

text \<open>
  A well-behaved InfiniBox for the witnesses: every request is accepted, a GET finds one object
  (pool, network space, host or node) and every other method reports the object with id 42.
\<close>

named_theorems demo_simps \<open>evaluation of programs against the sample InfiniBox\<close>

definition demo_answer :: "http_method \<Rightarrow> json" where
  "demo_answer m =
     (case m of
        GET \<Rightarrow> JArr [JObj [(''id'', JNum 7 0), (''name'', JStr ''main''),
            (''properties'', JObj [(''iscsi_iqn'', JStr ''iqn.box'')]),
            (''ips'', JArr [JObj [(''ip_address'', JStr ''10.0.0.9'')], JObj [(''ip_address'', JStr ''10.0.0.10'')]]),
            (''fc_ports'', JArr [JObj [(''link_state'', JStr ''UP''), (''wwpn'', JStr ''57:42'')]])]]
      | _ \<Rightarrow> JObj [(''id'', JNum 42 0), (''lun'', JNum 11 0), (''name'', JStr ''volume''),
                  (''export_path'', JStr ''/export/volume'')])"

definition demo_reply :: "json \<Rightarrow> reply" where
  "demo_reply v = Response
      \<lparr>status_code = 200, status_line = ''200 OK'', final_url = '''',
       decoded = Inr (JObj [(''result'', v), (''metadata'', JObj [(''number_of_objects'', JNum 1 0)])])\<rparr> None"

definition demo_env :: env where
  "demo_env = quiet_env\<lparr>answer := (\<lambda>h rq. demo_reply (demo_answer (rq_method rq))), getenv := (\<lambda>k. Some ''set'')\<rparr>"

definition demo_config :: strmap where
  "demo_config = [(''pool_name'', ''main''), (''iscsi_networkspaces'', ''main''), (''nfs_networkspace'', ''main''),
     (''max_volume'', ''10''), (''max_fs'', ''10''), (''fsType'', ''ext4'')]"

definition demo_client :: rest_client where
  "demo_client = \<lparr>rc_user = ''u'', rc_password = ''p'', rc_host = ''https://box''\<rparr>"

definition demo_world :: world where
  "demo_world = idle_world\<lparr>configuration := [(configMapName, ConfigMap (Some demo_config))],
     rest_client := Some demo_client\<rparr>"

definition demo_node :: node where
  "demo_node = \<lparr>node_name = ''n1'', addresses = [\<lparr>addr_type = ''InternalIP'', address = ''10.0.0.1''\<rparr>]\<rparr>"

lemma demo_fields [simp]:
  "answer demo_env h rq = demo_reply (demo_answer (rq_method rq))" "getenv demo_env k = Some ''set''"
  by (simp_all add: demo_env_def)

lemma demo_world_fields [simp]:
  "getConfiguration demo_world = Some demo_config" "world.rest_client demo_world = Some demo_client"
  "history demo_world = []" "networkspacesUsed demo_world = 1" "networkspacesIps demo_world = []"
  "configuration demo_world = [(configMapName, ConfigMap (Some demo_config))]"
  by (simp_all add: demo_world_def idle_world_def getConfiguration_def)

lemma write_config_Some:
  "getConfiguration w = Some d \<Longrightarrow> write_config k v e w =
     (Done (), w\<lparr>configuration := mput configMapName (ConfigMap (Some (mput k v d))) (configuration w)\<rparr>)"
  by (simp add: write_config_def)

lemma demo_rest:
  "world.rest_client w = Some c \<Longrightarrow> rest m u q b demo_env w =
     (Done (demo_reply (demo_answer m)),
      w\<lparr>history := history w @ [Rest \<lparr>rq_client = c, rq_method = m, rq_url = u, rq_query = q, rq_body = b\<rparr>]\<rparr>)"
  by (simp add: rest_def GetRestClient_def perform_def bind_def Let_def)

lemma demo_CheckResponse: "v \<noteq> JNull \<Longrightarrow> CheckResponse (demo_reply v) = Done (v, None)"
  by (simp add: demo_reply_def CheckResponse_def jget_def)

lemma demo_checked:
  "v \<noteq> JNull \<Longrightarrow> checked results msg (demo_reply v) k = guard None results msg (k v None)"
  by (rule ext)+ (simp add: checked_eq demo_CheckResponse [unfolded demo_reply_def] demo_reply_def)

lemma demo_reply_simps:
  "reply_err (demo_reply v) = None"
  "(case demo_reply v of NilResponse s \<Rightarrow> f s | Response res x \<Rightarrow> g res x) =
     g \<lparr>status_code = 200, status_line = ''200 OK'', final_url = '''',
       decoded = Inr (JObj [(''result'', v), (''metadata'', JObj [(''number_of_objects'', JNum 1 0)])])\<rparr> None"
  by (simp_all add: demo_reply_def)

lemma demo_answers:
  "demo_answer m \<noteq> JNull"
  "demo_answer POST = JObj [(''id'', JNum 42 0), (''lun'', JNum 11 0), (''name'', JStr ''volume''), (''export_path'', JStr ''/export/volume'')]"
  by (auto simp: demo_answer_def split: http_method.split)

lemmas demo_eval [demo_simps] = demo_rest demo_checked demo_reply_simps demo_answers demo_CheckResponse write_config_Some
  OneTimeValidation_def GetPoolID_def NetworkspaceValidation_def GetHostList_def AttachMetadata_def
  DetachMetadata_def UnMap_def demo_answer_def demo_node_def demo_config_def sample_options_def sample_pvc_def
  jget_def mstr_def mput_def trim_spaces_def go_rem_def index_def Let_def parse_eval itoa_def digit_char_def
  float_int_def fits_def quot_def configMapName_def bind_def guard_def on_panic_def deferred_def

definition demo_ready :: "world \<Rightarrow> bool" where
  "demo_ready w \<longleftrightarrow> world.rest_client w = Some demo_client \<and> getConfiguration w = Some demo_config"

lemma demo_ready_world [simp]: "demo_ready demo_world"
  by (simp add: demo_ready_def)

lemma demo_validation:
  assumes "demo_ready w"
  shows "\<exists>w'. OneTimeValidation ''main'' ''main'' demo_env w = (Done (''main'', None), w') \<and> demo_ready w' \<and>
    networkspacesUsed w' = networkspacesUsed w"
  using assms by (simp add: demo_ready_def demo_simps)

end
