(* ===== verification/Provisioner.thy ===== *)
theory Provisioner
  imports Fixtures
begin

text \<open>
  The interface \<open>Provisioner\<close> of \<open>lib/controller/volume.go\<close>, and the contract the controller
  relies on. The configuration map that Go passes by reference is a part of the world.
\<close>

section \<open>The interface\<close>

record provisioner =
  Provision :: "volume_options \<Rightarrow> node list \<Rightarrow> (pv option \<times> err) prog"
  DeleteVolume :: "pv \<Rightarrow> node list \<Rightarrow> err prog"
  UpdateMapping :: "pv list \<Rightarrow> node list \<Rightarrow> bool \<Rightarrow> bool \<Rightarrow> node list \<Rightarrow> err prog"

text \<open>The annotation all three provisioners put on their volumes.\<close>

definition annCreatedBy :: string where "annCreatedBy = ''kubernetes.io/createdby''"
definition createdBy :: string where "createdBy = ''infinidat-dynamic-provisioner''"

definition own :: "pv \<Rightarrow> bool" where
  "own q \<longleftrightarrow> mget (annotations_of (pv_annotations q)) annCreatedBy = Some createdBy"

section \<open>The contract\<close>

text \<open>
  \<open>Provision\<close> returns exactly one of a volume and an error, and the volume carries the name,
  policy, modes and size asked for, the mark of its creator, and no claim reference. \<open>Delete\<close>
  sends only GET and DELETE requests, and does nothing at all to a volume without the mark.
  \<open>UpdateMapping\<close> deletes nothing unless nodes were deleted. None of them touches Kubernetes.
\<close>

locale provisioner_contract =
  fixes P :: provisioner
  assumes Provision_total: "\<exists>p er w'. Provision P opt ns e w = (Done (p, er), w')"
    and Provision_exclusive: "Provision P opt ns e w = (Done (p, er), w') \<Longrightarrow> (p = None) = (er \<noteq> None)"
    and Provision_requests: "issues (is_rest {POST, PUT, DELETE}) (Provision P opt ns)"
    and Provision_volume: "Provision P opt ns e w = (Done (Some q, er), w') \<Longrightarrow>
      own q \<and> pv_name q = PVName opt \<and> pv_reclaimPolicy q = vo_reclaimPolicy opt \<and>
      pv_accessModes q = pvc_accessModes (PVC opt) \<and> pv_capacity q = pvc_storage (PVC opt) \<and> pv_claimRef q = None"
    and Delete_total: "returns (DeleteVolume P q ns)"
    and Delete_requests: "issues (is_rest {DELETE}) (DeleteVolume P q ns)"
    and Delete_foreign: "\<not> own q \<Longrightarrow> \<exists>x. DeleteVolume P q ns = ret (Some x)"
    and Update_requests: "issues (is_rest {POST, PUT, DELETE}) (UpdateMapping P pvs ns added deleted nodes)"
    and Update_additions: "\<not> deleted \<Longrightarrow> issues (is_rest {POST, PUT}) (UpdateMapping P pvs ns added deleted nodes)"
begin

lemma Provision_did: "Provision P opt ns e w = (r, w') \<Longrightarrow> did (is_rest {POST, PUT, DELETE}) w w'"
  by (rule issues_did [OF Provision_requests])

lemma Delete_did: "DeleteVolume P q ns e w = (r, w') \<Longrightarrow> did (is_rest {DELETE}) w w'"
  by (rule issues_did [OF Delete_requests])

text \<open>A volume that was deleted without error is one of this creator.\<close>

lemma Delete_own: "DeleteVolume P q ns e w = (Done None, w') \<Longrightarrow> own q"
  using Delete_foreign [of q ns] by fastforce

lemma Provision_cases:
  obtains (volume) q w' where "Provision P opt ns e w = (Done (Some q, None), w')" "own q" "pv_name q = PVName opt"
      "pv_claimRef q = None" "pv_reclaimPolicy q = vo_reclaimPolicy opt" "did (is_rest {POST, PUT, DELETE}) w w'"
  | (failure) x w' where "Provision P opt ns e w = (Done (None, Some x), w')" "did (is_rest {POST, PUT, DELETE}) w w'"
proof -
  obtain p er w' where R: "Provision P opt ns e w = (Done (p, er), w')" using Provision_total by blast
  show thesis
  proof (cases p)
    case None
    then show thesis using failure R Provision_exclusive [OF R] Provision_did [OF R] by auto
  next
    case (Some q)
    then show thesis using volume R Provision_exclusive [OF R] Provision_did [OF R] Provision_volume by auto
  qed
qed

end

end
