(* ===== verification/ISCSI.thy ===== *)
theory ISCSI
  imports Provisioner
begin

text \<open>
  \<open>pkg/iscsi/provision.go\<close> and \<open>pkg/iscsi/delete.go\<close>. The provisioner's own variable
  \<open>networkspacesUsed\<close> is a field of the world; its configuration argument is the cached map.
\<close>

section \<open>Constants\<close>


definition iscsi_getAccessModes :: "access_mode list" where
  "iscsi_getAccessModes = [ReadWriteOnce]"

definition show_modes :: "access_mode list \<Rightarrow> string" where
  "show_modes ms = ''['' @ join '' '' ms @ '']''"

definition iscsi_getReadOnly :: "string \<Rightarrow> bool" where
  "iscsi_getReadOnly readonly =
     (let (isReadOnly, err) = ParseBool readonly in if err \<noteq> None then False else isReadOnly)"

definition iscsi_getVolumeName :: "volume_options \<Rightarrow> string" where
  "iscsi_getVolumeName options = PVName options"

section \<open>Hosts and mappings\<close>

definition iscsi_getHostId :: "string \<Rightarrow> (int \<times> err) prog" where
  "iscsi_getHostId name =
     bind (rest GET ''api/rest/hosts'' (''name='' @ name) None) (\<lambda>resGet.
     checked (\<lambda>e. (0, e)) (''['' @ name @ ''] error while getting host id '') resGet (\<lambda>resultGet err.
       if err \<noteq> None then ret (0, err)
       else bind (as_arr resultGet) (\<lambda>arrayOfResult.
         if length arrayOfResult = 0 then ret (0, Some (Err ''host id not present ''))
         else bind (index arrayOfResult 0) (\<lambda>x. bind (as_obj x) (\<lambda>resultMap.
              bind (as_int 64 (jget resultMap ''id'')) (\<lambda>i. ret (i, None)))))))"

definition iscsi_mapping :: "int \<Rightarrow> int \<Rightarrow> int \<Rightarrow> (int \<times> err) prog" where
  "iscsi_mapping hostId volumeId lunNo =
     (let body = [(''volume_id'', JNum volumeId 0)] @ (if lunNo > -1 then [(''lun'', JNum lunNo 0)] else []) in
      bind (rest POST (''api/rest/hosts/'' @ itoa hostId @ ''/luns'') ''approved=true'' (Some (JObj body))) (\<lambda>restPost.
      checked (\<lambda>e. (0, e)) ''error while mapping volume to host '' restPost (\<lambda>resultPost err.
        if (case err of None \<Rightarrow> False | Some er \<Rightarrow> \<not> contains (Error er) ''MAPPING_ALREADY_EXISTS'')
        then ret (0, err)
        else bind (as_obj resultPost) (\<lambda>lunofVolume.
             bind (as_int 32 (jget lunofVolume ''lun'')) (\<lambda>l. ret (l, None))))))"

fun iscsi_mapLoop :: "string list \<Rightarrow> int \<Rightarrow> int \<Rightarrow> (int \<times> err) prog" where
  "iscsi_mapLoop [] volumeId lunNo = ret (lunNo, None)"
| "iscsi_mapLoop (hostName # hosts) volumeId lunNo =
     bind (iscsi_getHostId hostName) (\<lambda>(id, _).
     bind (iscsi_mapping id volumeId lunNo) (\<lambda>(newLunNo, err).
       if err \<noteq> None then ret (lunNo, err)
       else iscsi_mapLoop hosts volumeId (if newLunNo > lunNo then newLunNo else lunNo)))"

definition iscsi_mapVolumeToHost :: "string list \<Rightarrow> int \<Rightarrow> (int \<times> err) prog" where
  "iscsi_mapVolumeToHost arrayOfHosts volumeId =
     guard None (\<lambda>e. (-1, e)) ''error while mapping Volume To Host '' (iscsi_mapLoop arrayOfHosts volumeId (-1))"

section \<open>Volumes\<close>

definition iscsi_getNumberOfVolumes :: "(int \<times> err) prog" where
  "iscsi_getNumberOfVolumes =
     bind (rest GET ''api/rest/volumes'' '''' None) (\<lambda>resGet.
     guard (reply_err resGet) (\<lambda>e. (0, e)) ''error while getting number of volumes '' (
     case resGet of
       NilResponse s \<Rightarrow> ret (0, Some (Err s))
     | Response res (Some s) \<Rightarrow> ret (0, Some (Err s))
     | Response res None \<Rightarrow>
         let response = (case decoded res of Inl _ \<Rightarrow> JNull | Inr v \<Rightarrow> v) in
         if response \<noteq> JNull then
           bind (as_obj response) (\<lambda>responseInMap.
           case ParseError (jget responseInMap ''error'') of
             (str, True) \<Rightarrow> ret (0, Some (Err str))
           | (_, False) \<Rightarrow>
               if jget responseInMap ''metadata'' \<noteq> JNull then
                 bind (as_obj (jget responseInMap ''metadata'')) (\<lambda>wholeMap.
                 bind (as_int 64 (jget wholeMap ''number_of_objects'')) (\<lambda>n. ret (n, None)))
               else bind (as_str (jget responseInMap ''metadata'')) (\<lambda>s. ret (0, Some (Err s))))
         else ret (0, Some (Err ''empty response while getting numberofvolumes ''))))"

definition iscsi_volCreate :: "string \<Rightarrow> string \<Rightarrow> volume_options \<Rightarrow> (int \<times> err) prog" where
  "iscsi_volCreate name pool options =
     (let msg = ''error while volume create '' in
      bind (read_config ''provision_type'') (\<lambda>provtype.
      bind iscsi_getNumberOfVolumes (\<lambda>(noOfVolumes, _).
      bind (read_config ''max_volume'') (\<lambda>max_volume.
      let limit = fst (ParseInt max_volume 64) in
      if noOfVolumes \<ge> limit then
        ret (0, Some (Err (''['' @ PVName options @ ''] Limit exceeded for volume creation '' @ itoa noOfVolumes)))
      else
        bind (GetPoolID pool) (\<lambda>(poolId, err).
        if err \<noteq> None then ret (0, err)
        else
          bind (read_config ''ssd_enabled'') (\<lambda>ssdEnabled.
          let ssd = fst (ParseBool (if ssdEnabled = '''' then show_bool True else ssdEnabled));
              requestBytes = pvc_storage (PVC options) in
          bind (rest POST ''api/rest/volumes'' '''' (Some (JObj
            [(''pool_id'', JNum poolId 0), (''name'', JStr name), (''provtype'', JStr provtype),
             (''ssd_enabled'', JBool ssd), (''size'', JNum requestBytes 0)]))) (\<lambda>resCreate.
          checked (\<lambda>e. (0, e)) msg resCreate (\<lambda>resultpostcreate _.
            bind (as_obj resultpostcreate) (\<lambda>result.
            bind (as_int 64 (jget result ''id'')) (\<lambda>volumeId. ret (volumeId, None)))))))))))"

definition iscsi_volDestroy :: "int \<Rightarrow> string \<Rightarrow> err prog" where
  "iscsi_volDestroy volId vol =
     bind (rest DELETE (''api/rest/volumes/'' @ itoa volId) ''approved=true'' None) (\<lambda>resdel.
     checked (\<lambda>e. e) (''['' @ vol @ ''] error while volume deleting '') resdel (\<lambda>resultdelvolumes _.
       if resultdelvolumes = JNull then ret (Some (Err ''Result field empty in volDestroy ''))
       else ret None))"

fun iscsi_unmapHosts :: "string list \<Rightarrow> int \<Rightarrow> unit prog" where
  "iscsi_unmapHosts [] volumeId = ret ()"
| "iscsi_unmapHosts (hostname # hosts) volumeId =
     bind (iscsi_getHostId hostname) (\<lambda>(hostid, _).
     seq (UnMap hostid volumeId) (iscsi_unmapHosts hosts volumeId))"

text \<open>
  \<open>createVolume\<close>: the volume name, LUN, volume id and error. Each step that succeeds registers
  a deferred function that undoes it when the function ends with an error.
  \<open>iscsi_afterCreate\<close> is the part after the first of them, once the volume exists.
\<close>

type_synonym created = "string \<times> int \<times> int \<times> err"

definition iscsi_afterCreate :: "string \<Rightarrow> volume_options \<Rightarrow> string list \<Rightarrow> string \<Rightarrow> int \<Rightarrow> created prog" where
  "iscsi_afterCreate kubeVersion options hostList1 vol volumeId =
     (let tag = ''['' @ PVName options @ '']'' in
      bind (iscsi_mapVolumeToHost hostList1 volumeId) (\<lambda>(lun, err).
      if err \<noteq> None then ret (vol, lun, volumeId, err)
      else if lun = -1 then
        ret (vol, lun, volumeId, Some (Err (tag @ '' volume not mapped to any host'')))
      else
        deferred (\<lambda>p. (vol, lun, volumeId, Some (Err (''error while AttachMetadata volume '' @ p))))
          (\<lambda>(_, _, vid, e). if e \<noteq> None \<and> vid \<noteq> 0 then iscsi_unmapHosts hostList1 vid else ret ())
          (bind (read_config ''fsType'') (\<lambda>fsType.
           bind (AttachMetadata volumeId options kubeVersion fsType) (\<lambda>err.
           if err \<noteq> None then ret (vol, lun, volumeId, err)
           else
             deferred (\<lambda>p. (vol, lun, volumeId, Some (Err (tag @ '' error while creating volume '' @ p))))
               (\<lambda>(_, _, vid, e). if e \<noteq> None \<and> vid \<noteq> 0
                  then seq (DetachMetadata vid (PVName options)) (ret ()) else ret ())
               (ret (vol, lun, volumeId, None)))))))"

definition iscsi_createVolume :: "string \<Rightarrow> volume_options \<Rightarrow> node list \<Rightarrow> created prog" where
  "iscsi_createVolume kubeVersion options nodeList =
     (let vol = iscsi_getVolumeName options; tag = ''['' @ PVName options @ '']'' in
      guard None (\<lambda>e. (vol, 0, 0, e)) (tag @ '' Error while creating volume '') (
      bind (read_config ''pool_name'') (\<lambda>pool.
      bind (GetHostList nodeList) (\<lambda>(hostList1, err).
      if err \<noteq> None then ret (vol, 0, 0, err)
      else
        bind (iscsi_volCreate vol pool options) (\<lambda>(volumeId, err).
        case err of
          Some er \<Rightarrow> ret (vol, 0, volumeId, Some (Err (vol @ '' '' @ Error er)))
        | None \<Rightarrow>
            deferred (\<lambda>p. (vol, 0, volumeId, Some (Err (tag @ '' error while mapVolumeToHost volume '' @ p))))
              (\<lambda>(_, _, vid, e). if e \<noteq> None \<and> vid \<noteq> 0
                 then seq (iscsi_volDestroy vid (PVName options)) (ret ()) else ret ())
              (iscsi_afterCreate kubeVersion options hostList1 vol volumeId))))))"

section \<open>Network spaces\<close>

fun iqnLoop :: "json list \<Rightarrow> string \<Rightarrow> string prog" where
  "iqnLoop [] iqnNo = ret iqnNo"
| "iqnLoop (networkspace # rest') iqnNo =
     bind (as_obj networkspace) (\<lambda>result.
     bind (as_obj (jget result ''properties'')) (\<lambda>properties.
       iqnLoop rest' (sprint (jget properties ''iscsi_iqn''))))"

definition iscsi_getTargetIQN :: "string \<Rightarrow> (string \<times> err) prog" where
  "iscsi_getTargetIQN networkSpaceName =
     bind (rest GET ''api/rest/network/spaces'' (''name='' @ networkSpaceName) None) (\<lambda>resFC.
     checked (\<lambda>e. ('''', e)) ''error while getting target iqn '' resFC (\<lambda>resNw err.
       if err \<noteq> None then ret ('''', err)
       else bind (as_arr resNw) (\<lambda>arrayOfresult.
            bind (iqnLoop arrayOfresult '''') (\<lambda>iqnNo. ret (iqnNo, None)))))"

fun ipLoop :: "json list \<Rightarrow> string list \<Rightarrow> string list prog" where
  "ipLoop [] ipList = ret ipList"
| "ipLoop (ip # ips) ipList =
     bind (as_obj ip) (\<lambda>ipAddresses. ipLoop ips (ipList @ [sprint (jget ipAddresses ''ip_address'')]))"

definition iscsi_getIPndIQNForNetworkSpace :: "string \<Rightarrow> (string \<times> string list \<times> err) prog" where
  "iscsi_getIPndIQNForNetworkSpace networkSpaces =
     (let msg = ''error while getting ip list of networkspace''; netSpaces = split_on CHR '','' networkSpaces in
      guard None (\<lambda>e. ('''', [], e)) msg (
      bind (look networkspacesUsed) (\<lambda>used.
      bind (index netSpaces (go_rem used (int (length netSpaces)))) (\<lambda>space.
      let name = trim_spaces space in
      if name = '''' then ret ('''', [], Some (Err ''provided empty networkspace name ''))
      else
        bind (iscsi_getTargetIQN name) (\<lambda>(iqn, err).
        if err \<noteq> None then ret ('''', [], err)
        else
          bind (rest GET ''api/rest/network/spaces'' (''name='' @ name) None) (\<lambda>response.
          checked (\<lambda>e. ('''', [], e)) msg response (\<lambda>result err.
            if err \<noteq> None then ret ('''', [], err)
            else
              bind (as_arr result) (\<lambda>arrayOfResult.
              bind (index arrayOfResult 0) (\<lambda>x. bind (as_obj x) (\<lambda>firstIndex.
              bind (as_arr (jget firstIndex ''ips'')) (\<lambda>arrayOfIps.
              bind (ipLoop arrayOfIps []) (\<lambda>ipList.
              seq (change (\<lambda>w. w\<lparr>networkspacesUsed := int64 (networkspacesUsed w + 1)\<rparr>))
                  (ret (iqn, ipList, None))))))))))))))"

section \<open>Provision\<close>

definition iscsi_annotations :: "string \<Rightarrow> int \<Rightarrow> int \<Rightarrow> strmap" where
  "iscsi_annotations vol volumeID lun =
     [(annCreatedBy, createdBy), (''volume_name'', vol), (''volumeId'', itoa volumeID), (''lun'', itoa lun)]"

definition iscsi_pv :: "volume_options \<Rightarrow> strmap \<Rightarrow> iscsi_source \<Rightarrow> pv" where
  "iscsi_pv options annotations src =
     \<lparr>pv_name = PVName options, pv_namespace = '''', pv_uid = '''', pv_annotations = Some annotations,
      pv_reclaimPolicy = vo_reclaimPolicy options, pv_accessModes = pvc_accessModes (PVC options),
      pv_capacity = pvc_storage (PVC options), pv_storageClassName = '''', pv_claimRef = None,
      pv_phase = '''', pv_fc = None, pv_iscsi = Some src, pv_nfs = None\<rparr>"

definition iscsi_Provision :: "string \<Rightarrow> volume_options \<Rightarrow> node list \<Rightarrow> (pv option \<times> err) prog" where
  "iscsi_Provision kubeVersion options nodeList =
     guard None (\<lambda>e. (None, e)) ''error while provision volume '' (
     if \<not> AccessModesContainedInAll iscsi_getAccessModes (pvc_accessModes (PVC options)) then
       ret (None, Some (Err (''['' @ PVName options @ ''] invalid AccessModes '' @
         show_modes (pvc_accessModes (PVC options)) @ '': only AccessModes '' @
         show_modes iscsi_getAccessModes @ '' are supported'')))
     else
       seq (merge_config (Parameters options))
      (bind (read_config ''pool_name'') (\<lambda>pool_name.
       bind (read_config ''iscsi_networkspaces'') (\<lambda>spaces.
       bind (OneTimeValidation pool_name spaces) (\<lambda>(validnwList, err).
       if err \<noteq> None then ret (None, err)
       else
         seq (write_config ''iscsi_networkspaces'' validnwList)
        (bind (read_config ''iscsi_networkspaces'') (\<lambda>spaces.
         bind (iscsi_getIPndIQNForNetworkSpace spaces) (\<lambda>(iqn, IPList, err).
         if err \<noteq> None then ret (None, err)
         else
           bind (iscsi_createVolume kubeVersion options nodeList) (\<lambda>(vol, lun, volumeID, err).
           if err \<noteq> None then ret (None, err)
           else
             bind (index IPList 0) (\<lambda>targetPortal.
             bind (read_config ''readonly'') (\<lambda>readonly.
             bind (read_config ''fsType'') (\<lambda>fsType.
             ret (Some (iscsi_pv options (iscsi_annotations vol volumeID lun)
               \<lparr>is_targetPortal = targetPortal, is_portals = IPList, is_iqn = iqn, is_interface = ''default'',
                is_lun = lun, is_readOnly = iscsi_getReadOnly readonly, is_fsType = fsType\<rparr>), None)))))))))))))"

section \<open>Delete\<close>

definition iscsi_provisioned :: "pv \<Rightarrow> bool \<times> err" where
  "iscsi_provisioned volume =
     (case mget (annotations_of (pv_annotations volume)) annCreatedBy of
        None \<Rightarrow> (False, Some (Err (''['' @ pv_name volume @ ''] PV doesn't have an annotation '' @ annCreatedBy)))
      | Some provisionerID \<Rightarrow> (provisionerID = createdBy, None))"

definition not_ours_text :: "pv \<Rightarrow> string" where
  "not_ours_text volume =
     ''this provisioner id '' @ createdBy @ '' didn't provision volume '' @ quote_string (pv_name volume) @
     '' and so can't delete it; id '' @ mstr (annotations_of (pv_annotations volume)) annCreatedBy @ '' did & can''"

text \<open>The unmapping loop of \<open>Delete\<close>: it stops at the first error of \<open>UnMap\<close>.\<close>

fun iscsi_deleteUnmap :: "pv \<Rightarrow> string list \<Rightarrow> int \<Rightarrow> err prog" where
  "iscsi_deleteUnmap volume [] volId = ret None"
| "iscsi_deleteUnmap volume (name # names) volId =
     bind (iscsi_getHostId name) (\<lambda>(hostid, _).
     bind (UnMap hostid volId) (\<lambda>err.
       case err of
         Some er \<Rightarrow> ret (Some (Err (pv_name volume @ Error er)))
       | None \<Rightarrow> iscsi_deleteUnmap volume names volId))"

definition parse_error_text :: "string \<Rightarrow> string \<Rightarrow> parse_error \<Rightarrow> string" where
  "parse_error_text fn s e =
     ''strconv.'' @ fn @ '': parsing '' @ quote_string s @ '': '' @
     (case e of ErrSyntax \<Rightarrow> ''invalid syntax'' | ErrRange \<Rightarrow> ''value out of range'')"

definition iscsi_Delete :: "pv \<Rightarrow> node list \<Rightarrow> err prog" where
  "iscsi_Delete volume nodeList =
     guard None (\<lambda>e. e) ''error while deleting volume '' (
     case iscsi_provisioned volume of
       (_, Some er) \<Rightarrow> ret (Some (Err (''error determining if this provisioner was the one to provision volume '' @
           quote_string (pv_name volume) @ '': '' @ Error er)))
     | (provisioned, None) \<Rightarrow>
         if \<not> provisioned then ret (Some (IgnoredError (not_ours_text volume)))
         else
           let ann = annotations_of (pv_annotations volume); idStr = mstr ann ''volumeId'' in
           if idStr = '''' then ret (Some (Err ''volumeid is empty''))
           else
             (case ParseInt idStr 64 of
                (_, Some pe) \<Rightarrow> ret (Some (Err (pv_name volume @ parse_error_text ''ParseInt'' idStr pe)))
              | (volId, None) \<Rightarrow>
                  bind (DetachMetadata volId (pv_name volume)) (\<lambda>err.
                  case err of
                    Some er \<Rightarrow> ret (Some (Err (pv_name volume @ Error er)))
                  | None \<Rightarrow>
                      bind (GetHostList nodeList) (\<lambda>(hostList1, _).
                      bind (iscsi_deleteUnmap volume hostList1 volId) (\<lambda>err.
                      if err \<noteq> None then ret err
                      else iscsi_volDestroy volId (mstr ann ''volume_name''))))))"

section \<open>UpdateMapping\<close>

fun iscsi_mapExisting :: "int \<Rightarrow> int \<Rightarrow> string list \<Rightarrow> unit prog" where
  "iscsi_mapExisting volID lunNumber [] = ret ()"
| "iscsi_mapExisting volID lunNumber (hostName # hosts) =
     bind (iscsi_getHostId hostName) (\<lambda>(hostID, _).
     bind (rest POST (''api/rest/hosts/'' @ itoa hostID @ ''/luns'') ''approved=true''
       (Some (JObj [(''volume_id'', JNum volID 0), (''lun'', JNum lunNumber 0)]))) (\<lambda>restPost.
     bind (lift (CheckResponse restPost)) (\<lambda>_.
       iscsi_mapExisting volID lunNumber hosts)))"

fun iscsi_mapPVs :: "pv list \<Rightarrow> string list \<Rightarrow> unit prog" where
  "iscsi_mapPVs [] hostList = ret ()"
| "iscsi_mapPVs (p # pvs) hostList =
     (let ann = annotations_of (pv_annotations p); volumeid = mstr ann ''volumeId'';
          lunNumber = fst (ParseInt (mstr ann ''lun'') 32) in
      if pv_iscsi p \<noteq> None \<and> volumeid \<noteq> '''' then
        seq (iscsi_mapExisting (fst (ParseInt volumeid 64)) lunNumber hostList) (iscsi_mapPVs pvs hostList)
      else iscsi_mapPVs pvs hostList)"

fun iscsi_unmapPVs :: "pv list \<Rightarrow> int \<Rightarrow> unit prog" where
  "iscsi_unmapPVs [] hostID = ret ()"
| "iscsi_unmapPVs (p # pvs) hostID =
     (let volumeid = mstr (annotations_of (pv_annotations p)) ''volumeId'' in
      if pv_iscsi p \<noteq> None \<and> volumeid \<noteq> '''' then
        seq (UnMap hostID (fst (ParseInt volumeid 64))) (iscsi_unmapPVs pvs hostID)
      else iscsi_unmapPVs pvs hostID)"

fun iscsi_unmapNodes :: "node list \<Rightarrow> pv list \<Rightarrow> unit prog" where
  "iscsi_unmapNodes [] pvList = ret ()"
| "iscsi_unmapNodes (n # nodes) pvList =
     bind (iscsi_getHostId (node_name n)) (\<lambda>(hostID, _).
     seq (iscsi_unmapPVs pvList hostID) (iscsi_unmapNodes nodes pvList))"

definition iscsi_UpdateMapping :: "pv list \<Rightarrow> node list \<Rightarrow> bool \<Rightarrow> bool \<Rightarrow> node list \<Rightarrow> err prog" where
  "iscsi_UpdateMapping pvList nodeList nodeAddedFlag nodeDeletedFlag deletedNodes =
     bind (GetHostList nodeList) (\<lambda>(hostList, err).
     if err \<noteq> None then ret err
     else
       seq (iscsi_mapPVs pvList hostList)
      (seq (if nodeDeletedFlag then iscsi_unmapNodes deletedNodes pvList else ret ())
      (ret None)))"

section \<open>What the functions ask for, and that they return\<close>

lemma issues_iscsi_getHostId [issues_intro]: "issues (is_rest M) (iscsi_getHostId n)"
  unfolding iscsi_getHostId_def by (intro issues_intro) auto

lemma issues_iscsi_mapping [issues_intro]: "POST \<in> M \<Longrightarrow> issues (is_rest M) (iscsi_mapping h v l)"
  unfolding iscsi_mapping_def Let_def by (intro issues_intro) auto

lemma issues_iscsi_mapLoop [issues_intro]: "POST \<in> M \<Longrightarrow> issues (is_rest M) (iscsi_mapLoop hs v l)"
proof (induction hs arbitrary: l)
  case (Cons h hs)
  then show ?case unfolding iscsi_mapLoop.simps by (intro issues_intro Cons.IH)
qed (simp only: iscsi_mapLoop.simps issues_ret)

lemma issues_iscsi_mapVolumeToHost [issues_intro]: "POST \<in> M \<Longrightarrow> issues (is_rest M) (iscsi_mapVolumeToHost hs v)"
  unfolding iscsi_mapVolumeToHost_def by (intro issues_intro)

lemma issues_iscsi_getNumberOfVolumes [issues_intro]: "issues (is_rest M) iscsi_getNumberOfVolumes"
  unfolding iscsi_getNumberOfVolumes_def Let_def by (intro issues_intro) auto

lemma issues_iscsi_volCreate [issues_intro]: "POST \<in> M \<Longrightarrow> issues (is_rest M) (iscsi_volCreate n p opt)"
  unfolding iscsi_volCreate_def Let_def by (intro issues_intro) auto

lemma issues_iscsi_volDestroy [issues_intro]: "DELETE \<in> M \<Longrightarrow> issues (is_rest M) (iscsi_volDestroy v n)"
  unfolding iscsi_volDestroy_def Let_def by (intro issues_intro) auto

lemma issues_iscsi_unmapHosts [issues_intro]: "DELETE \<in> M \<Longrightarrow> issues (is_rest M) (iscsi_unmapHosts hs v)"
  by (induction hs v rule: iscsi_unmapHosts.induct) (auto simp only: iscsi_unmapHosts.simps intro!: issues_intro)

lemma issues_iscsi_afterCreate [issues_intro]:
  "{POST, PUT, DELETE} \<subseteq> M \<Longrightarrow> issues (is_rest M) (iscsi_afterCreate kv opt hs vol v)"
  unfolding iscsi_afterCreate_def Let_def by (intro issues_intro) auto

lemma issues_iscsi_createVolume [issues_intro]:
  "{POST, PUT, DELETE} \<subseteq> M \<Longrightarrow> issues (is_rest M) (iscsi_createVolume kv opt ns)"
  unfolding iscsi_createVolume_def Let_def by (intro issues_intro) auto

lemma issues_iqnLoop [issues_intro]: "issues P (iqnLoop rs s)"
  by (induction rs s rule: iqnLoop.induct) (auto simp only: iqnLoop.simps intro!: issues_intro)

lemma issues_iscsi_getTargetIQN [issues_intro]: "issues (is_rest M) (iscsi_getTargetIQN n)"
  unfolding iscsi_getTargetIQN_def by (intro issues_intro) auto

lemma issues_ipLoop [issues_intro]: "issues P (ipLoop rs s)"
  by (induction rs s rule: ipLoop.induct) (auto simp only: ipLoop.simps intro!: issues_intro)

lemma issues_iscsi_getIPndIQN [issues_intro]: "issues (is_rest M) (iscsi_getIPndIQNForNetworkSpace n)"
  unfolding iscsi_getIPndIQNForNetworkSpace_def Let_def by (intro issues_intro) auto

lemma issues_iscsi_Provision [issues_intro]:
  "{POST, PUT, DELETE} \<subseteq> M \<Longrightarrow> issues (is_rest M) (iscsi_Provision kv opt ns)"
  unfolding iscsi_Provision_def Let_def by (intro issues_intro) auto

lemma issues_iscsi_deleteUnmap [issues_intro]: "DELETE \<in> M \<Longrightarrow> issues (is_rest M) (iscsi_deleteUnmap p hs v)"
  by (induction p hs v rule: iscsi_deleteUnmap.induct) (auto simp only: iscsi_deleteUnmap.simps intro!: issues_intro)

lemma issues_case_parse_error [issues_intro]:
  "issues P a \<Longrightarrow> issues P b \<Longrightarrow> issues P (case x of ErrSyntax \<Rightarrow> a | ErrRange \<Rightarrow> b)"
  by (cases x) simp_all

lemma issues_iscsi_Delete [issues_intro]: "DELETE \<in> M \<Longrightarrow> issues (is_rest M) (iscsi_Delete p ns)"
  unfolding iscsi_Delete_def Let_def by (intro issues_intro)

lemma iscsi_returns [returns_intro]:
  "returns (iscsi_getHostId n)" "returns (iscsi_mapping h v l)" "returns (iscsi_mapVolumeToHost hs v)"
  "returns iscsi_getNumberOfVolumes" "returns (iscsi_volDestroy v n)" "returns (iscsi_getTargetIQN n)"
  "returns (iscsi_getIPndIQNForNetworkSpace n)" "returns (iscsi_createVolume kv opt ns)"
  "returns (iscsi_Provision kv opt ns)" "returns (iscsi_Delete p ns)" "returns (iscsi_volCreate n pool opt)"
  unfolding iscsi_getHostId_def iscsi_mapping_def iscsi_mapVolumeToHost_def iscsi_getNumberOfVolumes_def
    iscsi_volDestroy_def iscsi_getTargetIQN_def iscsi_getIPndIQNForNetworkSpace_def iscsi_createVolume_def
    iscsi_Provision_def iscsi_Delete_def iscsi_volCreate_def Let_def
  by (intro returns_intro)+

lemma iscsi_unmapHosts_returns [returns_intro]: "returns (iscsi_unmapHosts hs v)"
proof (induction hs)
  case (Cons h hs)
  show ?case unfolding iscsi_unmapHosts.simps by (intro returns_intro Cons.IH)
qed (simp only: iscsi_unmapHosts.simps returns_intro)

lemma checked_id:
  assumes "checked (\<lambda>e. (0, e)) msg r (\<lambda>v _. bind (as_obj v) (\<lambda>result.
      bind (as_int 64 (jget result ''id'')) (\<lambda>i. ret (i, None)))) e w = (Done (i, er), w')"
  shows "w' = w \<and> (er \<noteq> None \<longrightarrow> i = 0) \<and>
    (er = None \<longrightarrow> (\<exists>kvs m k. accepted r (JObj kvs) \<and> jget kvs ''id'' = JNum m k \<and> i = float_int 64 m k))"
proof (cases r)
  case (NilResponse s)
  then show ?thesis using assms by (auto simp: checked_eq)
next
  case (Response res x)
  obtain v err where C: "CheckResponse r = Done (v, err)"
    using CheckResponse_panics [of r] Response by (cases "CheckResponse r") auto
  show ?thesis
  proof (cases err)
    case None
    then have "accepted r v" using C CheckResponse_accepts by blast
    then show ?thesis using assms C None Response
      by (cases v; simp add: checked_eq guard_eq_Done bind_eq_Done bind_eq_Panic as_obj_def)
        (auto simp: as_int_def split: json.splits)
  next
    case (Some y)
    then have "v = JNull" using C CheckResponse_rejects by blast
    then show ?thesis using assms C Some Response by (auto simp: checked_eq guard_eq_Done bind_eq_Panic bind_eq_Done)
  qed
qed

lemma iscsi_made:
  assumes "iscsi_getNumberOfVolumes e w = (Done x, w0)" "GetPoolID p e w0 = (Done y, w1)"
    "rest POST url q b e w1 = (Done r, w2)" "accepted r (JObj kvs)" "jget kvs ''id'' = JNum m k" "float_int 64 m k = i"
  shows "made e w w2 url i"
proof -
  have "prefix (history w) (history w1)"
    using issues_grows [OF issues_iscsi_getNumberOfVolumes [of "{}"] assms(1)]
      issues_grows [OF issues_GetPoolID [of "{}"] assms(2)] by (rule prefix_order.trans)
  then show ?thesis using made_by_post [OF assms(3-6)] made_earlier by blast
qed

lemma iscsi_volCreate_Done:
  assumes "iscsi_volCreate n p opt e w = (Done (i, er), w')"
  shows "(er \<noteq> None \<longrightarrow> i = 0) \<and> (er = None \<longrightarrow> made e w w' ''api/rest/volumes'' i)"
  using assms
  by (auto simp: iscsi_volCreate_def Let_def bind_eq_Done split: if_splits prod.splits
        dest!: checked_id intro: iscsi_made)

section \<open>Creating a volume and undoing it\<close>

lemma iscsi_volDestroy_asks:
  "iscsi_volDestroy v n e w = (r, w') \<Longrightarrow>
     ended DELETE (''api/rest/volumes/'' @ itoa v) w w'"
  unfolding iscsi_volDestroy_def by (erule rest_then) (intro issues_intro)

lemma iscsi_undo:
  assumes "deferred results (\<lambda>(_, _, vid, e). if e \<noteq> None \<and> vid \<noteq> 0
        then seq (iscsi_volDestroy vid n) (ret ()) else ret ()) m e w = (Done (vol, lun, vid, er), w')"
  shows "\<exists>w1. on_panic (\<lambda>p. ret (results p)) m e w = (Done (vol, lun, vid, er), w1) \<and>
     (er = None \<or> vid = 0 \<longrightarrow> w' = w1) \<and>
     (er \<noteq> None \<and> vid \<noteq> 0 \<longrightarrow> ended DELETE (''api/rest/volumes/'' @ itoa vid) w1 w')"
  using assms iscsi_volDestroy_asks
  by (fastforce simp: deferred_eq_Done bind_eq_Done split: if_splits)


lemma iscsi_afterCreate_Done:
  assumes "on_panic (\<lambda>p. ret (vol, 0, vid, Some (Err (f p)))) (iscsi_afterCreate kv opt hs vol vid) e w =
      (Done (vol', lun, vid', er), w')"
  shows "vol' = vol \<and> vid' = vid \<and> (er = None \<longrightarrow> lun \<noteq> -1 \<and>
     (\<exists>w1 fs. iscsi_mapVolumeToHost hs vid e w = (Done (lun, None), w1) \<and> AttachMetadata vid opt kv fs e w1 = (Done None, w')))"
  using assms
  by (fastforce simp: iscsi_afterCreate_def Let_def bind_eq_Done deferred_eq_Done on_panic_eq_Done
    split: if_splits prod.splits)

lemma iscsi_afterCreate_history:
  assumes "on_panic (\<lambda>p. ret (vol, 0, vid, Some (Err (f p)))) (iscsi_afterCreate kv opt hs vol vid) e w =
      (Done (vol', lun, vid', None), w')"
  shows "did (is_rest {POST, PUT}) w w' \<and> ended PUT (''api/rest/metadata/'' @ itoa vid) w w'"
proof -
  obtain w1 fs where M: "iscsi_mapVolumeToHost hs vid e w = (Done (lun, None), w1)"
      "AttachMetadata vid opt kv fs e w1 = (Done None, w')"
    using iscsi_afterCreate_Done [OF assms] by blast
  have "did (is_rest {POST, PUT}) w w1" by (rule issues_did [OF issues_iscsi_mapVolumeToHost M(1)]) simp
  moreover have "did (is_rest {POST, PUT}) w1 w'" by (rule issues_did [OF issues_AttachMetadata M(2)]) simp
  ultimately show ?thesis using AttachMetadata_asks [OF M(2)] by (blast intro: did_trans ended_later)
qed

text \<open>How \<open>createVolume\<close> can end.\<close>

lemma iscsi_createVolume_steps:
  assumes "iscsi_createVolume kv opt ns e w = (Done (vol, lun, vid, er), w')"
  obtains (nothing) "vid = 0" "er \<noteq> None" "vol = PVName opt"
    "did (is_rest {POST}) w w'"
  | (undone) w1 w2 where "made e w w1 ''api/rest/volumes'' vid" "prefix (history w1) (history w2)"
    "er \<noteq> None" "vol = PVName opt"
    "if vid = 0 then w' = w2 else ended DELETE (''api/rest/volumes/'' @ itoa vid) w2 w'"
  | (created) w1 hs f where "made e w w1 ''api/rest/volumes'' vid" "er = None" "vol = PVName opt"
    "did (is_rest {POST}) w w1"
    "on_panic (\<lambda>p. ret (vol, 0, vid, Some (Err (f p)))) (iscsi_afterCreate kv opt hs vol vid) e w1 =
      (Done (vol, lun, vid, None), w')"
proof -
  show thesis
  proof (rule host_volume_cases [OF assms [unfolded iscsi_createVolume_def Let_def iscsi_getVolumeName_def]
      iscsi_returns(11) issues_iscsi_volCreate iscsi_volCreate_Done], goal_cases)
    case (6 hs i w1)
    from iscsi_undo [OF 6(3)] obtain f w2 where U: "on_panic (\<lambda>p. ret (PVName opt, 0, i, Some (Err (f p))))
          (iscsi_afterCreate kv opt hs (PVName opt) i) e w1 = (Done (vol, lun, vid, er), w2)"
        "er = None \<or> vid = 0 \<longrightarrow> w' = w2"
        "er \<noteq> None \<and> vid \<noteq> 0 \<longrightarrow> ended DELETE (''api/rest/volumes/'' @ itoa vid) w2 w'"
      by (elim exE conjE) (rule that)
    have eq: "vol = PVName opt" "vid = i" using iscsi_afterCreate_Done [OF U(1)] by auto
    have "prefix (history w1) (history w2)"
      by (rule issues_grows [OF issues_on_panic [OF issues_iscsi_afterCreate [OF order_refl] issues_ret] U(1)])
    then show ?case using that(2) [of w1 w2] that(3) [of w1 f hs] 6(1,2) U eq by (cases er) auto
  qed (intro returns_intro | force intro: that(1))+
qed

lemma iscsi_createVolume_cases:
  assumes run: "iscsi_createVolume kv opt ns e w = (Done (vol, lun, vid, er), w')"
  obtains (nothing) "vid = 0" "er \<noteq> None" "vol = PVName opt" "did (is_rest {POST}) w w'"
  | (undone) "er \<noteq> None" "vol = PVName opt" "made e w w' ''api/rest/volumes'' vid"
      "vid = 0 \<or> ended DELETE (''api/rest/volumes/'' @ itoa vid) w w'"
  | (created) "er = None" "vol = PVName opt" "made e w w' ''api/rest/volumes'' vid"
      "did (is_rest {POST, PUT}) w w'" "ended PUT (''api/rest/metadata/'' @ itoa vid) w w'"
proof (cases rule: iscsi_createVolume_steps [OF run])
  case 1
  then show thesis by (rule nothing)
next
  case (2 w1 w2)
  have p: "prefix (history w1) (history w')" "did (\<lambda>_. True) w w2"
    using 2 by (auto simp: made_def prefix_def did_def ended_def split: if_splits)
  then have "vid = 0 \<or> ended DELETE (''api/rest/volumes/'' @ itoa vid) w w'"
    using 2(5) ended_later [OF p(2)] by (auto split: if_splits)
  then show thesis by (rule undone [OF 2(3,4) made_mono [OF 2(1) p(1)]])
next
  case (3 w1 hs f)
  have d: "did (is_rest {POST, PUT}) w w1" by (rule did_rest_mono [OF 3(4)]) auto
  have h: "did (is_rest {POST, PUT}) w1 w'" "ended PUT (''api/rest/metadata/'' @ itoa vid) w1 w'"
    using iscsi_afterCreate_history [OF 3(5)] by auto
  show thesis
    by (rule created [OF 3(2,3) made_mono [OF 3(1) did_prefix [OF h(1)]] did_trans [OF d h(1)] ended_later [OF d h(2)]])
qed

text \<open>
  C4. Rollback of the iSCSI provisioner's \<open>createVolume\<close>, for every behaviour of InfiniBox: it
  always returns; when it fails after a volume was created, its last request deletes that
  volume; when it fails without having created one (the code takes the id 0 for that) it has
  issued no deletion; and when it succeeds the volume was created by an accepted POST, its last
  request attached the metadata, and nothing was deleted.
\<close>

theorem iscsi_createVolume_rolls_back:
  "\<exists>lun vid er w'. iscsi_createVolume kv opt ns e w = (Done (PVName opt, lun, vid, er), w') \<and>
     (case er of
        Some _ \<Rightarrow>
          if vid \<noteq> 0
          then made e w w' ''api/rest/volumes'' vid \<and> ended DELETE (''api/rest/volumes/'' @ itoa vid) w w'
          else did (is_rest {POST}) w w' \<or> made e w w' ''api/rest/volumes'' 0
      | None \<Rightarrow> made e w w' ''api/rest/volumes'' vid \<and> did (is_rest {POST, PUT}) w w' \<and>
          ended PUT (''api/rest/metadata/'' @ itoa vid) w w')"
proof -
  obtain vol lun vid er w' where run: "iscsi_createVolume kv opt ns e w = (Done (vol, lun, vid, er), w')"
    using returnsD [OF iscsi_returns(8)] by (metis prod_cases4)
  show ?thesis
    by (cases rule: iscsi_createVolume_cases [OF run]; intro exI [of _ lun] exI [of _ vid] exI [of _ er] exI [of _ w'])
      (use run in auto)
qed

section \<open>Mapping\<close>

text \<open>
  C32. A mapping succeeds exactly when InfiniBox accepted the request and reported a LUN: in
  particular an answer with the error \<open>MAPPING_ALREADY_EXISTS\<close>, which the source means to
  ignore, makes \<open>mapping\<close> fail, with that error.
\<close>

theorem iscsi_mapping_result:
  "\<exists>r w1. rest POST (''api/rest/hosts/'' @ itoa h @ ''/luns'') ''approved=true''
       (Some (JObj ([(''volume_id'', JNum v 0)] @ (if l > -1 then [(''lun'', JNum l 0)] else [])))) e w = (Done r, w1) \<and>
     (case CheckResponse r of
        Done (JObj kvs, None) \<Rightarrow>
          (case jget kvs ''lun'' of
             JNum m k \<Rightarrow> iscsi_mapping h v l e w = (Done (float_int 32 m k, None), w1)
           | _ \<Rightarrow> \<exists>s. iscsi_mapping h v l e w = (Done (0, Some (Err s)), w1))
      | Done (_, Some er) \<Rightarrow> iscsi_mapping h v l e w = (Done (0, Some er), w1)
      | _ \<Rightarrow> \<exists>s. iscsi_mapping h v l e w = (Done (0, Some (Err s)), w1))"
proof -
  obtain r w1 where R: "rest POST (''api/rest/hosts/'' @ itoa h @ ''/luns'') ''approved=true''
       (Some (JObj ([(''volume_id'', JNum v 0)] @ (if l > -1 then [(''lun'', JNum l 0)] else [])))) e w = (Done r, w1)"
    using rest_returns by blast
  have M: "iscsi_mapping h v l e w = checked (\<lambda>e. (0, e)) ''error while mapping volume to host '' r (\<lambda>resultPost err.
        if (case err of None \<Rightarrow> False | Some er \<Rightarrow> \<not> contains (Error er) ''MAPPING_ALREADY_EXISTS'')
        then ret (0, err)
        else bind (as_obj resultPost) (\<lambda>lunofVolume.
             bind (as_int 32 (jget lunofVolume ''lun'')) (\<lambda>l. ret (l, None)))) e w1"
    using R by (simp add: iscsi_mapping_def Let_def del: append.simps append_Cons)
  show ?thesis
  proof (cases r)
    case (NilResponse s)
    then show ?thesis using R M by (auto simp: checked_eq CheckResponse_def)
  next
    case (Response res x)
    obtain u err where C: "CheckResponse r = Done (u, err)"
      using CheckResponse_panics [of r] Response by (cases "CheckResponse r") auto
    show ?thesis
    proof (cases err)
      case None
      then show ?thesis using R M C Response
        by (cases u; simp add: checked_eq as_obj_def) (auto simp: as_int_def split: json.splits)
    next
      case (Some y)
      then have "u = JNull" using C CheckResponse_rejects by blast
      then show ?thesis using R M C Response Some by (auto simp: checked_eq)
    qed
  qed
qed

section \<open>The outcomes of Provision\<close>

lemma iscsi_Provision_cases:
  assumes "iscsi_Provision kv opt ns e w = (Done (p, er), w')"
  obtains (refused) "p = None" "er \<noteq> None" "did (is_rest {}) w w'"
  | (failed) w1 vol lun vid x where "p = None" "er = Some x" "did (is_rest {}) w w1"
      "iscsi_createVolume kv opt ns e w1 = (Done (vol, lun, vid, Some x), w')"
  | (leaked) w1 vol lun vid where "p = None" "er = Some (Err (''error while provision volume '' @ index_out_of_range))"
      "did (is_rest {}) w w1" "iscsi_createVolume kv opt ns e w1 = (Done (vol, lun, vid, None), w')"
  | (provisioned) w1 vol lun vid src where "er = None" "did (is_rest {}) w w1"
      "iscsi_createVolume kv opt ns e w1 = (Done (vol, lun, vid, None), w')"
      "p = Some (iscsi_pv opt (iscsi_annotations vol vid lun) src)" "is_lun src = lun"
      "is_portals src \<noteq> []" "is_targetPortal src = hd (is_portals src)"
proof (cases "AccessModesContainedInAll iscsi_getAccessModes (pvc_accessModes (PVC opt))")
  case False
  then show thesis using assms by (intro refused) (auto simp: iscsi_Provision_def)
next
  case True
  note run = assms [unfolded iscsi_Provision_def eqTrueI [OF True] not_True_eq_False if_False]
  from run show thesis
  proof (cases rule: configured_cases)
    case (refused x)
    then show thesis using that(1) by auto
  next
    case (configured w2)
    show thesis
    proof (rule guard_bind_returns [OF configured(2) [unfolded guard_read_config] iscsi_returns(7)], goal_cases)
      case got: (1 x w3)
      obtain iqn ips er3 where x: "x = (iqn, ips, er3)" by (cases x)
      have d: "did (is_rest {}) w w3" by (rule did_trans [OF configured(1) issues_did [OF issues_iscsi_getIPndIQN got(1)]])
      show thesis
      proof (cases er3)
        case (Some y)
        then show thesis using got(2) d by (intro refused) (auto simp: x)
      next
        case None
        show thesis
        proof (rule guard_bind_returns [OF got(2) [unfolded x prod.case None not_True_eq_False simp_thms if_False] iscsi_returns(8)], goal_cases)
          case made: (1 y w4)
          obtain vol lun vid er4 where y: "y = (vol, lun, vid, er4)" by (cases y)
          show thesis
            using made refused failed [OF _ _ d] leaked [OF _ _ d] provisioned [OF _ d]
            by (cases er4; cases ips) (auto simp: y index_def)
        qed
      qed
    qed
  qed
qed

section \<open>Provision and Delete\<close>

lemma iscsi_volDestroy_ok:
  "iscsi_volDestroy v n e w = (Done None, w') \<Longrightarrow> ended_ok e DELETE (''api/rest/volumes/'' @ itoa v) w w'"
  unfolding iscsi_volDestroy_def by (erule volume_deleted) simp

lemma iscsi_deleteUnmap_returns: "returns (iscsi_deleteUnmap p hs v)"
proof (induction hs)
  case (Cons h hs)
  show ?case unfolding iscsi_deleteUnmap.simps by (intro returns_intro Cons.IH)
qed (simp only: iscsi_deleteUnmap.simps returns_intro)

lemma iscsi_own_Delete:
  assumes "iscsi_provisioned p = (True, None)" "mstr (annotations_of (pv_annotations p)) ''volumeId'' = itoa vid" "fits 64 vid"
  shows "\<exists>r w1 w'. iscsi_Delete p ns e w = (Done r, w') \<and> did (is_rest {DELETE}) w w' \<and>
     ended DELETE (''api/rest/metadata/'' @ itoa vid) w w1 \<and> did (is_rest {DELETE}) w1 w' \<and>
     (r = None \<longrightarrow> ended_ok e DELETE (''api/rest/volumes/'' @ itoa vid) w w')"
proof -
  have P: "ParseInt (itoa vid) 64 = (vid, None)" using assms(3) by (simp add: ParseInt_itoa)
  obtain d w1 where M: "DetachMetadata vid (pv_name p) e w = (Done d, w1)" using returnsD [OF commons_return(2)] by blast
  obtain hs er w2 where G: "GetHostList ns e w1 = (Done (hs, er), w2)" using returnsD [OF commons_return(6)] by fastforce
  obtain u w3 where U: "iscsi_deleteUnmap p hs vid e w2 = (Done u, w3)" using returnsD [OF iscsi_deleteUnmap_returns] by blast
  obtain z w4 where Z: "iscsi_volDestroy vid (mstr (annotations_of (pv_annotations p)) ''volume_name'') e w3 = (Done z, w4)"
    using returnsD [OF iscsi_returns(5)] by blast
  have E: "ended DELETE (''api/rest/metadata/'' @ itoa vid) w w1" by (rule DetachMetadata_asks [OF M])
  have d1: "did (is_rest {DELETE}) w w1" by (rule issues_did [OF issues_DetachMetadata M]) simp
  have d2: "did (is_rest {DELETE}) w1 w3"
    using issues_did [OF issues_GetHostList G] by (rule did_trans) (rule issues_did [OF issues_iscsi_deleteUnmap U], simp)
  have d3: "did (is_rest {DELETE}) w1 w4"
    using d2 by (rule did_trans) (rule issues_did [OF issues_iscsi_volDestroy Z], simp)
  have ok: "z = None \<longrightarrow> ended_ok e DELETE (''api/rest/volumes/'' @ itoa vid) w w4"
    using Z iscsi_volDestroy_ok ended_ok_later did_trans [OF d1 d2] by blast
  note start = iscsi_Delete_def Let_def assms(1,2) P itoa_nonempty
  consider (detach) x where "d = Some x" | (unmap) x where "d = None" "u = Some x" | (delete) "d = None" "u = None"
    by (cases d; cases u) auto
  then show ?thesis
  proof cases
    case (detach x)
    have "iscsi_Delete p ns e w = (Done (Some (Err (pv_name p @ Error x))), w1)"
      unfolding start by (rule guard_Done) (simp only: exec start M [unfolded detach])
    then show ?thesis using d1 E did_refl by blast
  next
    case (unmap x)
    have "iscsi_Delete p ns e w = (Done (Some x), w3)"
      unfolding start by (rule guard_Done) (simp only: exec start M [unfolded unmap] G U [unfolded unmap])
    then show ?thesis using E d2 did_trans [OF d1 d2] by blast
  next
    case delete
    have "iscsi_Delete p ns e w = (Done z, w4)"
      unfolding start by (rule guard_Done) (simp only: exec start M [unfolded delete] G U [unfolded delete] Z)
    then show ?thesis using E d3 did_trans [OF d1 d3] ok by blast
  qed
qed

lemma iscsi_pv_own:
  "iscsi_provisioned (iscsi_pv opt (iscsi_annotations vol vid lun) src) = (True, None)"
  "mstr (annotations_of (pv_annotations (iscsi_pv opt (iscsi_annotations vol vid lun) src))) ''volumeId'' = itoa vid"
  by (simp_all add: iscsi_provisioned_def iscsi_pv_def iscsi_annotations_def mstr_def annCreatedBy_def)



section \<open>A run against the sample InfiniBox\<close>


lemma demo_iscsi_space:
  assumes "demo_ready w" "networkspacesUsed w = 1"
  shows "\<exists>w'. iscsi_getIPndIQNForNetworkSpace ''main'' demo_env w = (Done (''iqn.box'', [''10.0.0.9'', ''10.0.0.10''], None), w')
    \<and> demo_ready w'"
  using assms by (simp add: demo_ready_def demo_simps iscsi_getIPndIQNForNetworkSpace_def iscsi_getTargetIQN_def)

lemma demo_iscsi_create:
  assumes "demo_ready w"
  shows "\<exists>w'. iscsi_createVolume ''1.9'' sample_options [demo_node] demo_env w = (Done (''k8s-u-1'', 11, 42, None), w')
    \<and> demo_ready w'"
  using assms
  by (simp add: demo_ready_def demo_simps iscsi_createVolume_def iscsi_getVolumeName_def iscsi_volCreate_def iscsi_getNumberOfVolumes_def
    iscsi_mapVolumeToHost_def iscsi_getHostId_def iscsi_mapping_def iscsi_afterCreate_def)

lemma demo_iscsi_Provision:
  "\<exists>p w'. iscsi_Provision ''1.9'' sample_options [demo_node] demo_env demo_world = (Done (Some p, None), w')"
proof -
  have c: "mstr demo_config ''pool_name'' = ''main''" "mstr demo_config ''iscsi_networkspaces'' = ''main''"
    by (simp_all add: demo_config_def mstr_def)
  have m: "Parameters sample_options = []" "set (pvc_accessModes (PVC sample_options)) \<subseteq> set iscsi_getAccessModes"
    by (simp_all add: sample_options_def sample_pvc_def iscsi_getAccessModes_def)
  obtain w1 where O: "OneTimeValidation ''main'' ''main'' demo_env demo_world = (Done (''main'', None), w1)" "demo_ready w1" "networkspacesUsed w1 = 1"
    using demo_validation [OF demo_ready_world] by auto
  define w2 where "w2 = w1\<lparr>configuration := mput configMapName (ConfigMap (Some (mput ''iscsi_networkspaces'' ''main'' demo_config))) (configuration w1)\<rparr>"
  have W: "write_config ''iscsi_networkspaces'' ''main'' demo_env w1 = (Done (), w2)"
    using O(2) by (simp add: w2_def demo_ready_def write_config_Some)
  have "mput ''iscsi_networkspaces'' ''main'' demo_config = demo_config" by (simp add: mput_def demo_config_def)
  then have r2: "demo_ready w2" "networkspacesUsed w2 = 1" using O by (simp_all add: demo_ready_def w2_def)
  obtain w3 where I: "iscsi_getIPndIQNForNetworkSpace ''main'' demo_env w2 = (Done (''iqn.box'', [''10.0.0.9'', ''10.0.0.10''], None), w3)" "demo_ready w3"
    using demo_iscsi_space [OF r2] by blast
  obtain w4 where C: "iscsi_createVolume ''1.9'' sample_options [demo_node] demo_env w3 = (Done (''k8s-u-1'', 11, 42, None), w4)"
    using demo_iscsi_create [OF I(2)] by blast
  show ?thesis
    using O(2) r2 I(2)
    by (simp add: iscsi_Provision_def m c O(1) W I(1) C demo_ready_def index_def)
qed


section \<open>UpdateMapping and the contract\<close>

lemma issues_iscsi_mapExisting [issues_intro]: "POST \<in> M \<Longrightarrow> issues (is_rest M) (iscsi_mapExisting v l hs)"
proof (induction hs)
  case (Cons h hs)
  then show ?case unfolding iscsi_mapExisting.simps by (intro issues_intro Cons.IH) auto
qed (simp only: iscsi_mapExisting.simps issues_ret)

lemma issues_iscsi_mapPVs [issues_intro]: "POST \<in> M \<Longrightarrow> issues (is_rest M) (iscsi_mapPVs pvs hs)"
proof (induction pvs)
  case (Cons p pvs)
  then show ?case unfolding iscsi_mapPVs.simps Let_def by (intro issues_intro Cons.IH)
qed (simp only: iscsi_mapPVs.simps issues_ret)

lemma issues_iscsi_unmapPVs [issues_intro]: "DELETE \<in> M \<Longrightarrow> issues (is_rest M) (iscsi_unmapPVs pvs h)"
proof (induction pvs)
  case (Cons p pvs)
  then show ?case unfolding iscsi_unmapPVs.simps Let_def by (intro issues_intro Cons.IH)
qed (simp only: iscsi_unmapPVs.simps issues_ret)

lemma issues_iscsi_unmapNodes [issues_intro]: "DELETE \<in> M \<Longrightarrow> issues (is_rest M) (iscsi_unmapNodes ns pvs)"
proof (induction ns)
  case (Cons n ns)
  then show ?case unfolding iscsi_unmapNodes.simps Let_def by (intro issues_intro Cons.IH)
qed (simp only: iscsi_unmapNodes.simps issues_ret)

lemma issues_iscsi_UpdateMapping:
  "POST \<in> M \<Longrightarrow> (deleted \<Longrightarrow> DELETE \<in> M) \<Longrightarrow> issues (is_rest M) (iscsi_UpdateMapping pvs ns added deleted nodes)"
  unfolding iscsi_UpdateMapping_def by (intro issues_intro) auto

text \<open>\<open>NewISCSIProvisioner\<close>\<close>

definition iscsi_provisioner :: "string \<Rightarrow> provisioner" where
  "iscsi_provisioner kubeVer =
     \<lparr>Provision = iscsi_Provision kubeVer, DeleteVolume = iscsi_Delete, UpdateMapping = iscsi_UpdateMapping\<rparr>"

lemma iscsi_Delete_foreign: "\<not> own q \<Longrightarrow> \<exists>x. iscsi_Delete q ns = ret (Some x)"
  by (cases "mget (annotations_of (pv_annotations q)) annCreatedBy")
    (auto simp: own_def iscsi_Delete_def iscsi_provisioned_def)

lemma iscsi_Provision_volume:
  assumes "iscsi_Provision kv opt ns e w = (Done (p, er), w')"
  shows "(p = None) = (er \<noteq> None) \<and> (\<forall>q. p = Some q \<longrightarrow> own q \<and> pv_name q = PVName opt \<and>
      pv_reclaimPolicy q = vo_reclaimPolicy opt \<and>
      pv_accessModes q = pvc_accessModes (PVC opt) \<and> pv_capacity q = pvc_storage (PVC opt) \<and> pv_claimRef q = None)"
  by (cases rule: iscsi_Provision_cases [OF assms])
    (auto simp: own_def iscsi_pv_def iscsi_annotations_def)

interpretation iscsi: provisioner_contract "iscsi_provisioner kubeVer" for kubeVer
proof
  fix opt ns e w
  show "\<exists>p er w'. Provision (iscsi_provisioner kubeVer) opt ns e w = (Done (p, er), w')"
    using returnsD [OF iscsi_returns(9)] by (fastforce simp: iscsi_provisioner_def)
next
  fix q ns assume "\<not> own q"
  then show "\<exists>x. DeleteVolume (iscsi_provisioner kubeVer) q ns = ret (Some x)"
    by (simp add: iscsi_provisioner_def iscsi_Delete_foreign)
qed (use iscsi_Provision_volume in \<open>force simp: iscsi_provisioner_def intro: issues_intro returns_intro issues_iscsi_UpdateMapping\<close>)+

section \<open>What stays in the shared configuration\<close>

lemma keeps_iscsi_basic [keeps_intro]:
  "keeps (iscsi_getHostId n)" "keeps (iscsi_mapping h v l)" "keeps iscsi_getNumberOfVolumes"
  "keeps (iscsi_volDestroy v n)"
  unfolding iscsi_getHostId_def iscsi_mapping_def iscsi_getNumberOfVolumes_def iscsi_volDestroy_def Let_def
  by (intro keeps_intro)+

lemma keeps_iscsi_mapLoop [keeps_intro]: "keeps (iscsi_mapLoop hs v l)"
proof (induction hs arbitrary: l)
  case (Cons h hs)
  show ?case unfolding iscsi_mapLoop.simps by (intro keeps_intro Cons.IH)
qed (simp only: iscsi_mapLoop.simps keeps_intro)

lemma keeps_iscsi_unmapHosts [keeps_intro]: "keeps (iscsi_unmapHosts hs v)"
proof (induction hs)
  case (Cons h hs)
  show ?case unfolding iscsi_unmapHosts.simps by (intro keeps_intro Cons.IH)
qed (simp only: iscsi_unmapHosts.simps keeps_intro)

lemma keeps_iqnLoop [keeps_intro]: "keeps (iqnLoop rs s)"
  by (induction rs s rule: iqnLoop.induct) (auto simp only: iqnLoop.simps intro!: keeps_intro)

lemma keeps_ipLoop [keeps_intro]: "keeps (ipLoop rs s)"
  by (induction rs s rule: ipLoop.induct) (auto simp only: ipLoop.simps intro!: keeps_intro)

lemma keeps_iscsi [keeps_intro]:
  "keeps (iscsi_mapVolumeToHost hs v)" "keeps (iscsi_volCreate n p opt)" "keeps (iscsi_afterCreate kv opt hs vol v)"
  "keeps (iscsi_createVolume kv opt ns)" "keeps (iscsi_getTargetIQN n)" "keeps (iscsi_getIPndIQNForNetworkSpace n)"
  unfolding iscsi_mapVolumeToHost_def iscsi_volCreate_def iscsi_afterCreate_def iscsi_createVolume_def
    iscsi_getTargetIQN_def iscsi_getIPndIQNForNetworkSpace_def Let_def
  by (intro keeps_intro, simp?)+

text \<open>
  C33. The storage class parameters of a claim stay in the configuration that later claims are
  provisioned with: whatever the outcome of the iSCSI \<open>Provision\<close>, once the access modes are
  accepted, every key has the value of this claim's parameters if they name it (and only the
  key \<open>iscsi_networkspaces\<close> may change further).
\<close>

theorem iscsi_parameters_persist:
  assumes "AccessModesContainedInAll iscsi_getAccessModes (pvc_accessModes (PVC opt))"
    and "getConfiguration w = Some d" and "iscsi_Provision kv opt ns e w = (r, w')"
  shows "\<exists>d'. getConfiguration w' = Some d' \<and>
    (\<forall>k. k \<noteq> ''iscsi_networkspaces'' \<longrightarrow> mget d' k = mget (mput_all (Parameters opt) d) k)"
proof -
  obtain w0 where M: "merge_config (Parameters opt) e w = (Done (), w0)"
      "getConfiguration w0 = Some (mput_all (Parameters opt) d)"
    using merge_config_Some [OF assms(2)] by blast
  have "\<exists>m. iscsi_Provision kv opt ns =
      guard None (\<lambda>e. (None, e)) ''error while provision volume '' (seq (merge_config (Parameters opt)) m) \<and>
      writes {''iscsi_networkspaces''} m"
    unfolding iscsi_Provision_def eqTrueI [OF assms(1)] not_True_eq_False if_False
    by (rule exI, rule conjI, rule refl) (intro writes_intro singletonI; intro writes_keeps keeps_intro)
  then obtain m where P: "iscsi_Provision kv opt ns =
      guard None (\<lambda>e. (None, e)) ''error while provision volume '' (seq (merge_config (Parameters opt)) m)"
    and m: "writes {''iscsi_networkspaces''} m" by blast
  have "guard None results msg (seq (merge_config (Parameters opt)) m) e w = guard None results msg m e w0" for results msg
    using M(1) by (simp add: guard_def on_panic_def)
  then have "guard None (\<lambda>e. (None, e)) ''error while provision volume '' m e w0 = (r, w')"
    using assms(3) P by simp
  from writesD [OF writes_guard [OF m] this M(2)] show ?thesis by simp
qed

theorem iscsi_parameters_persist_witness:
  "\<exists>d'. getConfiguration (snd (iscsi_Provision ''1.9'' (sample_options\<lparr>Parameters := [(''pool_name'', ''gold'')]\<rparr>) [] quiet_env demo_world)) = Some d' \<and>
     mget d' ''pool_name'' = Some ''gold''"
proof -
  have m: "AccessModesContainedInAll iscsi_getAccessModes
      (pvc_accessModes (PVC (sample_options\<lparr>Parameters := [(''pool_name'', ''gold'')]\<rparr>)))"
    by (simp add: sample_options_def sample_pvc_def iscsi_getAccessModes_def)
  obtain r w' where R: "iscsi_Provision ''1.9'' (sample_options\<lparr>Parameters := [(''pool_name'', ''gold'')]\<rparr>) [] quiet_env demo_world = (r, w')"
    by fastforce
  show ?thesis using iscsi_parameters_persist [OF m demo_world_fields(1) R] R by auto
qed

end
