(* ===== verification/ISCSIMapping.thy ===== *)
theory ISCSIMapping
  imports ISCSI
begin

text \<open>
  Which mappings the iSCSI provisioner asks for when the nodes of the cluster change
  (\<open>UpdateMapping\<close> of \<open>pkg/iscsi/provision.go\<close>, modelled in ISCSI).
\<close>

section \<open>What UpdateMapping maps\<close>

text \<open>The bodies of the POST requests among some actions.\<close>

fun post_bodies :: "action list \<Rightarrow> json option list" where
  "post_bodies [] = []"
| "post_bodies (Rest rq # as) = (if rq_method rq = POST then rq_body rq # post_bodies as else post_bodies as)"
| "post_bodies (_ # as) = post_bodies as"

lemma post_bodies_append [simp]: "post_bodies (as @ bs) = post_bodies as @ post_bodies bs"
  by (induction as rule: post_bodies.induct) simp_all

lemma post_bodies_none: "\<forall>a \<in> set as. is_rest {DELETE} a \<Longrightarrow> post_bodies as = []"
  by (induction as rule: post_bodies.induct) auto

definition posts :: "world \<Rightarrow> world \<Rightarrow> json option list \<Rightarrow> bool" where
  "posts w w' bs \<longleftrightarrow> (\<exists>as. history w' = history w @ as \<and> post_bodies as = bs)"

lemma posts_trans: "posts w w1 bs \<Longrightarrow> posts w1 w2 cs \<Longrightarrow> posts w w2 (bs @ cs)"
  by (auto simp: posts_def)

lemma posts_nothing: "issues (is_rest {DELETE}) m \<Longrightarrow> m e w = (r, w') \<Longrightarrow> posts w w' []"
  unfolding posts_def using issuesD post_bodies_none by metis

lemma posts_rest:
  assumes "rest POST url q b e w = (Done r, w')"
  shows "posts w w' [b]"
proof -
  obtain c w1 where G: "GetRestClient e w = (Done c, w1)"
    using assms by (auto simp: rest_def bind_eq_Done)
  have "posts w w1 []" using posts_nothing [OF issues_GetRestClient G] .
  moreover have "posts w1 w' [b]" using assms G by (auto simp: rest_def bind_eq_Done perform_def posts_def Let_def split: if_splits)
  ultimately show ?thesis using posts_trans by fastforce
qed

definition lun_body :: "int \<Rightarrow> int \<Rightarrow> json" where
  "lun_body volID lunNumber = JObj [(''volume_id'', JNum volID 0), (''lun'', JNum lunNumber 0)]"

lemma mapExisting_posts:
  "iscsi_mapExisting v l hs e w = (Done (), w') \<Longrightarrow> posts w w' (replicate (length hs) (Some (lun_body v l)))"
proof (induction hs arbitrary: w)
  case Nil
  then show ?case by (simp add: posts_def)
next
  case (Cons h hs)
  then obtain x w1 r w2 y w3 where S: "iscsi_getHostId h e w = (Done x, w1)"
      "rest POST (''api/rest/hosts/'' @ itoa (fst x) @ ''/luns'') ''approved=true'' (Some (lun_body v l)) e w1 = (Done r, w2)"
      "lift (CheckResponse r) e w2 = (Done y, w3)" "iscsi_mapExisting v l hs e w3 = (Done (), w')"
    by (auto simp: bind_eq_Done lun_body_def split: prod.splits)
  have "w3 = w2" using S(3) by (simp add: lift_def)
  then have "posts w2 w' (replicate (length hs) (Some (lun_body v l)))" using Cons.IH S(4) by simp
  with posts_trans [OF posts_nothing [OF issues_iscsi_getHostId S(1)] posts_rest [OF S(2)]]
  show ?case using posts_trans by fastforce
qed

text \<open>The volumes that are mapped, and with which id and LUN: iSCSI volumes with an id, by their annotations.\<close>

definition mappable :: "pv \<Rightarrow> bool" where
  "mappable p \<longleftrightarrow> pv_iscsi p \<noteq> None \<and> mstr (annotations_of (pv_annotations p)) ''volumeId'' \<noteq> ''''"

definition mapping_body :: "pv \<Rightarrow> json" where
  "mapping_body p = (let ann = annotations_of (pv_annotations p) in
     lun_body (fst (ParseInt (mstr ann ''volumeId'') 64)) (fst (ParseInt (mstr ann ''lun'') 32)))"

lemma mapPVs_posts:
  "iscsi_mapPVs pvs hs e w = (Done (), w') \<Longrightarrow>
     posts w w' (concat (map (\<lambda>p. replicate (length hs) (Some (mapping_body p))) (filter mappable pvs)))"
proof (induction pvs arbitrary: w)
  case Nil
  then show ?case by (simp add: posts_def)
next
  case (Cons p pvs)
  show ?case
  proof (cases "mappable p")
    case True
    then obtain w1 where "iscsi_mapExisting (fst (ParseInt (mstr (annotations_of (pv_annotations p)) ''volumeId'') 64))
        (fst (ParseInt (mstr (annotations_of (pv_annotations p)) ''lun'') 32)) hs e w = (Done (), w1)"
        "iscsi_mapPVs pvs hs e w1 = (Done (), w')"
      using Cons.prems by (auto simp: Let_def bind_eq_Done mappable_def)
    from posts_trans [OF mapExisting_posts [OF this(1)] Cons.IH [OF this(2)]] show ?thesis
      using True by (simp add: mapping_body_def Let_def)
  next
    case False
    then show ?thesis using Cons by (auto simp: Let_def mappable_def)
  qed
qed


definition unmarked_volume :: pv where
  "unmarked_volume = \<lparr>pv_name = ''theirs'', pv_namespace = [], pv_uid = ''u-9'',
     pv_annotations = Some [(''volumeId'', ''5''), (''lun'', ''3'')], pv_reclaimPolicy = ''Retain'',
     pv_accessModes = [ReadWriteOnce], pv_capacity = 1073741824, pv_storageClassName = ''gold'', pv_claimRef = None,
     pv_phase = ''Bound'', pv_fc = None, pv_iscsi = Some \<lparr>is_targetPortal = ''10.0.0.9'', is_portals = [], is_iqn = ''iqn.box'', is_interface = ''default'',
       is_lun = 3, is_readOnly = False, is_fsType = ''ext4''\<rparr>, pv_nfs = None\<rparr>"

lemma demo_hosts: "\<exists>w1. GetHostList [demo_node] demo_env demo_world = (Done ([''n1''], None), w1) \<and> world.rest_client w1 = Some demo_client"
  by (simp add: demo_simps)


end
