(* ===== verification/ResourceLock.thy ===== *)
theory ResourceLock
  imports GoProg
begin

text \<open>
  \<open>lib/leaderelection/resourcelock\<close>: the lock that lives in an annotation of a claim, and the
  contract that the leader election relies on.

  The text of the annotation is represented by what \<open>json.Unmarshal\<close> makes of it, as the bodies
  of REST responses are. A time is written with a resolution of a second, so what is read back
  differs from what was written.
\<close>

section \<open>Election records\<close>

text \<open>
  The zero time, a reading of the clock in nanoseconds (with Go's monotonic part, so it is
  deeply equal only to its copies), or a time that was parsed, in seconds.
\<close>

datatype time = ZeroTime | Now int | Parsed int

definition second :: int where "second = 1000000000"

fun reread_time :: "time \<Rightarrow> time" where
  "reread_time ZeroTime = ZeroTime"
| "reread_time (Now t) = Parsed (t div second)"
| "reread_time (Parsed s) = Parsed s"

record LeaderElectionRecord =
  HolderIdentity :: string
  LeaseDurationSeconds :: int
  AcquireTime :: time
  RenewTime :: time
  LeaderTransitions :: int

definition zero_record :: LeaderElectionRecord where
  "zero_record = \<lparr>HolderIdentity = [], LeaseDurationSeconds = 0, AcquireTime = ZeroTime, RenewTime = ZeroTime,
     LeaderTransitions = 0\<rparr>"

text \<open>What \<open>json.Unmarshal\<close> reads from what \<open>json.Marshal\<close> wrote.\<close>

definition reread :: "LeaderElectionRecord \<Rightarrow> LeaderElectionRecord" where
  "reread r = r\<lparr>AcquireTime := reread_time (AcquireTime r), RenewTime := reread_time (RenewTime r)\<rparr>"

lemma reread_simps [simp]:
  "HolderIdentity (reread r) = HolderIdentity r" "LeaderTransitions (reread r) = LeaderTransitions r"
  "RenewTime (reread r) = reread_time (RenewTime r)" "AcquireTime (reread r) = reread_time (AcquireTime r)"
  by (simp_all add: reread_def)

section \<open>The claim at the API server\<close>

text \<open>An annotation text: one that decodes to a record, or one that is rejected with an error.\<close>

datatype annotation = Encoded LeaderElectionRecord | Malformed string

record api_claim =
  ac_version :: nat
  ac_record :: "annotation option"

text \<open>
  The server: None when the claim was deleted. A call may fail before it has an effect
  (\<open>Refused\<close>) or after it (\<open>Unanswered\<close>). Writing what is there already does not make a new
  version.
\<close>

type_synonym server = "api_claim option"

datatype fault = NoFault | Refused string | Unanswered string

section \<open>ProvisionPVCLock\<close>

text \<open>
  The copy of the claim that the lock works on: its resource version and its annotations (None
  is a nil map; of a map only the lock's own entry matters). A failed call leaves the empty
  object of the client library.
\<close>

record claim_copy =
  cc_version :: nat
  cc_annotations :: "annotation option option"

definition empty_copy :: claim_copy where
  "empty_copy = \<lparr>cc_version = 0, cc_annotations = None\<rparr>"

record ProvisionPVCLock =
  PVCMeta :: "string \<times> string"
  Identity :: string
  pl_p :: "claim_copy option"

datatype lock_error = NotFound | Failure string

definition Get :: "fault \<Rightarrow> server \<Rightarrow> ProvisionPVCLock \<Rightarrow> (lock_error + LeaderElectionRecord) \<times> ProvisionPVCLock" where
  "Get f s pl =
     (let failed = pl\<lparr>pl_p := Some empty_copy\<rparr> in
      case f of
        Refused e \<Rightarrow> (Inl (Failure e), failed)
      | Unanswered e \<Rightarrow> (Inl (Failure e), failed)
      | NoFault \<Rightarrow>
          (case s of
             None \<Rightarrow> (Inl NotFound, failed)
           | Some c \<Rightarrow>
               (case ac_record c of
                  None \<Rightarrow> Inr zero_record
                | Some (Encoded r) \<Rightarrow> Inr r
                | Some (Malformed e) \<Rightarrow> Inl (Failure e),
                pl\<lparr>pl_p := Some \<lparr>cc_version = ac_version c, cc_annotations = Some (ac_record c)\<rparr>\<rparr>)))"

definition Create :: "LeaderElectionRecord \<Rightarrow> err" where
  "Create ler = Some (Err ''create not allowed, PVC should already exist'')"

text \<open>The update of the API server: it refuses a copy of another version.\<close>

definition put_claim :: "claim_copy \<Rightarrow> server \<Rightarrow> string + api_claim" where
  "put_claim c s =
     (case s of
        None \<Rightarrow> Inl ''not found''
      | Some a \<Rightarrow>
          if cc_version c \<noteq> ac_version a then Inl ''the object has been modified''
          else let new = Option.bind (cc_annotations c) (\<lambda>x. x) in
            if new = ac_record a then Inr a else Inr \<lparr>ac_version = Suc (ac_version a), ac_record = new\<rparr>)"

definition Update :: "fault \<Rightarrow> LeaderElectionRecord \<Rightarrow> server \<Rightarrow> ProvisionPVCLock \<Rightarrow> (err \<times> server \<times> ProvisionPVCLock) outcome" where
  "Update f ler s pl =
     (case pl_p pl of
        None \<Rightarrow> Done (Some (Err ''PVC not initialized, call get first''), s, pl)
      | Some c \<Rightarrow>
          (case cc_annotations c of
             None \<Rightarrow> Panic nil_map_write
           | Some m \<Rightarrow>
               let c = c\<lparr>cc_annotations := Some (Some (Encoded (reread ler)))\<rparr>;
                   failed = pl\<lparr>pl_p := Some empty_copy\<rparr> in
               case f of
                 Refused e \<Rightarrow> Done (Some (Err e), s, failed)
               | Unanswered e \<Rightarrow>
                   Done (Some (Err e), (case put_claim c s of Inl _ \<Rightarrow> s | Inr a \<Rightarrow> Some a), failed)
               | NoFault \<Rightarrow>
                   (case put_claim c s of
                      Inl e \<Rightarrow> Done (Some (Err e), s, failed)
                    | Inr a \<Rightarrow> Done (None, Some a, pl\<lparr>pl_p := Some \<lparr>cc_version = ac_version a,
                                     cc_annotations = Some (ac_record a)\<rparr>\<rparr>))))"

definition RecordEvent :: "string \<Rightarrow> ProvisionPVCLock \<Rightarrow> ProvisionPVCLock" where
  "RecordEvent s pl = pl"

definition Describe :: "ProvisionPVCLock \<Rightarrow> string" where
  "Describe pl = ''to provision for pvc '' @ fst (PVCMeta pl) @ ''/'' @ snd (PVCMeta pl)"

section \<open>The contract of a lock\<close>

text \<open>
  What the leader election needs of \<open>get\<close> and \<open>update\<close>: \<open>evolves\<close> relates the states that the
  server goes through, \<open>stored\<close> is the record it holds, \<open>sees l s\<close> says that the lock has read
  the version that the server s has.
\<close>

locale resource_lock =
  fixes get :: "fault \<Rightarrow> 's \<Rightarrow> 'l \<Rightarrow> (lock_error + LeaderElectionRecord) \<times> 'l"
    and update :: "fault \<Rightarrow> LeaderElectionRecord \<Rightarrow> 's \<Rightarrow> 'l \<Rightarrow> (err \<times> 's \<times> 'l) outcome"
    and stored :: "'s \<Rightarrow> LeaderElectionRecord option"
    and evolves :: "'s \<Rightarrow> 's \<Rightarrow> bool"
    and sees :: "'l \<Rightarrow> 's \<Rightarrow> bool"
  assumes get_reads: "get f s l = (Inr r, l') \<Longrightarrow> stored s = Some r \<and> sees l' s"
    and sees_stored: "sees l s \<Longrightarrow> evolves s s' \<Longrightarrow> sees l s' \<Longrightarrow> stored s' = stored s"
    and update_ready: "sees l s \<Longrightarrow> \<exists>x. update f r s' l = Done x"
    and update_writes: "update f r s l = Done (None, s', l') \<Longrightarrow> sees l s \<and> stored s' = Some (reread r)"
    and update_fails: "update f r s l = Done (Some er, s', l') \<Longrightarrow>
      s' = s \<or> sees l s \<and> stored s' = Some (reread r)"
    and update_evolves: "update f r s l = Done (x, s', l') \<Longrightarrow> evolves s s'"
    and evolves_refl: "evolves s s"
    and evolves_trans: "evolves s1 s2 \<Longrightarrow> evolves s2 s3 \<Longrightarrow> evolves s1 s3"
begin

text \<open>Compare and swap: whatever happens in between, an update replaces the record that was read.\<close>

lemma update_replaces_read:
  assumes "get f s l = (Inr r, l')" "evolves s s'" "update f' r' s' l' = Done (x, s'', l'')"
  shows "s'' = s' \<and> x \<noteq> None \<or> stored s' = Some r \<and> stored s'' = Some (reread r')"
proof -
  have g: "stored s = Some r" "sees l' s" using get_reads [OF assms(1)] by auto
  show ?thesis
  proof (cases x)
    case None
    then have "sees l' s'" "stored s'' = Some (reread r')" using update_writes assms(3) by blast+
    then show ?thesis using sees_stored [OF g(2) assms(2)] g(1) by simp
  next
    case (Some y)
    then show ?thesis using update_fails [of f' r' s' l' y] assms(3) sees_stored [OF g(2) assms(2)] g(1) by auto
  qed
qed

lemma no_panic: "get f s l = (Inr r, l') \<Longrightarrow> update f' r' s' l' \<noteq> Panic p"
  using get_reads update_ready by (metis outcome.distinct(1))

end

definition stored_record :: "server \<Rightarrow> LeaderElectionRecord option" where
  "stored_record s =
     (case s of
        None \<Rightarrow> None
      | Some c \<Rightarrow> (case ac_record c of None \<Rightarrow> Some zero_record | Some (Encoded r) \<Rightarrow> Some r | Some (Malformed e) \<Rightarrow> None))"

text \<open>
  The course of a claim: versions only grow, an unchanged version means an unchanged record, and
  a deleted claim stays deleted (a claim that is created later under its name is another one).
\<close>

definition claim_evolves :: "server \<Rightarrow> server \<Rightarrow> bool" where
  "claim_evolves s s' \<longleftrightarrow>
     (case (s, s') of
        (Some a, Some b) \<Rightarrow> ac_version a < ac_version b \<or> a = b
      | (None, Some b) \<Rightarrow> False
      | (_, None) \<Rightarrow> True)"

definition sees_claim :: "ProvisionPVCLock \<Rightarrow> server \<Rightarrow> bool" where
  "sees_claim pl s \<longleftrightarrow> (\<exists>c a. pl_p pl = Some c \<and> s = Some a \<and> cc_version c = ac_version a \<and> cc_annotations c \<noteq> None)"

lemma put_claim_Inr:
  "put_claim c s = Inr b \<Longrightarrow> \<exists>a. s = Some a \<and> cc_version c = ac_version a \<and>
     ac_record b = Option.bind (cc_annotations c) (\<lambda>x. x) \<and> (b = a \<or> ac_version b = Suc (ac_version a))"
  by (auto simp: put_claim_def Let_def split: option.splits if_splits)

interpretation pvc: resource_lock Get Update stored_record claim_evolves sees_claim
proof
  show "stored_record s = Some r \<and> sees_claim l' s" if "Get f s l = (Inr r, l')" for f s l r l'
    using that by (cases f) (auto simp: Get_def Let_def stored_record_def sees_claim_def
      split: option.splits annotation.splits)
  show "stored_record s' = stored_record s" if "sees_claim l s" "claim_evolves s s'" "sees_claim l s'" for l s s'
    using that by (auto simp: sees_claim_def claim_evolves_def)
  show "\<exists>x. Update f r s' l = Done x" if "sees_claim l s" for l s f r s'
    using that by (cases f) (auto simp: sees_claim_def Update_def Let_def split: option.splits sum.splits)
  show "sees_claim l s \<and> stored_record s' = Some (reread r)" if "Update f r s l = Done (None, s', l')" for f r s l s' l'
    using that by (cases f) (auto simp: sees_claim_def Update_def Let_def stored_record_def dest!: put_claim_Inr
      split: option.splits sum.splits)
  show "s' = s \<or> sees_claim l s \<and> stored_record s' = Some (reread r)" if "Update f r s l = Done (Some x, s', l')" for f r s l x s' l'
    using that by (cases f) (auto simp: sees_claim_def Update_def Let_def stored_record_def dest!: put_claim_Inr
      split: option.splits sum.splits)
  show "claim_evolves s s'" if "Update f r s l = Done (x, s', l')" for f r s l x s' l'
    using that by (cases f) (auto simp: claim_evolves_def Update_def Let_def dest!: put_claim_Inr
      split: option.splits sum.splits)
  show "claim_evolves s s" for s
    by (simp add: claim_evolves_def split: option.splits)
  show "claim_evolves s1 s3" if "claim_evolves s1 s2" "claim_evolves s2 s3" for s1 s2 s3
    using that by (auto simp: claim_evolves_def split: option.splits)
qed

end
