(* ===== verification/Election.thy ===== *)
theory Election
  imports ResourceLock
begin

text \<open>
  \<open>lib/leaderelection/leaderelection.go\<close>: the elector that races for a claim's lock, as
  functions of the clock readings, of the faults of the calls and of what the others do to the
  claim between them.
\<close>

section \<open>Electors\<close>

text \<open>Durations and clock readings are in nanoseconds; \<open>observedTime\<close> is None for the zero time.\<close>

record elector =
  el_lock :: ProvisionPVCLock
  LeaseDuration :: int
  RenewDeadline :: int
  RetryPeriod :: int
  TermLimit :: int
  observedRecord :: LeaderElectionRecord
  observedTime :: "int option"
  reportedLeader :: string

text \<open>
  \<open>time.Duration(JitterFactor*float64(d))\<close> with the factor 1.2, which is exact below \<open>2^50\<close>
  nanoseconds (13 days).
\<close>

definition jittered :: "int \<Rightarrow> int" where
  "jittered d = quot (6 * d) 5"

definition NewLeaderElector :: "ProvisionPVCLock option \<Rightarrow> int \<Rightarrow> int \<Rightarrow> int \<Rightarrow> int \<Rightarrow> string + elector" where
  "NewLeaderElector lock lease deadline retry term =
     (if lease \<le> deadline then Inl ''leaseDuration must be greater than renewDeadline''
      else if deadline \<le> jittered retry then Inl ''renewDeadline must be greater than retryPeriod*JitterFactor''
      else case lock of
        None \<Rightarrow> Inl ''lock must not be nil''
      | Some l \<Rightarrow> Inr \<lparr>el_lock = l, LeaseDuration = lease, RenewDeadline = deadline, RetryPeriod = retry,
          TermLimit = term, observedRecord = zero_record, observedTime = None, reportedLeader = []\<rparr>)"

definition elector_identity :: "elector \<Rightarrow> string" where
  "elector_identity le = Identity (el_lock le)"

definition GetLeader :: "elector \<Rightarrow> string" where
  "GetLeader le = HolderIdentity (observedRecord le)"

definition IsLeader :: "elector \<Rightarrow> bool" where
  "IsLeader le \<longleftrightarrow> HolderIdentity (observedRecord le) = elector_identity le"

section \<open>One attempt\<close>

definition proposal :: "elector \<Rightarrow> int \<Rightarrow> LeaderElectionRecord" where
  "proposal le now = \<lparr>HolderIdentity = elector_identity le,
     LeaseDurationSeconds = quot (LeaseDuration le) second, AcquireTime = Now now, RenewTime = Now now,
     LeaderTransitions = 0\<rparr>"

text \<open>The record that was read, noted at time t unless it is deeply equal to the last one.\<close>

definition observe :: "LeaderElectionRecord \<Rightarrow> int \<Rightarrow> elector \<Rightarrow> elector" where
  "observe old t le =
     (if observedRecord le \<noteq> old then le\<lparr>observedRecord := old, observedTime := Some t\<rparr> else le)"

definition unexpired :: "int \<Rightarrow> elector \<Rightarrow> bool" where
  "unexpired now le \<longleftrightarrow> (case observedTime le of None \<Rightarrow> False | Some t \<Rightarrow> t + LeaseDuration le > now)"

definition next_record :: "int \<Rightarrow> LeaderElectionRecord \<Rightarrow> elector \<Rightarrow> LeaderElectionRecord" where
  "next_record now old le =
     (if HolderIdentity old = elector_identity le then (proposal le now)\<lparr>AcquireTime := AcquireTime old\<rparr>
      else (proposal le now)\<lparr>LeaderTransitions := int64 (LeaderTransitions old + 1)\<rparr>)"

datatype decision = Give_up | Created | Write LeaderElectionRecord

definition decide :: "int \<Rightarrow> int \<Rightarrow> lock_error + LeaderElectionRecord \<Rightarrow> elector \<Rightarrow> decision \<times> elector" where
  "decide now t res le =
     (case res of
        Inl NotFound \<Rightarrow>
          (case Create (proposal le now) of
             Some er \<Rightarrow> (Give_up, le)
           | None \<Rightarrow> (Created, le\<lparr>observedRecord := proposal le now, observedTime := Some t\<rparr>))
      | Inl (Failure er) \<Rightarrow> (Give_up, le)
      | Inr old \<Rightarrow>
          let le = observe old t le in
          if unexpired now le \<and> HolderIdentity old \<noteq> elector_identity le then (Give_up, le)
          else (Write (next_record now old le), le))"

definition conclude :: "LeaderElectionRecord \<Rightarrow> int \<Rightarrow> err \<Rightarrow> elector \<Rightarrow> bool \<times> elector" where
  "conclude ler t er le =
     (if er \<noteq> None then (False, le) else (True, le\<lparr>observedRecord := ler, observedTime := Some t\<rparr>))"

text \<open>
  What the surroundings contribute to an attempt: the faults of the two calls, the three clock
  readings, and what the others do to the claim between the calls and after a read only.
\<close>

record attempt =
  get_fault :: fault
  put_fault :: fault
  at_start :: int
  at_read :: int
  at_end :: int
  others :: "server \<Rightarrow> server"

definition tryAcquireOrRenew :: "attempt \<Rightarrow> server \<Rightarrow> elector \<Rightarrow> (bool \<times> server \<times> elector) outcome" where
  "tryAcquireOrRenew t s le =
     (let (res, l) = Get (get_fault t) s (el_lock le);
          (d, le) = decide (at_start t) (at_read t) res (le\<lparr>el_lock := l\<rparr>);
          s = others t s
      in case d of
        Give_up \<Rightarrow> Done (False, s, le)
      | Created \<Rightarrow> Done (True, s, le)
      | Write ler \<Rightarrow>
          (case Update (put_fault t) ler s (el_lock le) of
             Panic p \<Rightarrow> Panic p
           | Done (er, s, l) \<Rightarrow>
               let (ok, le) = conclude ler (at_end t) er (le\<lparr>el_lock := l\<rparr>) in Done (ok, s, le)))"

definition maybeReportTransition :: "elector \<Rightarrow> string option \<times> elector" where
  "maybeReportTransition le =
     (if HolderIdentity (observedRecord le) = reportedLeader le then (None, le)
      else (Some (HolderIdentity (observedRecord le)), le\<lparr>reportedLeader := HolderIdentity (observedRecord le)\<rparr>))"

section \<open>The loops\<close>

text \<open>
  A round of \<open>acquire\<close> or \<open>renew\<close>: what is received from the task's channel, whether the term
  is over, and the attempts of the round (\<open>renew\<close> polls, until one succeeds or the renew
  deadline ends the list; \<open>acquire\<close> makes one).
\<close>

record round =
  task :: "bool option"
  timeout :: bool
  attempts :: "attempt list"

datatype callback = StartedLeading | StoppedLeading | NewLeader string

fun reported :: "string option \<Rightarrow> callback list" where
  "reported None = []"
| "reported (Some i) = [NewLeader i]"

text \<open>
  \<open>acquire\<close>: whether the task is over, None while the rounds have not decided it, with the
  callbacks so far. A round without an attempt lasts until the end of the observation.
\<close>

fun acquire :: "round list \<Rightarrow> server \<Rightarrow> elector \<Rightarrow> (bool option \<times> callback list \<times> server \<times> elector) outcome" where
  "acquire [] s le = Done (None, [], s, le)"
| "acquire (r # rs) s le =
     (if task r = Some True then Done (Some True, [], s, le)
      else case attempts r of
        [] \<Rightarrow> Done (None, [], s, le)
      | t # _ \<Rightarrow>
          (case tryAcquireOrRenew t s le of
             Panic p \<Rightarrow> Panic p
           | Done (ok, s, le) \<Rightarrow>
               let (new, le) = maybeReportTransition le in
               if ok then Done (Some False, reported new, s, le)
               else (case acquire rs s le of
                       Panic p \<Rightarrow> Panic p
                     | Done (x, cs, s, le) \<Rightarrow> Done (x, reported new @ cs, s, le))))"

text \<open>\<open>wait.Poll\<close>: the attempts until the first that succeeds.\<close>

fun poll :: "attempt list \<Rightarrow> server \<Rightarrow> elector \<Rightarrow> (bool \<times> server \<times> elector) outcome" where
  "poll [] s le = Done (False, s, le)"
| "poll (t # ts) s le =
     (case tryAcquireOrRenew t s le of
        Panic p \<Rightarrow> Panic p
      | Done (ok, s, le) \<Rightarrow> if ok then Done (True, s, le) else poll ts s le)"

fun renew :: "round list \<Rightarrow> server \<Rightarrow> elector \<Rightarrow> (bool \<times> callback list \<times> server \<times> elector) outcome" where
  "renew [] s le = Done (False, [], s, le)"
| "renew (r # rs) s le =
     (if task r \<noteq> None \<or> timeout r then Done (True, [], s, le)
      else case poll (attempts r) s le of
        Panic p \<Rightarrow> Panic p
      | Done (ok, s, le) \<Rightarrow>
          let (new, le) = maybeReportTransition le in
          if ok then (case renew rs s le of
                        Panic p \<Rightarrow> Panic p
                      | Done (x, cs, s, le) \<Rightarrow> Done (x, reported new @ cs, s, le))
          else Done (True, reported new, s, le))"

text \<open>
  \<open>Run\<close>, with the rounds of its two loops: whether it has returned, and the callbacks in order.
  \<open>HandleCrash\<close> logs a panic and goes on with it.
\<close>

definition Run :: "round list \<Rightarrow> round list \<Rightarrow> server \<Rightarrow> elector \<Rightarrow> (bool \<times> callback list \<times> server \<times> elector) outcome" where
  "Run first later s le =
     (case acquire first s le of
        Panic p \<Rightarrow> Panic p
      | Done (None, cs, s, le) \<Rightarrow> Done (False, cs, s, le)
      | Done (Some True, cs, s, le) \<Rightarrow> Done (True, cs, s, le)
      | Done (Some False, cs, s, le) \<Rightarrow>
          (case renew later s le of
             Panic p \<Rightarrow> Panic p
           | Done (stopped, cs', s, le) \<Rightarrow>
               Done (stopped, cs @ [StartedLeading] @ cs' @ (if stopped then [StoppedLeading] else []), s, le)))"

section \<open>Facts about attempts\<close>

lemma NewLeaderElector_Inr:
  "NewLeaderElector lock lease deadline retry term = Inr le \<Longrightarrow>
     lock = Some (el_lock le) \<and> LeaseDuration le = lease \<and> observedRecord le = zero_record \<and>
     observedTime le = None \<and> reportedLeader le = [] \<and> deadline < lease \<and> jittered retry < deadline"
  by (auto simp: NewLeaderElector_def split: if_splits option.splits)

lemma Get_identity [simp]: "Get f s pl = (r, pl') \<Longrightarrow> Identity pl' = Identity pl"
  by (cases f) (auto simp: Get_def Let_def split: option.splits)

lemma Update_identity [simp]: "Update f r s pl = Done (er, s', pl') \<Longrightarrow> Identity pl' = Identity pl"
  by (cases f) (auto simp: Update_def Let_def split: option.splits sum.splits)

lemma observe_simps [simp]:
  "el_lock (observe old t le) = el_lock le" "LeaseDuration (observe old t le) = LeaseDuration le"
  "observedRecord (observe old t le) = old" "elector_identity (observe old t le) = elector_identity le"
  by (simp_all add: observe_def elector_identity_def)

lemma decide_lock: "decide now t res le = (d, le') \<Longrightarrow> el_lock le' = el_lock le \<and> LeaseDuration le' = LeaseDuration le"
  by (auto simp: decide_def Create_def Let_def split: sum.splits lock_error.splits if_splits)

lemma decide_not_created: "decide now t res le = (d, le') \<Longrightarrow> d \<noteq> Created"
  by (auto simp: decide_def Create_def Let_def split: sum.splits lock_error.splits if_splits)

lemma decide_Write:
  assumes "decide now t res le = (Write r, le')"
  shows "\<exists>old. res = Inr old \<and> le' = observe old t le \<and> r = next_record now old le \<and>
    (unexpired now le' \<longrightarrow> HolderIdentity old = elector_identity le)"
  using assms
  by (auto simp: decide_def Create_def Let_def next_record_def proposal_def split: sum.splits lock_error.splits if_splits)

lemma next_record_simps [simp]:
  "HolderIdentity (next_record now old le) = elector_identity le" "RenewTime (next_record now old le) = Now now"
  by (simp_all add: next_record_def proposal_def)

lemma attempt_never_panics: "\<exists>x. tryAcquireOrRenew t s le = Done x"
proof -
  obtain res l where G: "Get (get_fault t) s (el_lock le) = (res, l)" by fastforce
  obtain d le' where D: "decide (at_start t) (at_read t) res (le\<lparr>el_lock := l\<rparr>) = (d, le')" by fastforce
  show ?thesis
  proof (cases d)
    case (Write r)
    obtain old where res: "res = Inr old" using decide_Write D Write by blast
    have "el_lock le' = l" using decide_lock [OF D] by simp
    then have "Update (put_fault t) r (others t s) (el_lock le') \<noteq> Panic p" for p
      using pvc.no_panic G res by simp
    then obtain y where "Update (put_fault t) r (others t s) (el_lock le') = Done y"
      by (cases "Update (put_fault t) r (others t s) (el_lock le')") auto
    then show ?thesis using G D Write by (auto simp: tryAcquireOrRenew_def split: prod.split)
  qed (use G D in \<open>auto simp: tryAcquireOrRenew_def\<close>)
qed

lemma acquire_returns: "\<exists>x. acquire rs s le = Done x"
proof (induction rs arbitrary: s le)
  case (Cons r rs)
  show ?case
  proof (cases "attempts r")
    case (Cons t ts)
    obtain ok s1 le1 where T: "tryAcquireOrRenew t s le = Done (ok, s1, le1)" using attempt_never_panics by (metis prod_cases3)
    obtain x cs s2 le2 where "acquire rs s1 (snd (maybeReportTransition le1)) = Done (x, cs, s2, le2)"
      using Cons.IH by (metis prod_cases4)
    then show ?thesis using Cons T by (auto split: prod.split)
  qed simp
qed simp

lemma poll_returns: "\<exists>x. poll ts s le = Done x"
proof (induction ts arbitrary: s le)
  case (Cons t ts)
  obtain ok s1 le1 where "tryAcquireOrRenew t s le = Done (ok, s1, le1)" using attempt_never_panics by (metis prod_cases3)
  then show ?case using Cons.IH by (cases ok) auto
qed (simp only: poll.simps, rule exI, rule refl)

lemma renew_returns: "\<exists>x. renew rs s le = Done x"
proof (induction rs arbitrary: s le)
  case (Cons r rs)
  obtain ok s1 le1 where P: "poll (attempts r) s le = Done (ok, s1, le1)" using poll_returns by (metis prod_cases3)
  obtain x cs s2 le2 where "renew rs s1 (snd (maybeReportTransition le1)) = Done (x, cs, s2, le2)"
    using Cons.IH by (metis prod_cases4)
  then show ?case using P by (cases ok) (auto split: prod.split)
qed (simp only: renew.simps, rule exI, rule refl)

section \<open>Attempts at the lock\<close>


definition sample_lock :: "string \<Rightarrow> ProvisionPVCLock" where
  "sample_lock i = \<lparr>PVCMeta = (''default'', ''data''), Identity = i, pl_p = None\<rparr>"

definition sample_elector :: "string \<Rightarrow> elector" where
  "sample_elector i = \<lparr>el_lock = sample_lock i, LeaseDuration = 15000000000, RenewDeadline = 10000000000,
     RetryPeriod = 2000000000, TermLimit = 30000000000, observedRecord = zero_record, observedTime = None, reportedLeader = []\<rparr>"

definition sample_attempt :: "int \<Rightarrow> attempt" where
  "sample_attempt t = \<lparr>get_fault = NoFault, put_fault = NoFault, at_start = t, at_read = t, at_end = t, others = (\<lambda>s. s)\<rparr>"

definition held_record :: "string \<Rightarrow> int \<Rightarrow> LeaderElectionRecord" where
  "held_record i t = \<lparr>HolderIdentity = i, LeaseDurationSeconds = 15, AcquireTime = Parsed 3, RenewTime = Parsed t,
     LeaderTransitions = 4\<rparr>"

definition held_by :: "string \<Rightarrow> int \<Rightarrow> server" where
  "held_by i t = Some \<lparr>ac_version = 5, ac_record = Some (Encoded (held_record i t))\<rparr>"

lemma held_stored: "stored_record (held_by i t) = Some (held_record i t)"
  by (simp add: held_by_def stored_record_def)

lemma NewLeaderElector_sample:
  "NewLeaderElector (Some (sample_lock i)) 15000000000 10000000000 2000000000 30000000000 = Inr (sample_elector i)"
  by (simp add: NewLeaderElector_def sample_elector_def jittered_def)

lemmas sample_simps = sample_lock_def sample_elector_def sample_attempt_def held_by_def held_record_def stored_record_def
  elector_identity_def unexpired_def observe_def zero_record_def


text \<open>
  An attempt while the API server answers and nobody interferes: l is what the lock has read, and
  the attempt gives up exactly when the record is somebody else's and has not expired.
\<close>

definition undisturbed :: "server \<Rightarrow> attempt \<Rightarrow> bool" where
  "undisturbed s t \<longleftrightarrow> get_fault t = NoFault \<and> put_fault t = NoFault \<and> others t s = s"

definition held_off :: "LeaderElectionRecord \<Rightarrow> attempt \<Rightarrow> elector \<Rightarrow> bool" where
  "held_off old t le \<longleftrightarrow> unexpired (at_start t) (observe old (at_read t) le) \<and> HolderIdentity old \<noteq> elector_identity le"

definition reading :: "server \<Rightarrow> elector \<Rightarrow> ProvisionPVCLock" where
  "reading s le = snd (Get NoFault s (el_lock le))"

lemma reading_identity [simp]: "Identity (reading s le) = elector_identity le"
  by (cases "Get NoFault s (el_lock le)") (simp add: reading_def elector_identity_def)

lemma attempt_undisturbed:
  assumes "stored_record s = Some old" "undisturbed s t"
  shows "(held_off old t le \<longrightarrow>
       tryAcquireOrRenew t s le = Done (False, s, observe old (at_read t) (le\<lparr>el_lock := reading s le\<rparr>))) \<and>
    (\<not> held_off old t le \<longrightarrow>
       (\<exists>s' le'. tryAcquireOrRenew t s le = Done (True, s', le') \<and> IsLeader le' \<and>
          stored_record s' = Some (reread (next_record (at_start t) old le))))"
proof -
  obtain c where c: "s = Some c" "(case ac_record c of None \<Rightarrow> Inr zero_record | Some (Encoded r) \<Rightarrow> Inr r
      | Some (Malformed er) \<Rightarrow> Inl (Failure er)) = Inr old"
    using assms(1) by (auto simp: stored_record_def split: option.splits annotation.splits)
  let ?l = "reading s le"
  have G: "Get (get_fault t) s (el_lock le) = (Inr old, ?l)"
    using c assms(2) by (simp add: Get_def reading_def undisturbed_def)
  let ?le = "observe old (at_read t) (le\<lparr>el_lock := ?l\<rparr>)"
  have i: "elector_identity ?le = elector_identity le" "elector_identity (le\<lparr>el_lock := ?l\<rparr>) = elector_identity le"
    by (simp_all add: elector_identity_def)
  have u: "unexpired now ?le = unexpired now (observe old (at_read t) le)" for now
    by (simp add: unexpired_def observe_def split: option.split)
  have n: "next_record now old ?le = next_record now old le" for now
    using i by (simp add: next_record_def proposal_def)
  show ?thesis
  proof (cases "held_off old t le")
    case True
    then show ?thesis using G assms(2) i u by (simp add: tryAcquireOrRenew_def decide_def Let_def undisturbed_def held_off_def)
  next
    case False
    let ?r = "next_record (at_start t) old le"
    have W: "decide (at_start t) (at_read t) (Inr old) (le\<lparr>el_lock := ?l\<rparr>) = (Write ?r, ?le)"
      using False i u n by (auto simp: decide_def Let_def held_off_def)
    obtain er s' l' where U: "Update (put_fault t) ?r s ?l = Done (er, s', l')"
      using pvc.no_panic [OF G] by (cases "Update (put_fault t) ?r s ?l") auto
    have er: "er = None"
      using U assms(2) c(1) by (auto simp: Update_def reading_def Get_def put_claim_def Let_def undisturbed_def split: if_splits)
    have st: "stored_record s' = Some (reread ?r)"
      using pvc.update_replaces_read [OF G pvc.evolves_refl U] er by simp
    have "tryAcquireOrRenew t s le = Done (True, s', ?le\<lparr>el_lock := l', observedRecord := ?r, observedTime := Some (at_end t)\<rparr>)"
      using G W U er assms(2) by (simp add: tryAcquireOrRenew_def conclude_def undisturbed_def)
    moreover have "Identity l' = elector_identity le" using U by simp
    ultimately show ?thesis using False st
      by (auto simp: IsLeader_def elector_identity_def next_record_def proposal_def)
  qed
qed



section \<open>Running an elector\<close>

text \<open>The callbacks about the elector's own leadership.\<close>

fun leading_calls :: "callback list \<Rightarrow> callback list" where
  "leading_calls [] = []"
| "leading_calls (NewLeader i # cs) = leading_calls cs"
| "leading_calls (StartedLeading # cs) = StartedLeading # leading_calls cs"
| "leading_calls (StoppedLeading # cs) = StoppedLeading # leading_calls cs"

lemma leading_calls_append [simp]: "leading_calls (cs @ ds) = leading_calls cs @ leading_calls ds"
  by (induction cs rule: leading_calls.induct) simp_all

lemma leading_calls_started: "StartedLeading \<in> set cs \<longleftrightarrow> StartedLeading \<in> set (leading_calls cs)"
  by (induction cs rule: leading_calls.induct) simp_all

lemma reported_silent [simp]: "leading_calls (reported x) = []"
  by (cases x) simp_all

lemma acquire_silent:
  "acquire rs s le = Done (x, cs, s', le') \<Longrightarrow> leading_calls cs = []"
proof (induction rs arbitrary: s le x cs s' le')
  case (Cons r rs)
  then show ?case
    by (auto split: list.splits outcome.splits prod.splits if_splits simp del: reported.simps)
qed simp

lemma renew_silent:
  "renew rs s le = Done (x, cs, s', le') \<Longrightarrow> leading_calls cs = []"
proof (induction rs arbitrary: s le x cs s' le')
  case (Cons r rs)
  then show ?case
    by (auto split: outcome.splits prod.splits if_splits simp del: reported.simps)
qed simp

lemma renew_stops:
  "renew rs s le = Done (x, cs, s', le') \<Longrightarrow> \<exists>r \<in> set rs. task r \<noteq> None \<or> timeout r \<Longrightarrow> x"
proof (induction rs arbitrary: s le x cs s' le')
  case (Cons r rs)
  then show ?case by (auto split: outcome.splits prod.splits if_splits simp del: reported.simps)
qed simp



text \<open>
  Rounds in which the elector is left alone: one attempt each, at its own times, and no news that
  the task is done.
\<close>

definition patient :: "server \<Rightarrow> round list \<Rightarrow> bool" where
  "patient s rs \<longleftrightarrow> (\<forall>r \<in> set rs. task r \<noteq> Some True \<and> (\<exists>t. attempts r = [t] \<and> undisturbed s t))"

text \<open>Since the time T at the latest, the elector has known the record that the server holds.\<close>

definition known_since :: "LeaderElectionRecord \<Rightarrow> int \<Rightarrow> elector \<Rightarrow> bool" where
  "known_since old T le \<longleftrightarrow> observedRecord le = old \<and> (case observedTime le of None \<Rightarrow> True | Some t \<Rightarrow> t \<le> T)"

lemma known_since_observe: "known_since old T le \<Longrightarrow> observe old t le = le"
  by (simp add: known_since_def observe_def)

lemma known_since_expired: "known_since old T le \<Longrightarrow> T + LeaseDuration le \<le> now \<Longrightarrow> \<not> unexpired now le"
  by (auto simp: known_since_def unexpired_def split: option.splits)

lemma maybeReportTransition_keeps:
  "maybeReportTransition le = (new, le') \<Longrightarrow> (known_since old T le' \<longleftrightarrow> known_since old T le) \<and>
     (IsLeader le' \<longleftrightarrow> IsLeader le) \<and> LeaseDuration le' = LeaseDuration le \<and> elector_identity le' = elector_identity le"
  by (auto simp: maybeReportTransition_def known_since_def IsLeader_def elector_identity_def split: if_splits)

lemma acquire_won:
  assumes "task r \<noteq> Some True" "attempts r = t # ts" "tryAcquireOrRenew t s le = Done (True, s', le')" "IsLeader le'"
  shows "\<exists>cs le''. acquire (r # rs) s le = Done (Some False, cs, s', le'') \<and> IsLeader le''"
proof -
  obtain new le'' where m: "maybeReportTransition le' = (new, le'')" by fastforce
  then show ?thesis using assms maybeReportTransition_keeps [OF m] by simp
qed

lemma acquire_patient:
  assumes "stored_record s = Some old" "patient s rs" "known_since old T le"
    and "\<exists>r \<in> set rs. \<exists>t. attempts r = [t] \<and> T + LeaseDuration le \<le> at_start t"
  shows "\<exists>cs s' le' r. acquire rs s le = Done (Some False, cs, s', le') \<and> IsLeader le' \<and>
    stored_record s' = Some r \<and> HolderIdentity r = elector_identity le"
  using assms(2-4)
proof (induction rs arbitrary: le)
  case (Cons r rs)
  obtain t where t: "task r \<noteq> Some True" "attempts r = [t]" "undisturbed s t" using Cons.prems(1) by (auto simp: patient_def)
  note A = attempt_undisturbed [OF assms(1) t(3), of le]
  show ?case
  proof (cases "held_off old t le")
    case False
    then obtain s' le' where W: "tryAcquireOrRenew t s le = Done (True, s', le')" "IsLeader le'"
        "stored_record s' = Some (reread (next_record (at_start t) old le))" using A by blast
    obtain cs le'' where "acquire (r # rs) s le = Done (Some False, cs, s', le'')" "IsLeader le''"
      using acquire_won [OF t(1,2) W(1,2)] by blast
    then show ?thesis using W(3) by (auto simp: next_record_def proposal_def)
  next
    case True
    then have R: "tryAcquireOrRenew t s le = Done (False, s, le\<lparr>el_lock := reading s le\<rparr>)"
      using A known_since_observe [of old T "le\<lparr>el_lock := reading s le\<rparr>"] Cons.prems(2) by (simp add: known_since_def)
    have "\<not> T + LeaseDuration le \<le> at_start t"
      using True known_since_expired [OF Cons.prems(2)] by (auto simp: held_off_def known_since_observe [OF Cons.prems(2)])
    then have later: "\<exists>r \<in> set rs. \<exists>t. attempts r = [t] \<and> T + LeaseDuration le \<le> at_start t"
      using Cons.prems(3) t(2) by auto
    obtain new le' where m: "maybeReportTransition (le\<lparr>el_lock := reading s le\<rparr>) = (new, le')" by fastforce
    have le': "known_since old T le'" "LeaseDuration le' = LeaseDuration le" "elector_identity le' = elector_identity le"
      using maybeReportTransition_keeps [OF m] Cons.prems(2) by (simp_all add: known_since_def elector_identity_def)
    have "patient s rs" using Cons.prems(1) by (simp add: patient_def)
    from Cons.IH [OF this le'(1)] later le' obtain cs s' le'' q where
      "acquire rs s le' = Done (Some False, cs, s', le'')" "IsLeader le''" "stored_record s' = Some q"
      "HolderIdentity q = elector_identity le" by auto
    then show ?thesis using t R m by simp
  qed
qed simp

text \<open>
  C20. A lost leader is replaced: if the record on the claim stays as it is and the API server
  answers, an elector that keeps trying leads by its first attempt that starts a lease after its
  first look at the record; and the record then names it.
\<close>

theorem lease_is_taken_over:
  assumes "NewLeaderElector (Some lock) L deadline retry term = Inr le" "stored_record s = Some old"
    and "patient s (r0 # rs)" "attempts r0 = [t0]"
    and "r1 \<in> set rs" "attempts r1 = [t1]" "at_read t0 + L \<le> at_start t1"
  shows "\<exists>cs s' le' r. acquire (r0 # rs) s le = Done (Some False, cs, s', le') \<and> IsLeader le' \<and>
    stored_record s' = Some r \<and> HolderIdentity r = Identity lock"
proof -
  have le: "LeaseDuration le = L" "observedTime le = None" "elector_identity le = Identity lock"
    using NewLeaderElector_Inr [OF assms(1)] by (auto simp: elector_identity_def)
  have t0: "task r0 \<noteq> Some True" "undisturbed s t0" using assms(3,4) by (auto simp: patient_def)
  note A = attempt_undisturbed [OF assms(2) t0(2), of le]
  show ?thesis
  proof (cases "held_off old t0 le")
    case False
    then obtain s' le' where W: "tryAcquireOrRenew t0 s le = Done (True, s', le')" "IsLeader le'"
        "stored_record s' = Some (reread (next_record (at_start t0) old le))" using A by blast
    obtain cs le'' where "acquire (r0 # rs) s le = Done (Some False, cs, s', le'')" "IsLeader le''"
      using acquire_won [OF t0(1) assms(4) W(1,2)] by blast
    then show ?thesis using W(3) le by (auto simp: next_record_def proposal_def)
  next
    case True
    let ?le = "observe old (at_read t0) (le\<lparr>el_lock := reading s le\<rparr>)"
    have R: "tryAcquireOrRenew t0 s le = Done (False, s, ?le)" using A True by simp
    obtain new le' where m: "maybeReportTransition ?le = (new, le')" by fastforce
    have k: "known_since old (at_read t0) ?le" using le(2) by (simp add: known_since_def observe_def)
    have le': "known_since old (at_read t0) le'" "LeaseDuration le' = L" "elector_identity le' = Identity lock"
      using maybeReportTransition_keeps [OF m] k le by (simp_all add: elector_identity_def observe_def)
    have "patient s rs" using assms(3) by (simp add: patient_def)
    from acquire_patient [OF assms(2) this le'(1)] assms(5-7) le'(2,3) obtain cs s' le'' q where
      "acquire rs s le' = Done (Some False, cs, s', le'')" "IsLeader le''" "stored_record s' = Some q"
      "HolderIdentity q = Identity lock" by auto
    then show ?thesis using t0 assms(4) R m by simp
  qed
qed

theorem lease_is_taken_over_witness:
  "\<exists>cs s' le' r. acquire [\<lparr>task = None, timeout = False, attempts = [sample_attempt 9000000000]\<rparr>,
       \<lparr>task = None, timeout = False, attempts = [sample_attempt 24000000000]\<rparr>] (held_by ''B'' 7) (sample_elector ''A'') =
     Done (Some False, cs, s', le') \<and> IsLeader le' \<and> stored_record s' = Some r \<and> HolderIdentity r = ''A''"
proof -
  let ?r = "\<lambda>t. \<lparr>task = None, timeout = False, attempts = [sample_attempt t]\<rparr>"
  have "patient (held_by ''B'' 7) [?r 9000000000, ?r 24000000000]"
    by (simp add: patient_def undisturbed_def sample_attempt_def)
  from lease_is_taken_over [OF NewLeaderElector_sample held_stored this, of "sample_attempt 9000000000" "?r 24000000000"
      "sample_attempt 24000000000"]
  show ?thesis by (simp add: sample_attempt_def sample_lock_def)
qed

end
