(* ===== verification/Controller.thy ===== *)
theory Controller
  imports Provisioner Election
begin

text \<open>
  \<open>lib/controller/controller.go\<close>: the state of the controller and its operations on claims,
  volumes and nodes, each from its handler to the calls it makes. The operations that the
  controller starts in the background are run by Operations.
\<close>

section \<open>Versions of Kubernetes\<close>

text \<open>A semantic version, and \<open>AtLeast\<close> against a version without a pre-release.\<close>

record version =
  major :: nat
  minor :: nat
  patch :: nat
  preRelease :: string

definition AtLeast :: "version \<Rightarrow> nat \<times> nat \<times> nat \<Rightarrow> bool" where
  "AtLeast v w =
     (case w of (a, b, c) \<Rightarrow>
        a < major v \<or> a = major v \<and> (b < minor v \<or> b = minor v \<and> (c < patch v \<or> c = patch v \<and> preRelease v = [])))"

section \<open>Background operations\<close>

text \<open>
  The map of named operations of \<open>goroutinemap\<close>, with its exponential back-off (times and
  durations in nanoseconds): an entry is pending while its operation runs, and is kept after a
  failure.
\<close>

record op_entry =
  operationPending :: bool
  lastErrorTime :: int
  durationBeforeRetry :: int

datatype run_error = AlreadyExists | ExponentialBackoff

definition grm_run :: "string \<Rightarrow> int \<Rightarrow> (string, op_entry) gomap \<Rightarrow> run_error + (string, op_entry) gomap" where
  "grm_run operationName now ops =
     (case mget ops operationName of
        None \<Rightarrow> Inr (mput operationName \<lparr>operationPending = True, lastErrorTime = 0, durationBeforeRetry = 0\<rparr> ops)
      | Some existing \<Rightarrow>
          if operationPending existing then Inl AlreadyExists
          else if now - lastErrorTime existing \<le> durationBeforeRetry existing then Inl ExponentialBackoff
          else Inr (mput operationName (existing\<lparr>operationPending := True\<rparr>) ops))"

definition initialDurationBeforeRetry :: int where "initialDurationBeforeRetry = 500000000"
definition maxDurationBeforeRetry :: int where "maxDurationBeforeRetry = 122000000000"

definition grm_complete :: "string \<Rightarrow> bool \<Rightarrow> int \<Rightarrow> (string, op_entry) gomap \<Rightarrow> (string, op_entry) gomap" where
  "grm_complete operationName failed now ops =
     (if \<not> failed then mdel operationName ops
      else
        let d = (case mget ops operationName of Some existing \<Rightarrow> durationBeforeRetry existing | None \<Rightarrow> 0);
            d' = (if d = 0 then initialDurationBeforeRetry else min (2 * d) maxDurationBeforeRetry)
        in mput operationName \<lparr>operationPending = False, lastErrorTime = now, durationBeforeRetry = d'\<rparr> ops)"

section \<open>The controller\<close>

record controller =
  proviserners :: "(string, provisioner) gomap"
  kubeVersion :: version
  identity :: uid
  resyncPeriod :: int
  runningOperations :: "(string, op_entry) gomap"
  createProvisionedPVRetryCount :: int
  createProvisionedPVInterval :: int
  failedProvisionThreshold :: int
  failedDeleteThreshold :: int
  failedProvisionStats :: "(uid, int) gomap"
  failedDeleteStats :: "(uid, int) gomap"
  failedProvisionRetriedStopped :: "(uid, bool) gomap option"
  failedDeleteRetriedStopped :: "(uid, bool) gomap option"
  leaseDuration :: int
  renewDeadline :: int
  retryPeriod :: int
  termLimit :: int
  leaderElectors :: "(uid, elector) gomap"
  hasRun :: bool

definition DefaultResyncPeriod :: int where "DefaultResyncPeriod = 15 * second"
definition DefaultCreateProvisionedPVRetryCount :: int where "DefaultCreateProvisionedPVRetryCount = 5"
definition DefaultCreateProvisionedPVInterval :: int where "DefaultCreateProvisionedPVInterval = 10 * second"
definition DefaultFailedProvisionThreshold :: int where "DefaultFailedProvisionThreshold = 15"
definition DefaultFailedDeleteThreshold :: int where "DefaultFailedDeleteThreshold = 15"
definition DefaultLeaseDuration :: int where "DefaultLeaseDuration = 15 * second"
definition DefaultRenewDeadline :: int where "DefaultRenewDeadline = 10 * second"
definition DefaultRetryPeriod :: int where "DefaultRetryPeriod = 2 * second"
definition DefaultTermLimit :: int where "DefaultTermLimit = 30 * second"

text \<open>The options of the constructor: an error once the controller runs, with no effect.\<close>

definition errRuntime :: go_error where
  "errRuntime = Err ''cannot call option functions after controller has Run''"

definition option_of :: "(controller \<Rightarrow> controller) \<Rightarrow> controller \<Rightarrow> err \<times> controller" where
  "option_of f c = (if hasRun c then (Some errRuntime, c) else (None, f c))"

definition ResyncPeriod :: "int \<Rightarrow> controller \<Rightarrow> err \<times> controller" where
  "ResyncPeriod d = option_of (\<lambda>c. c\<lparr>resyncPeriod := d\<rparr>)"
definition LeaseDurationOption :: "int \<Rightarrow> controller \<Rightarrow> err \<times> controller" where
  "LeaseDurationOption d = option_of (\<lambda>c. c\<lparr>leaseDuration := d\<rparr>)"
definition RenewDeadlineOption :: "int \<Rightarrow> controller \<Rightarrow> err \<times> controller" where
  "RenewDeadlineOption d = option_of (\<lambda>c. c\<lparr>renewDeadline := d\<rparr>)"
definition RetryPeriodOption :: "int \<Rightarrow> controller \<Rightarrow> err \<times> controller" where
  "RetryPeriodOption d = option_of (\<lambda>c. c\<lparr>retryPeriod := d\<rparr>)"
definition TermLimitOption :: "int \<Rightarrow> controller \<Rightarrow> err \<times> controller" where
  "TermLimitOption d = option_of (\<lambda>c. c\<lparr>termLimit := d\<rparr>)"

text \<open>
  \<open>NewProvisionController\<close>: the two maps that are to remember which retries were given up are
  not made, so they are nil. An unreadable version panics.
\<close>

fun apply_options :: "(controller \<Rightarrow> err \<times> controller) list \<Rightarrow> controller \<Rightarrow> controller" where
  "apply_options [] c = c"
| "apply_options (f # fs) c = apply_options fs (snd (f c))"

definition NewProvisionController ::
    "uid \<Rightarrow> (string, provisioner) gomap \<Rightarrow> string + version \<Rightarrow> (controller \<Rightarrow> err \<times> controller) list \<Rightarrow> controller outcome" where
  "NewProvisionController uuid supoortedProvisioners kubeVer options =
     (case kubeVer of
        Inl e \<Rightarrow> Panic e
      | Inr v \<Rightarrow> Done (apply_options options
          \<lparr>proviserners = supoortedProvisioners, kubeVersion = v, identity = uuid, resyncPeriod = DefaultResyncPeriod,
           runningOperations = [],
           createProvisionedPVRetryCount = DefaultCreateProvisionedPVRetryCount,
           createProvisionedPVInterval = DefaultCreateProvisionedPVInterval,
           failedProvisionThreshold = DefaultFailedProvisionThreshold,
           failedDeleteThreshold = DefaultFailedDeleteThreshold,
           failedProvisionStats = [], failedDeleteStats = [],
           failedProvisionRetriedStopped = None, failedDeleteRetriedStopped = None,
           leaseDuration = DefaultLeaseDuration, renewDeadline = DefaultRenewDeadline,
           retryPeriod = DefaultRetryPeriod, termLimit = DefaultTermLimit,
           leaderElectors = [], hasRun = False\<rparr>))"

definition run_controller :: "controller \<Rightarrow> controller" where
  "run_controller c = c\<lparr>hasRun := True\<rparr>"

definition HasRun :: "controller \<Rightarrow> bool" where "HasRun c = hasRun c"

definition SetFailedProvisionThreshold :: "int \<Rightarrow> controller \<Rightarrow> controller" where
  "SetFailedProvisionThreshold threshold c = c\<lparr>failedProvisionThreshold := threshold\<rparr>"

definition SetFailedDeleteThreshold :: "int \<Rightarrow> controller \<Rightarrow> controller" where
  "SetFailedDeleteThreshold threshold c = c\<lparr>failedDeleteThreshold := threshold\<rparr>"

section \<open>Looks into the caches\<close>

definition getNodeList :: "node list prog" where
  "getNodeList = bind (call ReadNodes cached_nodes) (\<lambda>os. ret (List.map_filter (\<lambda>x. x) os))"

definition getPVList :: "pv list prog" where
  "getPVList = bind (call ReadVolumes cached_volumes) (\<lambda>os. ret (List.map_filter (\<lambda>x. x) os))"

definition not_found_text :: "string \<Rightarrow> string" where
  "not_found_text name = ''StorageClass '' @ quote_string name @ '' not found''"

definition not_class_text :: "string \<Rightarrow> string" where
  "not_class_text s = ''Cannot convert object to StorageClass: '' @ s"

text \<open>The provisioner and the parameters of a class.\<close>

definition getStorageClassFields :: "string \<Rightarrow> (go_error + string \<times> strmap) prog" where
  "getStorageClassFields name =
     bind (call (ReadClass name) (\<lambda>e h. cached_class e h name)) (\<lambda>r. ret (case r of
       Inl er \<Rightarrow> Inl er
     | Inr None \<Rightarrow> Inl (Err (not_found_text name))
     | Inr (Some (StorageClass c)) \<Rightarrow> Inr (sc_provisioner c, sc_parameters c)
     | Inr (Some (BetaStorageClass c)) \<Rightarrow> Inr (sc_provisioner c, sc_parameters c)
     | Inr (Some (OtherObject s)) \<Rightarrow> Inl (Err (not_class_text s))))"

text \<open>The reclaim policy of a class is a pointer, which is dereferenced without a check.\<close>

definition fetchReclaimPolicy :: "string \<Rightarrow> (go_error + string) prog" where
  "fetchReclaimPolicy name =
     bind (call (ReadClass name) (\<lambda>e h. cached_class e h name)) (\<lambda>r. case r of
       Inl er \<Rightarrow> ret (Inl er)
     | Inr None \<Rightarrow> ret (Inl (Err (not_found_text name)))
     | Inr (Some (OtherObject s)) \<Rightarrow> ret (Inl (Err (not_class_text s)))
     | Inr (Some (StorageClass c)) \<Rightarrow>
         (case sc_reclaimPolicy c of None \<Rightarrow> panic nil_dereference | Some p \<Rightarrow> ret (Inr p))
     | Inr (Some (BetaStorageClass c)) \<Rightarrow>
         (case sc_reclaimPolicy c of None \<Rightarrow> panic nil_dereference | Some p \<Rightarrow> ret (Inr p)))"

definition claimToClaimKey :: "pvc \<Rightarrow> string" where
  "claimToClaimKey claim = pvc_namespace claim @ ''/'' @ pvc_name claim"

definition getProvisionedVolumeNameForClaim :: "pvc \<Rightarrow> string" where
  "getProvisionedVolumeNameForClaim claim = ''k8s-'' @ pvc_uid claim"

section \<open>Nodes\<close>

text \<open>The loop over the provisioners, of which only those with a path in their name are told.\<close>

fun update_mappings :: "bool \<Rightarrow> bool \<Rightarrow> node \<Rightarrow> (string, provisioner) gomap \<Rightarrow> unit prog" where
  "update_mappings added deleted node [] = ret ()"
| "update_mappings added deleted node ((pname, p) # ps) =
     (if contains pname ''/'' then
        bind getPVList (\<lambda>pvs. bind getNodeList (\<lambda>nodes.
        seq (UpdateMapping p pvs nodes added deleted [node]) (update_mappings added deleted node ps)))
      else update_mappings added deleted node ps)"

text \<open>The handlers get any object; None is one that is not a node.\<close>

definition nodeAdded :: "controller \<Rightarrow> node option \<Rightarrow> unit prog" where
  "nodeAdded ctrl obj = (case obj of None \<Rightarrow> ret () | Some node \<Rightarrow> update_mappings True False node (proviserners ctrl))"

definition nodeDeleted :: "controller \<Rightarrow> node option \<Rightarrow> unit prog" where
  "nodeDeleted ctrl obj = (case obj of None \<Rightarrow> ret () | Some node \<Rightarrow> update_mappings False True node (proviserners ctrl))"

text \<open>\<open>nodeUpdated\<close> is not registered with the informer. Only the addresses of the nodes matter to it.\<close>

definition nodeUpdated :: "controller \<Rightarrow> node option \<Rightarrow> node option \<Rightarrow> unit prog" where
  "nodeUpdated ctrl oldObj newObj =
     (case (oldObj, newObj) of
        (Some oldnode, Some newnode) \<Rightarrow>
          if addresses oldnode = addresses newnode then ret ()
          else update_mappings False False newnode (proviserners ctrl)
      | _ \<Rightarrow> ret ())"

section \<open>Which claims and volumes are ours\<close>

definition annClass :: string where "annClass = ''volume.beta.kubernetes.io/storage-class''"
definition annDynamicallyProvisioned :: string where "annDynamicallyProvisioned = ''pv.kubernetes.io/provisioned-by''"
definition annStorageProvisioner :: string where "annStorageProvisioner = ''volume.beta.kubernetes.io/storage-provisioner''"

text \<open>
  Whether so many attempts have failed that no more are made; then the message about it is
  logged once, which the map of given-up retries records.
\<close>

definition given_up :: "int \<Rightarrow> (uid, int) gomap \<Rightarrow> uid \<Rightarrow> bool" where
  "given_up threshold stats u =
     (case mget stats u of Some failureCount \<Rightarrow> failureCount \<ge> threshold \<and> threshold > 0 | None \<Rightarrow> False)"

definition note_given_up :: "uid \<Rightarrow> (uid, bool) gomap option \<Rightarrow> (uid, bool) gomap option prog" where
  "note_given_up u stopped =
     (case stopped of
        None \<Rightarrow> panic nil_map_write
      | Some m \<Rightarrow> ret (Some (if mget m u = None then mput u True m else m)))"

definition shouldProvision :: "controller \<Rightarrow> pvc \<Rightarrow> (bool \<times> controller) prog" where
  "shouldProvision ctrl claim =
     (if given_up (failedProvisionThreshold ctrl) (failedProvisionStats ctrl) (pvc_uid claim) then
        bind (note_given_up (pvc_uid claim) (failedProvisionRetriedStopped ctrl)) (\<lambda>m.
        ret (False, ctrl\<lparr>failedProvisionRetriedStopped := m\<rparr>))
      else if pvc_volumeName claim \<noteq> [] then ret (False, ctrl)
      else case mget (annotations_of (pvc_annotations claim)) annStorageProvisioner of
        Some provisioner \<Rightarrow> ret (mget (proviserners ctrl) provisioner \<noteq> None, ctrl)
      | None \<Rightarrow>
          bind (getStorageClassFields (GetPersistentVolumeClaimClass claim)) (\<lambda>r. ret (case r of
            Inl er \<Rightarrow> (False, ctrl)
          | Inr (provisioner, _) \<Rightarrow> (mget (proviserners ctrl) provisioner \<noteq> None, ctrl))))"

definition shouldDelete :: "controller \<Rightarrow> pv \<Rightarrow> (bool \<times> controller) prog" where
  "shouldDelete ctrl volume =
     (if given_up (failedDeleteThreshold ctrl) (failedDeleteStats ctrl) (pv_uid volume) then
        bind (note_given_up (pv_uid volume) (failedDeleteRetriedStopped ctrl)) (\<lambda>m.
        ret (False, ctrl\<lparr>failedDeleteRetriedStopped := m\<rparr>))
      else if (if AtLeast (kubeVersion ctrl) (1, 5, 0) then pv_phase volume \<noteq> ''Released''
               else pv_phase volume \<noteq> ''Released'' \<and> pv_phase volume \<noteq> ''Failed'') then ret (False, ctrl)
      else if pv_reclaimPolicy volume \<noteq> ''Delete'' then ret (False, ctrl)
      else if \<not> HasAnnotation volume annDynamicallyProvisioned then ret (False, ctrl)
      else ret (mget (proviserners ctrl) (mstr (annotations_of (pv_annotations volume)) annDynamicallyProvisioned) \<noteq> None, ctrl))"

text \<open>The counts of failures of one kind: nothing is recorded without a threshold.\<close>

definition update_stats :: "int \<Rightarrow> uid \<Rightarrow> err \<Rightarrow> (uid, int) gomap \<Rightarrow> (uid, int) gomap" where
  "update_stats threshold u er stats =
     (if threshold \<le> 0 then stats
      else if er \<noteq> None then
        (case mget stats u of
           Some failureCount \<Rightarrow> mput u (int64 (failureCount + 1)) stats
         | None \<Rightarrow> mput u 1 stats)
      else mdel u stats)"

definition updateProvisionStats :: "pvc \<Rightarrow> err \<Rightarrow> controller \<Rightarrow> controller" where
  "updateProvisionStats claim er ctrl =
     ctrl\<lparr>failedProvisionStats := update_stats (failedProvisionThreshold ctrl) (pvc_uid claim) er (failedProvisionStats ctrl)\<rparr>"

definition updateDeleteStats :: "pv \<Rightarrow> err \<Rightarrow> controller \<Rightarrow> controller" where
  "updateDeleteStats volume er ctrl =
     ctrl\<lparr>failedDeleteStats := update_stats (failedDeleteThreshold ctrl) (pv_uid volume) er (failedDeleteStats ctrl)\<rparr>"

section \<open>Provisioning a claim\<close>

definition claim_event :: "pvc \<Rightarrow> string \<Rightarrow> string \<Rightarrow> string \<Rightarrow> unit prog" where
  "claim_event claim ty reason msg = call (ClaimEvent claim ty reason msg) (\<lambda>_ _. ())"

text \<open>The attempts to save the volume object, after the error so far.\<close>

fun create_loop :: "nat \<Rightarrow> int \<Rightarrow> pv \<Rightarrow> err \<Rightarrow> err prog" where
  "create_loop 0 interval volume er = ret er"
| "create_loop (Suc n) interval volume er =
     bind (call (CreatePV volume) (\<lambda>e h. pv_create e h volume)) (\<lambda>er.
     if er = None then ret None
     else seq (call (Sleep interval) (\<lambda>_ _. ())) (create_loop n interval volume er))"

text \<open>The attempts to delete a volume whose object could not be saved.\<close>

fun cleanup_loop :: "nat \<Rightarrow> int \<Rightarrow> provisioner \<Rightarrow> pv \<Rightarrow> err \<Rightarrow> err prog" where
  "cleanup_loop 0 interval p volume er = ret er"
| "cleanup_loop (Suc n) interval p volume er =
     bind getNodeList (\<lambda>nodes.
     bind (DeleteVolume p volume nodes) (\<lambda>er.
     if er = None then ret None
     else seq (call (Sleep interval) (\<lambda>_ _. ())) (cleanup_loop n interval p volume er)))"

text \<open>The object to save: the volume of the provisioner, bound to the claim.\<close>

definition claimed_volume :: "version \<Rightarrow> claim_ref \<Rightarrow> string \<Rightarrow> string \<Rightarrow> pv \<Rightarrow> pv" where
  "claimed_volume v claimRef provisioner claimClass volume =
     (let volume = SetMetaDataAnnotation annDynamicallyProvisioned provisioner (volume\<lparr>pv_claimRef := Some claimRef\<rparr>)
      in if AtLeast v (1, 6, 0) then volume\<lparr>pv_storageClassName := claimClass\<rparr>
         else SetMetaDataAnnotation annClass claimClass volume)"

definition saveVolume :: "controller \<Rightarrow> pvc \<Rightarrow> provisioner \<Rightarrow> pv \<Rightarrow> err prog" where
  "saveVolume ctrl claim p volume =
     (let key = claimToClaimKey claim; n = nat (createProvisionedPVRetryCount ctrl);
          interval = createProvisionedPVInterval ctrl in
      bind (create_loop n interval volume None) (\<lambda>er. case er of
        None \<Rightarrow>
          seq (claim_event claim ''Normal'' ''ProvisioningSucceeded''
            (''Successfully provisioned volume '' @ pv_name volume)) (ret None)
      | Some x \<Rightarrow>
          seq (claim_event claim ''Warning'' ''ProvisioningFailed''
            (''Error creating provisioned PV object for claim '' @ key @ '': '' @ Error x @ ''. Deleting the volume.''))
         (bind (cleanup_loop n interval p volume er) (\<lambda>er.
          seq (case er of
                 None \<Rightarrow> ret ()
               | Some x \<Rightarrow> claim_event claim ''Warning'' ''ProvisioningCleanupFailed''
                   (''Error cleaning provisioned volume for claim '' @ key @ '': '' @ Error x @ ''. Please delete manually.''))
         (ret None)))))"

text \<open>The reclaim policy: of the class from version 1.8 on.\<close>

definition reclaim_policy :: "controller \<Rightarrow> string \<Rightarrow> (go_error + string) prog" where
  "reclaim_policy ctrl claimClass =
     (if AtLeast (kubeVersion ctrl) (1, 8, 0) then fetchReclaimPolicy claimClass else ret (Inr ''Delete''))"

text \<open>Calling the provisioner p of the claim's class, once everything is known.\<close>

definition provisionVolume ::
    "controller \<Rightarrow> pvc \<Rightarrow> claim_ref \<Rightarrow> string \<Rightarrow> provisioner \<Rightarrow> strmap \<Rightarrow> string \<Rightarrow> err prog" where
  "provisionVolume ctrl claim claimRef provisioner p parameters reclaimPolicy =
     (let claimClass = GetPersistentVolumeClaimClass claim; key = quote_string (claimToClaimKey claim);
          options = \<lparr>vo_reclaimPolicy = reclaimPolicy, PVName = getProvisionedVolumeNameForClaim claim,
                     PVC = claim, Parameters = parameters\<rparr> in
      seq (claim_event claim ''Normal'' ''Provisioning'' (''External provisioner is provisioning volume for claim '' @ key))
     (bind getNodeList (\<lambda>nodes.
      bind (Provision p options nodes) (\<lambda>(volume, er). case er of
        Some (IgnoredError reason) \<Rightarrow> ret None
      | Some (Err x) \<Rightarrow>
          seq (claim_event claim ''Warning'' ''ProvisioningFailed''
            (''Failed to provision volume with StorageClass '' @ quote_string claimClass @ '': '' @ x))
         (ret (Some (Err x)))
      | None \<Rightarrow>
          (case volume of
             None \<Rightarrow> panic nil_dereference
           | Some v \<Rightarrow>
               saveVolume ctrl claim p (claimed_volume (kubeVersion ctrl) claimRef provisioner claimClass v))))))"

definition provisionClaimOperation :: "controller \<Rightarrow> pvc \<Rightarrow> err prog" where
  "provisionClaimOperation ctrl claim =
     (let claimClass = GetPersistentVolumeClaimClass claim; pvName = getProvisionedVolumeNameForClaim claim in
      bind (call (GetPV pvName) (\<lambda>e h. pv_lookup e h pvName)) (\<lambda>(volume, er).
      if er = None \<and> volume \<noteq> None then ret None
      else
        bind (ask (\<lambda>e. claim_reference e claim)) (\<lambda>claimRef. case claimRef of
          Inl er \<Rightarrow> ret None
        | Inr claimRef \<Rightarrow>
        bind (getStorageClassFields claimClass) (\<lambda>fields. case fields of
          Inl er \<Rightarrow> ret None
        | Inr (provisioner, parameters) \<Rightarrow>
        (case mget (proviserners ctrl) provisioner of
          None \<Rightarrow> ret None
        | Some p \<Rightarrow>
        bind (reclaim_policy ctrl claimClass) (\<lambda>policy. case policy of
          Inl er \<Rightarrow> ret (Some er)
        | Inr reclaimPolicy \<Rightarrow> provisionVolume ctrl claim claimRef provisioner p parameters reclaimPolicy))))))"

section \<open>Deleting a volume\<close>

definition deleteVolumeOperation :: "controller \<Rightarrow> pv \<Rightarrow> (err \<times> controller) prog" where
  "deleteVolumeOperation ctrl volume =
     bind (call (GetPV (pv_name volume)) (\<lambda>e h. pv_lookup e h (pv_name volume))) (\<lambda>(newVolume, er).
     if er \<noteq> None then ret (None, ctrl)
     else case newVolume of
       None \<Rightarrow> panic nil_dereference
     | Some newVolume \<Rightarrow>
     bind (shouldDelete ctrl newVolume) (\<lambda>(should, ctrl).
     if \<not> should then ret (None, ctrl)
     else case mget (proviserners ctrl) (mstr (annotations_of (pv_annotations newVolume)) annDynamicallyProvisioned) of
       None \<Rightarrow> panic nil_dereference
     | Some p \<Rightarrow>
     bind getNodeList (\<lambda>nodes.
     bind (DeleteVolume p volume nodes) (\<lambda>er. case er of
       Some (IgnoredError reason) \<Rightarrow> ret (None, ctrl)
     | Some (Err x) \<Rightarrow>
         seq (call (VolumeEvent volume ''Warning'' ''VolumeFailedDelete'' x) (\<lambda>_ _. ())) (ret (Some (Err x), ctrl))
     | None \<Rightarrow>
         bind (call (DeletePV (pv_name volume)) (\<lambda>e h. pv_delete e h (pv_name volume))) (\<lambda>er. ret (None, ctrl))))))"

section \<open>Watching a claim\<close>

text \<open>A watch on the events of a claim, from the last one that is listed on.\<close>

definition getPVCEventWatch :: "pvc \<Rightarrow> string \<Rightarrow> string \<Rightarrow> (go_error + watch_target) prog" where
  "getPVCEventWatch claim eventType reason =
     bind (ask (\<lambda>e. event_selector e claim)) (\<lambda>sel.
     let fieldSelector = sel @ '',type='' @ eventType @ '',reason='' @ reason; ns = pvc_namespace claim in
     bind (call (ListEvents ns fieldSelector) (\<lambda>e h. list_events e h ns fieldSelector)) (\<lambda>r. case r of
       Inl er \<Rightarrow> ret (Inl er)
     | Inr items \<Rightarrow>
         let t = WatchEvents ns fieldSelector (if items = [] then [] else last items) in
         bind (call (StartWatch t) (\<lambda>e h. start_watch e h t)) (\<lambda>er.
         ret (case er of Some x \<Rightarrow> Inl x | None \<Rightarrow> Inr t))))"

definition stop_watch :: "watch_target \<Rightarrow> unit prog" where
  "stop_watch t = call (StopWatch t) (\<lambda>_ _. ())"

definition watchPVC :: "pvc \<Rightarrow> (go_error + watch_target list) prog" where
  "watchPVC claim =
     (let pvcWatch = WatchClaim (pvc_name claim) (pvc_resourceVersion claim) in
      bind (call (StartWatch pvcWatch) (\<lambda>e h. start_watch e h pvcWatch)) (\<lambda>er. case er of
        Some x \<Rightarrow> ret (Inl x)
      | None \<Rightarrow>
      bind (getPVCEventWatch claim ''Warning'' ''ProvisioningFailed'') (\<lambda>r. case r of
        Inl x \<Rightarrow> seq (stop_watch pvcWatch) (ret (Inl x))
      | Inr failWatch \<Rightarrow>
      bind (getPVCEventWatch claim ''Normal'' ''ProvisioningSucceeded'') (\<lambda>r. case r of
        Inl x \<Rightarrow> seq (stop_watch failWatch) (seq (stop_watch pvcWatch) (ret (Inl x)))
      | Inr successWatch \<Rightarrow> ret (Inr [pvcWatch, failWatch, successWatch])))))"

text \<open>What \<open>watchProvisioning\<close> sends to the task's channel for an event of the watches.\<close>

datatype watch_object = ClaimObject pvc | EventObject string | NoObject

definition watch_result :: "controller \<Rightarrow> string \<Rightarrow> watch_object \<Rightarrow> (bool option \<times> controller) prog" where
  "watch_result ctrl ty object =
     (case object of
        ClaimObject claim \<Rightarrow>
          if ty = ''ADDED'' \<or> ty = ''MODIFIED'' then
            (if pvc_volumeName claim \<noteq> [] then ret (Some True, ctrl)
             else bind (shouldProvision ctrl claim) (\<lambda>(should, ctrl). ret (if should then None else Some True, ctrl)))
          else if ty = ''DELETED'' then ret (Some True, ctrl)
          else if ty = ''ERROR'' then ret (Some True, ctrl)
          else ret (None, ctrl)
      | EventObject reason \<Rightarrow>
          ret (if reason = ''ProvisioningSucceeded'' then Some True
               else if reason = ''ProvisioningFailed'' then Some False else None, ctrl)
      | NoObject \<Rightarrow> ret (None, ctrl))"

section \<open>Racing for a claim\<close>

text \<open>
  \<open>lockProvisionClaimOperation\<close>: the rounds of the elector are given, with what its channel
  receives; a channel that could not be made never receives anything. Whether it has returned,
  the callbacks (of which \<open>OnStartedLeading\<close> schedules the provisioning), and the claim's lock.
\<close>

definition lockProvisionClaimOperation ::
    "round list \<Rightarrow> round list \<Rightarrow> server \<Rightarrow> controller \<Rightarrow> pvc \<Rightarrow> (bool \<times> callback list \<times> server \<times> controller) prog" where
  "lockProvisionClaimOperation first later s ctrl claim =
     (let lock = \<lparr>PVCMeta = (pvc_namespace claim, pvc_name claim), Identity = identity ctrl, pl_p = None\<rparr> in
      case NewLeaderElector (Some lock) (leaseDuration ctrl) (renewDeadline ctrl) (retryPeriod ctrl) (termLimit ctrl) of
        Inl er \<Rightarrow> ret (True, [], s, ctrl)
      | Inr le \<Rightarrow>
          bind (watchPVC claim) (\<lambda>r.
          let deaf = (case r of Inl er \<Rightarrow> map (\<lambda>r. r\<lparr>task := None\<rparr>) | Inr ts \<Rightarrow> (\<lambda>rs. rs)) in
          (case Run (deaf first) (deaf later) s le of
             Panic p \<Rightarrow> panic p
           | Done (over, cs, s, le) \<Rightarrow>
               if \<not> over then ret (False, cs, s, ctrl\<lparr>leaderElectors := mput (pvc_uid claim) le (leaderElectors ctrl)\<rparr>)
               else
                 seq (if StoppedLeading \<in> set cs then call (Sleep (leaseDuration ctrl + retryPeriod ctrl)) (\<lambda>_ _. ()) else ret ())
                (ret (True, cs, s, ctrl\<lparr>leaderElectors := mdel (pvc_uid claim) (leaderElectors ctrl)\<rparr>)))))"

section \<open>Handlers\<close>

datatype operation = ProvisionClaim pvc | LockProvision pvc | DeleteVolumeOf pv

fun opName :: "operation \<Rightarrow> string" where
  "opName (ProvisionClaim c) = ''provision-'' @ claimToClaimKey c @ ''['' @ pvc_uid c @ '']''"
| "opName (LockProvision c) = ''lock-provision-'' @ claimToClaimKey c @ ''['' @ pvc_uid c @ '']''"
| "opName (DeleteVolumeOf v) = ''delete-'' @ pv_name v @ ''['' @ pv_uid v @ '']''"

text \<open>The operation that was started, if the map of operations let it start.\<close>

definition scheduleOperation :: "int \<Rightarrow> operation \<Rightarrow> controller \<Rightarrow> operation option \<times> controller" where
  "scheduleOperation now op' ctrl =
     (case grm_run (opName op') now (runningOperations ctrl) of
        Inl er \<Rightarrow> (None, ctrl)
      | Inr ops \<Rightarrow> (Some op', ctrl\<lparr>runningOperations := ops\<rparr>))"

definition addClaim :: "int \<Rightarrow> controller \<Rightarrow> pvc option \<Rightarrow> (operation option \<times> controller) prog" where
  "addClaim now ctrl obj =
     (case obj of
        None \<Rightarrow> ret (None, ctrl)
      | Some claim \<Rightarrow>
          bind (shouldProvision ctrl claim) (\<lambda>(should, ctrl).
          if should then
            ret (case mget (leaderElectors ctrl) (pvc_uid claim) of
                   Some le \<Rightarrow>
                     if IsLeader le then scheduleOperation now (ProvisionClaim claim) ctrl
                     else scheduleOperation now (LockProvision claim) ctrl
                 | None \<Rightarrow> scheduleOperation now (LockProvision claim) ctrl)
          else ret (None, ctrl)))"

text \<open>\<open>reflect.DeepEqual\<close> on claims: maps are equal when their entries are, but nil is not an empty map.\<close>

definition same_map :: "strmap \<Rightarrow> strmap \<Rightarrow> bool" where
  "same_map m m' \<longleftrightarrow> fst ` set m = fst ` set m' \<and> (\<forall>k \<in> fst ` set m. mget m k = mget m' k)"

definition claim_equal :: "pvc \<Rightarrow> pvc \<Rightarrow> bool" where
  "claim_equal a b \<longleftrightarrow> a\<lparr>pvc_annotations := None\<rparr> = b\<lparr>pvc_annotations := None\<rparr> \<and>
     (case (pvc_annotations a, pvc_annotations b) of
        (None, None) \<Rightarrow> True
      | (Some m, Some m') \<Rightarrow> same_map m m'
      | _ \<Rightarrow> False)"

definition LeaderElectionRecordAnnotationKey :: string where
  "LeaderElectionRecordAnnotationKey = ''control-plane.alpha.kubernetes.io/leader''"

text \<open>The error results of these two are always nil.\<close>

definition removeRecord :: "pvc \<Rightarrow> pvc" where
  "removeRecord claim = claim\<lparr>pvc_annotations := Some (mput LeaderElectionRecordAnnotationKey [] (annotations_of (pvc_annotations claim))),
     pvc_resourceVersion := []\<rparr>"

definition isOnlyRecordUpdate :: "pvc \<Rightarrow> pvc \<Rightarrow> bool" where
  "isOnlyRecordUpdate oldClaim newClaim \<longleftrightarrow> claim_equal (removeRecord oldClaim) (removeRecord newClaim)"

definition updateClaim :: "int \<Rightarrow> controller \<Rightarrow> pvc option \<Rightarrow> pvc option \<Rightarrow> (operation option \<times> controller) prog" where
  "updateClaim now ctrl oldObj newObj =
     (case (oldObj, newObj) of
        (Some oldClaim, Some newClaim) \<Rightarrow>
          if claim_equal oldClaim newClaim then addClaim now ctrl newObj
          else if isOnlyRecordUpdate oldClaim newClaim then ret (None, ctrl)
          else addClaim now ctrl newObj
      | _ \<Rightarrow> ret (None, ctrl))"

definition updateVolume :: "int \<Rightarrow> controller \<Rightarrow> pv option \<Rightarrow> (operation option \<times> controller) prog" where
  "updateVolume now ctrl newObj =
     (case newObj of
        None \<Rightarrow> ret (None, ctrl)
      | Some volume \<Rightarrow>
          bind (shouldDelete ctrl volume) (\<lambda>(should, ctrl).
          ret (if should then scheduleOperation now (DeleteVolumeOf volume) ctrl else (None, ctrl))))"

section \<open>The informers\<close>

text \<open>
  What \<open>NewProvisionController\<close> registers with its informers: the events of nodes, claims and
  volumes that have a handler; the others are dropped, updates of nodes among them.
\<close>

datatype notification =
  NodeAdded "node option" | NodeUpdated "node option" "node option" | NodeDeleted "node option"
| ClaimAdded "pvc option" | ClaimUpdated "pvc option" "pvc option" | ClaimDeleted "pvc option"
| VolumeAdded "pv option" | VolumeUpdated "pv option" "pv option" | VolumeDeleted "pv option"

fun notify :: "int \<Rightarrow> controller \<Rightarrow> notification \<Rightarrow> (operation option \<times> controller) prog" where
  "notify now ctrl (NodeAdded obj) = seq (nodeAdded ctrl obj) (ret (None, ctrl))"
| "notify now ctrl (NodeDeleted obj) = seq (nodeDeleted ctrl obj) (ret (None, ctrl))"
| "notify now ctrl (ClaimAdded obj) = addClaim now ctrl obj"
| "notify now ctrl (ClaimUpdated oldObj newObj) = updateClaim now ctrl oldObj newObj"
| "notify now ctrl (VolumeUpdated oldObj newObj) = updateVolume now ctrl newObj"
| "notify now ctrl _ = ret (None, ctrl)"

text \<open>The API that the store of the storage classes is filled from.\<close>

datatype class_api = StorageV1 | StorageV1beta1

definition class_api_of :: "controller \<Rightarrow> class_api" where
  "class_api_of ctrl = (if AtLeast (kubeVersion ctrl) (1, 6, 0) then StorageV1 else StorageV1beta1)"

end
