(* ===== verification/ControllerFacts.thy ===== *)
theory ControllerFacts
  imports Controller
begin

text \<open>
  What the operations of the controller (model: Controller) guarantee, for any registry of
  provisioners that keep the contract of Provisioner, and what its handlers decide.
\<close>

section \<open>What the caches say\<close>

lemma bind_call [simp]: "bind (call a f) k e w = k (f e (history w)) e (w\<lparr>history := history w @ [a]\<rparr>)"
  by (simp add: bind_def)

lemma bind_ask [simp]: "bind (ask f) k e w = k (f e) e w"
  by (simp add: bind_def)

lemma returns_getNodeList [returns_intro]: "returns getNodeList"
  unfolding getNodeList_def by (intro returns_intro)

lemma returns_fields [returns_intro]: "returns (getStorageClassFields name)"
  unfolding getStorageClassFields_def by (intro returns_intro)

lemma getNodeList_Done: "\<exists>nodes. getNodeList e w = (Done nodes, w\<lparr>history := history w @ [ReadNodes]\<rparr>)"
  by (simp add: getNodeList_def bind_def)

lemma fields_Done: "\<exists>r. getStorageClassFields name e w = (Done r, w\<lparr>history := history w @ [ReadClass name]\<rparr>)"
  by (simp add: getStorageClassFields_def bind_def)

section \<open>Saving a volume\<close>

text \<open>Attempt k at saving comes after k failed ones.\<close>

abbreviation failed_creates :: "nat \<Rightarrow> int \<Rightarrow> pv \<Rightarrow> action list" where
  "failed_creates k interval v \<equiv> concat (replicate k [CreatePV v, Sleep interval])"

lemma create_loop_cases:
  obtains (saved) k where "k < n" "create_loop n interval v er e w =
      (Done None, w\<lparr>history := history w @ failed_creates k interval v @ [CreatePV v]\<rparr>)"
    "pv_create e (history w @ failed_creates k interval v) v = None"
  | (unsaved) x where "0 < n" "create_loop n interval v er e w = (Done (Some x), w\<lparr>history := history w @ failed_creates n interval v\<rparr>)"
  | (never) "n = 0" "create_loop n interval v er e w = (Done er, w)"
proof -
  have "(\<exists>k < n. create_loop n interval v er e w =
      (Done None, w\<lparr>history := history w @ failed_creates k interval v @ [CreatePV v]\<rparr>) \<and>
      pv_create e (history w @ failed_creates k interval v) v = None) \<or>
    (\<exists>x. 0 < n \<and> create_loop n interval v er e w = (Done (Some x), w\<lparr>history := history w @ failed_creates n interval v\<rparr>)) \<or>
    n = 0 \<and> create_loop n interval v er e w = (Done er, w)"
  proof (induction n arbitrary: er w)
    case (Suc n)
    show ?case
    proof (cases "pv_create e (history w) v")
      case None
      then show ?thesis by (intro disjI1 exI [of _ 0]) simp
    next
      case (Some y)
      let ?w = "w\<lparr>history := history w @ [CreatePV v, Sleep interval]\<rparr>"
      have s: "create_loop (Suc n) interval v er e w = create_loop n interval v (Some y) e ?w"
        using Some by (simp add: bind_def)
      consider (saved) k where "k < n" "create_loop n interval v (Some y) e ?w =
            (Done None, ?w\<lparr>history := history ?w @ failed_creates k interval v @ [CreatePV v]\<rparr>)"
          "pv_create e (history ?w @ failed_creates k interval v) v = None"
        | (unsaved) x where "create_loop n interval v (Some y) e ?w = (Done (Some x), ?w\<lparr>history := history ?w @ failed_creates n interval v\<rparr>)"
        | (never) "n = 0" using Suc.IH [of "Some y" ?w] by blast
      then show ?thesis
      proof cases
        case (saved k)
        then show ?thesis unfolding s by (intro disjI1 exI [of _ "Suc k"]) simp
      next
        case (unsaved x)
        then show ?thesis unfolding s by (intro disjI2 disjI1 exI [of _ x]) simp
      next
        case never
        then show ?thesis unfolding s by (intro disjI2 disjI1 exI [of _ y]) simp
      qed
    qed
  qed simp
  then show thesis using that by blast
qed

text \<open>A step of a program that returns and only appends to the history.\<close>

lemma returns_step:
  assumes "returns m" "issues P m"
  obtains x w' where "m e w = (Done x, w')" "prefix (history w) (history w')"
proof -
  obtain x w' where R: "m e w = (Done x, w')" using returnsD [OF assms(1)] by blast
  then show thesis using that issues_grows [OF assms(2) R] by blast
qed

text \<open>How the clean-up of a volume that could not be saved ends: None means that it was deleted.\<close>

lemma cleanup_loop_result:
  assumes "provisioner_contract p" "er \<noteq> None"
  shows "\<exists>r w'. cleanup_loop n interval p v er e w = (Done r, w') \<and> prefix (history w) (history w') \<and>
    (r = None \<longrightarrow> (\<exists>w1 nodes. DeleteVolume p v nodes e w1 = (Done None, w') \<and> prefix (history w) (history w1)))"
  using assms(2)
proof (induction n arbitrary: er w)
  case (Suc n)
  obtain nodes where N: "getNodeList e w = (Done nodes, w\<lparr>history := history w @ [ReadNodes]\<rparr>)"
    using getNodeList_Done by blast
  let ?w1 = "w\<lparr>history := history w @ [ReadNodes]\<rparr>"
  obtain x w2 where D: "DeleteVolume p v nodes e ?w1 = (Done x, w2)" "prefix (history ?w1) (history w2)"
    by (rule returns_step [OF provisioner_contract.Delete_total [OF assms(1)] provisioner_contract.Delete_requests [OF assms(1)]])
  have p2: "prefix (history w) (history w2)" using D(2) by (auto simp: prefix_def)
  show ?case
  proof (cases x)
    case None
    have "cleanup_loop (Suc n) interval p v er e w = (Done None, w2)" using N D(1) None by simp
    moreover have "prefix (history w) (history ?w1)" by simp
    ultimately show ?thesis using p2 D(1) None by blast
  next
    case (Some y)
    let ?w3 = "w2\<lparr>history := history w2 @ [Sleep interval]\<rparr>"
    have s: "cleanup_loop (Suc n) interval p v er e w = cleanup_loop n interval p v (Some y) e ?w3"
      using N D(1) Some by (simp add: bind_def)
    have "prefix (history w) (history ?w3)" using p2 by (simp add: prefix_def) auto
    then show ?thesis using Suc.IH [of "Some y" ?w3] prefix_order.trans unfolding s by blast
  qed
qed auto

text \<open>
  The three ways in which a provisioned volume v can be settled: its object was created, of which
  the success event tells; or the provisioner deleted it again, without error, as the last thing
  that was done; or the last thing is the warning event that it must be deleted by hand. The
  latter two come after the configured number of failed attempts to create the object.
\<close>

definition settled :: "controller \<Rightarrow> pvc \<Rightarrow> provisioner \<Rightarrow> pv \<Rightarrow> env \<Rightarrow> world \<Rightarrow> world \<Rightarrow> bool" where
  "settled ctrl claim p v e w w' \<longleftrightarrow>
    (let n = nat (createProvisionedPVRetryCount ctrl); interval = createProvisionedPVInterval ctrl in
     (\<exists>k < n. \<exists>h. h = history w @ failed_creates k interval v \<and> pv_create e h v = None \<and>
        history w' = h @ [CreatePV v, ClaimEvent claim ''Normal'' ''ProvisioningSucceeded''
          (''Successfully provisioned volume '' @ pv_name v)]) \<or>
     (\<exists>w1 nodes. DeleteVolume p v nodes e w1 = (Done None, w') \<and>
        prefix (history w @ failed_creates n interval v) (history w1)) \<or>
     (\<exists>h msg. history w' = h @ [ClaimEvent claim ''Warning'' ''ProvisioningCleanupFailed'' msg] \<and>
        prefix (history w @ failed_creates n interval v) h))"

lemma saveVolume_settles:
  assumes "provisioner_contract p" "0 < createProvisionedPVRetryCount ctrl"
  shows "\<exists>w'. saveVolume ctrl claim p v e w = (Done None, w') \<and> settled ctrl claim p v e w w'"
proof -
  let ?n = "nat (createProvisionedPVRetryCount ctrl)" and ?i = "createProvisionedPVInterval ctrl"
  have n: "?n \<noteq> 0" using assms(2) by simp
  show ?thesis
  proof (cases rule: create_loop_cases [of ?n ?i v None e w])
    case (saved k)
    then have "saveVolume ctrl claim p v e w = (Done None, w\<lparr>history := history w @ failed_creates k ?i v @ [CreatePV v,
        ClaimEvent claim ''Normal'' ''ProvisioningSucceeded'' (''Successfully provisioned volume '' @ pv_name v)]\<rparr>)"
      by (simp add: saveVolume_def Let_def claim_event_def bind_def)
    then show ?thesis using saved(1,3) unfolding settled_def Let_def by (intro exI conjI disjI1) auto
  next
    case (unsaved x)
    let ?ev = "ClaimEvent claim ''Warning'' ''ProvisioningFailed'' (''Error creating provisioned PV object for claim '' @
       claimToClaimKey claim @ '': '' @ Error x @ ''. Deleting the volume.'')"
    let ?w = "w\<lparr>history := (history w @ failed_creates ?n ?i v) @ [?ev]\<rparr>"
    obtain r w2 where C: "cleanup_loop ?n ?i p v (Some x) e ?w = (Done r, w2)" "prefix (history ?w) (history w2)"
        "r = None \<longrightarrow> (\<exists>w1 nodes. DeleteVolume p v nodes e w1 = (Done None, w2) \<and> prefix (history ?w) (history w1))"
      using cleanup_loop_result [OF assms(1), of "Some x" ?n ?i v e ?w] by blast
    have pre: "prefix (history ?w) h \<Longrightarrow> prefix (history w @ failed_creates ?n ?i v) h" for h
      by (auto simp: prefix_def)
    have run: "saveVolume ctrl claim p v e w = bind (case r of None \<Rightarrow> ret ()
         | Some x \<Rightarrow> claim_event claim ''Warning'' ''ProvisioningCleanupFailed'' (''Error cleaning provisioned volume for claim '' @
             claimToClaimKey claim @ '': '' @ Error x @ ''. Please delete manually.'')) (\<lambda>_. ret None) e w2"
      using unsaved(2) C(1) by (simp add: saveVolume_def Let_def claim_event_def bind_def)
    show ?thesis
    proof (cases r)
      case None
      then show ?thesis using run C(3) pre unfolding settled_def Let_def by (intro exI [of _ w2]) auto
    next
      case (Some y)
      then show ?thesis using run C(2) pre unfolding settled_def Let_def by (intro exI conjI disjI2) (auto simp: claim_event_def)
    qed
  qed (use n in simp)
qed

section \<open>Provisioning a claim\<close>

text \<open>Actions other than requests to InfiniBox.\<close>

fun no_rest :: "action \<Rightarrow> bool" where
  "no_rest (Rest rq) \<longleftrightarrow> False"
| "no_rest _ \<longleftrightarrow> True"

lemma did_append: "history w' = history w @ xs \<Longrightarrow> \<forall>a \<in> set xs. P a \<Longrightarrow> did P w w'"
  by (auto simp: did_def)

lemma reclaim_policy_cases:
  obtains r w' where "reclaim_policy ctrl c e w = (r, w')" "did no_rest w w'" "r = Panic nil_dereference \<or> (\<exists>x. r = Done x)"
proof -
  have "\<exists>r w'. reclaim_policy ctrl c e w = (r, w') \<and> did no_rest w w' \<and> (r = Panic nil_dereference \<or> (\<exists>x. r = Done x))"
    by (auto simp: reclaim_policy_def fetchReclaimPolicy_def did_def split: sum.split option.split class_object.split)
  then show thesis using that by blast
qed

text \<open>
  Up to the call of the provisioner: the operation ends without one, or everything that the call
  needs is known.
\<close>

lemma provision_start:
  obtains (idle) r w' where "provisionClaimOperation ctrl claim e w = (r, w')" "did no_rest w w'"
      "r = Panic nil_dereference \<or> (\<exists>er. r = Done er)"
  | (ready) n p pars pol ref w1 where "mget (proviserners ctrl) n = Some p" "claim_reference e claim = Inr ref" "did no_rest w w1"
      "provisionClaimOperation ctrl claim e w = provisionVolume ctrl claim ref n p pars pol e w1"
proof -
  let ?name = "getProvisionedVolumeNameForClaim claim" and ?cls = "GetPersistentVolumeClaimClass claim"
  let ?w0 = "w\<lparr>history := history w @ [GetPV ?name]\<rparr>"
  let ?w1 = "w\<lparr>history := history w @ [GetPV ?name, ReadClass ?cls]\<rparr>"
  have d0: "did no_rest w ?w0" and d1: "did no_rest w ?w1" by (simp_all add: did_def)
  obtain vol er where L: "pv_lookup e (history w) ?name = (vol, er)" by fastforce
  obtain fs where F: "getStorageClassFields ?cls e ?w0 = (Done fs, ?w1)" using fields_Done [of ?cls e ?w0] by auto
  note start = provisionClaimOperation_def Let_def L
  have early: thesis if out: "provisionClaimOperation ctrl claim e w = (Done x, w')" and quiet: "did no_rest w w'" for x w'
    by (rule idle [OF out quiet]) simp
  consider (exists) "er = None \<and> vol \<noteq> None" | (noref) x where "\<not> (er = None \<and> vol \<noteq> None)" "claim_reference e claim = Inl x"
    | (go) ref where "\<not> (er = None \<and> vol \<noteq> None)" "claim_reference e claim = Inr ref"
    by (cases "claim_reference e claim") blast+
  then show thesis
  proof cases
    case exists
    then show thesis by (intro early [OF _ d0]) (simp add: start)
  next
    case noref
    then show thesis by (intro early [OF _ d0]) (auto simp: start)
  next
    case (go ref)
    then have skip: "(er = None \<and> (\<exists>y. vol = Some y)) = False" by auto
    consider (unknown) "\<forall>n pars. fs = Inr (n, pars) \<longrightarrow> mget (proviserners ctrl) n = None"
      | (known) n pars p where "fs = Inr (n, pars)" "mget (proviserners ctrl) n = Some p" by fastforce
    then show thesis
    proof cases
      case unknown
      then show thesis using go(2) F by (intro early [OF _ d1]) (auto simp: start skip split: sum.split)
    next
      case (known n pars p)
      have run: "provisionClaimOperation ctrl claim e w = bind (reclaim_policy ctrl ?cls) (\<lambda>policy. case policy of
          Inl er \<Rightarrow> ret (Some er) | Inr pol \<Rightarrow> provisionVolume ctrl claim ref n p pars pol) e ?w1"
        using go(2) F known by (simp add: start skip)
      obtain r w2 where Y: "reclaim_policy ctrl ?cls e ?w1 = (r, w2)" "did no_rest ?w1 w2"
          "r = Panic nil_dereference \<or> (\<exists>x. r = Done x)" by (rule reclaim_policy_cases)
      have d2: "did no_rest w w2" using d1 Y(2) by (rule did_trans)
      consider "r = Panic nil_dereference" | y where "r = Done (Inl y)" | pol where "r = Done (Inr pol)"
        using Y(3) by (metis sum.exhaust)
      then show thesis
        by cases (use run Y d2 idle ready [OF known(2) go(2) d2] in \<open>simp_all\<close>)
    qed
  qed
qed

text \<open>The call of a provisioner that keeps the contract: it fails, or its volume is settled.\<close>

lemma provisionVolume_cases:
  assumes p: "provisioner_contract p" and count: "0 < createProvisionedPVRetryCount ctrl"
  obtains (failed) opt nodes w1 w2 x w' where "PVName opt = ''k8s-'' @ pvc_uid claim" "PVC opt = claim"
      "did no_rest w w1" "Provision p opt nodes e w1 = (Done (None, Some x), w2)" "did no_rest w2 w'"
      "provisionVolume ctrl claim ref n p pars pol e w = (Done (case x of Err s \<Rightarrow> Some (Err s) | IgnoredError _ \<Rightarrow> None), w')"
  | (provisioned) opt nodes w1 w2 q w' where "PVName opt = ''k8s-'' @ pvc_uid claim" "PVC opt = claim" "did no_rest w w1"
      "Provision p opt nodes e w1 = (Done (Some q, None), w2)" "provisionVolume ctrl claim ref n p pars pol e w = (Done None, w')"
      "settled ctrl claim p (claimed_volume (kubeVersion ctrl) ref n (GetPersistentVolumeClaimClass claim) q) e w2 w'"
proof -
  let ?opt = "\<lparr>vo_reclaimPolicy = pol, PVName = getProvisionedVolumeNameForClaim claim, PVC = claim, Parameters = pars\<rparr>"
  let ?ev = "ClaimEvent claim ''Normal'' ''Provisioning''
    (''External provisioner is provisioning volume for claim '' @ quote_string (claimToClaimKey claim))"
  let ?w1 = "w\<lparr>history := history w @ [?ev, ReadNodes]\<rparr>"
  have d1: "did no_rest w ?w1" by (simp add: did_def)
  obtain nodes where N: "getNodeList e (w\<lparr>history := history w @ [?ev]\<rparr>) = (Done nodes, ?w1)"
    using getNodeList_Done [of e "w\<lparr>history := history w @ [?ev]\<rparr>"] by auto
  obtain vol er w2 where V: "Provision p ?opt nodes e ?w1 = (Done (vol, er), w2)"
    using provisioner_contract.Provision_total [OF p] by blast
  note X = provisioner_contract.Provision_exclusive [OF p V]
  have o: "PVName ?opt = ''k8s-'' @ pvc_uid claim" "PVC ?opt = claim" by (simp_all add: getProvisionedVolumeNameForClaim_def)
  show thesis
  proof (cases er)
    case (Some x)
    have "\<exists>w'. provisionVolume ctrl claim ref n p pars pol e w =
        (Done (case x of Err s \<Rightarrow> Some (Err s) | IgnoredError _ \<Rightarrow> None), w') \<and> did no_rest w2 w'"
      using N V Some by (cases x) (simp_all add: provisionVolume_def Let_def claim_event_def did_def)
    then show thesis using failed [OF o d1] V Some X by blast
  next
    case None
    then obtain q where q: "vol = Some q" using X by auto
    obtain w' where S: "saveVolume ctrl claim p (claimed_volume (kubeVersion ctrl) ref n (GetPersistentVolumeClaimClass claim) q) e w2 = (Done None, w')"
        "settled ctrl claim p (claimed_volume (kubeVersion ctrl) ref n (GetPersistentVolumeClaimClass claim) q) e w2 w'"
      using saveVolume_settles [OF p count] by blast
    have "provisionVolume ctrl claim ref n p pars pol e w = (Done None, w')"
      using N V None q S(1) by (simp add: provisionVolume_def Let_def claim_event_def)
    then show thesis using provisioned [OF o d1] V None q S(2) by blast
  qed
qed

text \<open>The provisioners of a controller, all of which keep the contract.\<close>

locale registry =
  fixes provs :: "(string, provisioner) gomap"
  assumes contract: "mget provs n = Some p \<Longrightarrow> provisioner_contract p"
begin

text \<open>
  How the provisioning of a claim can go: without any request to InfiniBox; or the provisioner
  of the claim's class was called, once, and failed; or it made a volume, which was settled.
\<close>

lemma provision_cases:
  assumes provs: "proviserners ctrl = provs" and count: "0 < createProvisionedPVRetryCount ctrl"
  obtains (nothing) r w' where "provisionClaimOperation ctrl claim e w = (r, w')" "did no_rest w w'"
      "r = Panic nil_dereference \<or> (\<exists>er. r = Done er)"
  | (failed) n p opt nodes w1 w2 x er w' where "mget provs n = Some p" "PVName opt = ''k8s-'' @ pvc_uid claim" "PVC opt = claim"
      "did no_rest w w1" "Provision p opt nodes e w1 = (Done (None, Some x), w2)"
      "provisionClaimOperation ctrl claim e w = (Done er, w')" "did no_rest w2 w'"
      "er = (case x of Err s \<Rightarrow> Some (Err s) | IgnoredError _ \<Rightarrow> None)"
  | (provisioned) n p opt nodes ref w1 w2 q w' where "mget provs n = Some p" "PVName opt = ''k8s-'' @ pvc_uid claim"
      "PVC opt = claim" "did no_rest w w1" "claim_reference e claim = Inr ref"
      "Provision p opt nodes e w1 = (Done (Some q, None), w2)" "provisionClaimOperation ctrl claim e w = (Done None, w')"
      "settled ctrl claim p (claimed_volume (kubeVersion ctrl) ref n (GetPersistentVolumeClaimClass claim) q) e w2 w'"
proof (cases rule: provision_start [of ctrl claim e w])
  case (idle r w')
  then show thesis by (rule that(1))
next
  case (ready n p pars pol ref w1)
  have p: "mget provs n = Some p" using ready(1) provs by simp
  show thesis
  proof (rule provisionVolume_cases [OF contract [OF p] count, of claim w1 e ref n pars pol], goal_cases)
    case failed: (1 opt nodes w2 w3 x w')
    show thesis
      by (rule that(2) [OF p failed(1,2) did_trans [OF ready(3) failed(3)] failed(4) _ failed(5) refl]) (simp add: ready(4) failed(6))
  next
    case provisioned: (2 opt nodes w2 w3 q w')
    show thesis
      by (rule that(3) [OF p provisioned(1,2) did_trans [OF ready(3) provisioned(3)] ready(2) provisioned(4) _ provisioned(6)])
        (simp add: ready(4) provisioned(5))
  qed
qed

end

section \<open>Deleting a volume\<close>

lemma did_no_call [simp]: "did P w (w\<lparr>history := history w @ [a]\<rparr>) \<longleftrightarrow> P a"
  by (simp add: did_def)

text \<open>Actions other than requests to InfiniBox and the deletion of volume objects.\<close>

fun aside :: "action \<Rightarrow> bool" where
  "aside (Rest rq) \<longleftrightarrow> False"
| "aside (DeletePV n) \<longleftrightarrow> False"
| "aside _ \<longleftrightarrow> True"

lemma shouldDelete_cases:
  obtains (no) c where "shouldDelete ctrl v = ret (False, c)"
  | (yes) n p where "shouldDelete ctrl v = ret (True, ctrl)" "n = mstr (annotations_of (pv_annotations v)) annDynamicallyProvisioned"
      "mget (proviserners ctrl) n = Some p" "pv_reclaimPolicy v = ''Delete''" "pv_phase v \<in> {''Released'', ''Failed''}"
  | (crash) "shouldDelete ctrl v = panic nil_map_write" "failedDeleteRetriedStopped ctrl = None"
proof (cases "given_up (failedDeleteThreshold ctrl) (failedDeleteStats ctrl) (pv_uid v)")
  case True
  show thesis
  proof (cases "failedDeleteRetriedStopped ctrl")
    case None
    then show thesis using True by (intro crash) (simp_all add: shouldDelete_def note_given_up_def)
  next
    case (Some m)
    show thesis by (rule no) (simp only: shouldDelete_def note_given_up_def True Some if_True option.case bind_ret)
  qed
next
  case False
  let ?p = "mget (proviserners ctrl) (mstr (annotations_of (pv_annotations v)) annDynamicallyProvisioned)"
  have "shouldDelete ctrl v = ret (False, ctrl) \<or> shouldDelete ctrl v = ret (True, ctrl) \<and> ?p \<noteq> None \<and>
      pv_reclaimPolicy v = ''Delete'' \<and> pv_phase v \<in> {''Released'', ''Failed''}"
    using False by (cases ?p) (simp_all add: shouldDelete_def)
  then show thesis
  proof
    assume "shouldDelete ctrl v = ret (False, ctrl)"
    then show thesis by (rule no)
  next
    assume "shouldDelete ctrl v = ret (True, ctrl) \<and> ?p \<noteq> None \<and>
      pv_reclaimPolicy v = ''Delete'' \<and> pv_phase v \<in> {''Released'', ''Failed''}"
    then show thesis using yes by auto
  qed
qed

text \<open>
  What happens before the provisioner is called: nothing that matters and the function ends, or
  the volume's object says that it is to be deleted, and the provisioner it names is called.
\<close>

lemma delete_start:
  obtains (idle) r w' where "deleteVolumeOperation ctrl volume e w = (r, w')" "did aside w w'"
      "(\<exists>c. r = Done (None, c)) \<or> (\<exists>s. r = Panic s)"
  | (ready) n p nodes w1 where "mget (proviserners ctrl) n = Some p" "did aside w w1"
      "deleteVolumeOperation ctrl volume e w = bind (DeleteVolume p volume nodes) (\<lambda>er. case er of
            Some (IgnoredError reason) \<Rightarrow> ret (None, ctrl)
          | Some (Err x) \<Rightarrow> seq (call (VolumeEvent volume ''Warning'' ''VolumeFailedDelete'' x) (\<lambda>_ _. ())) (ret (Some (Err x), ctrl))
          | None \<Rightarrow> bind (call (DeletePV (pv_name volume)) (\<lambda>e h. pv_delete e h (pv_name volume))) (\<lambda>er. ret (None, ctrl))) e w1"
proof -
  let ?w1 = "w\<lparr>history := history w @ [GetPV (pv_name volume)]\<rparr>"
  obtain nv er where L: "pv_lookup e (history w) (pv_name volume) = (nv, er)" by fastforce
  note start = deleteVolumeOperation_def L
  have early: thesis if "deleteVolumeOperation ctrl volume e w = (r, ?w1)" "(\<exists>c. r = Done (None, c)) \<or> (\<exists>s. r = Panic s)" for r
    using idle [OF that(1) _ that(2)] by simp
  consider (stop) "er \<noteq> None \<or> nv = None" | (found) v where "er = None" "nv = Some v" by blast
  then show thesis
  proof cases
    case stop
    then show thesis by (cases er) (auto intro!: early simp: start)
  next
    case (found v)
    show thesis
    proof (cases rule: shouldDelete_cases [of ctrl v])
      case (yes n p)
      let ?w2 = "w\<lparr>history := history w @ [GetPV (pv_name volume), ReadNodes]\<rparr>"
      obtain nodes where N: "getNodeList e ?w1 = (Done nodes, ?w2)" using getNodeList_Done [of e ?w1] by auto
      show thesis
        by (rule ready [OF yes(3), of ?w2 nodes]) (use yes(1,3) N in \<open>simp_all add: start found yes(2) did_def\<close>)
    qed (auto intro!: early simp: start found)
  qed
qed

context registry begin

text \<open>
  How the deletion of a volume can go: without a request to InfiniBox; or the provisioner of the
  volume is called, and fails; or it succeeds, and only then the volume's object is deleted.
\<close>

lemma delete_cases:
  assumes provs: "proviserners ctrl = provs"
  obtains (nothing) r w' where "deleteVolumeOperation ctrl volume e w = (r, w')" "did aside w w'"
      "(\<exists>c. r = Done (None, c)) \<or> (\<exists>s. r = Panic s)"
  | (failed) p nodes w1 w2 x w' where "p \<in> ran (mget provs)" "did aside w w1"
      "DeleteVolume p volume nodes e w1 = (Done (Some x), w2)" "did aside w2 w'"
      "deleteVolumeOperation ctrl volume e w = (Done (case x of Err s \<Rightarrow> Some (Err s) | IgnoredError _ \<Rightarrow> None, ctrl), w')"
  | (deleted) p nodes w1 w2 where "p \<in> ran (mget provs)" "own volume" "did aside w w1"
      "DeleteVolume p volume nodes e w1 = (Done None, w2)"
      "deleteVolumeOperation ctrl volume e w = (Done (None, ctrl), w2\<lparr>history := history w2 @ [DeletePV (pv_name volume)]\<rparr>)"
proof (cases rule: delete_start [of ctrl volume e w])
  case (idle r w')
  then show thesis by (rule that(1))
next
  case (ready n p nodes w1)
  have p: "provisioner_contract p" "p \<in> ran (mget provs)" using ready(1) provs contract by (auto simp: ran_def)
  obtain x w2 where D: "DeleteVolume p volume nodes e w1 = (Done x, w2)"
    using returnsD [OF provisioner_contract.Delete_total [OF p(1)]] by blast
  show thesis
  proof (cases x)
    case None
    have "own volume" using provisioner_contract.Delete_own [OF p(1)] D None by blast
    then show thesis using that(3) [OF p(2) _ ready(2)] D None ready(3) by simp
  next
    case (Some y)
    have "\<exists>w'. deleteVolumeOperation ctrl volume e w = (Done (case y of Err s \<Rightarrow> Some (Err s) | IgnoredError _ \<Rightarrow> None, ctrl), w') \<and>
        did aside w2 w'"
      using ready(3) D Some by (cases y) simp_all
    then show thesis using that(2) [OF p(2) ready(2)] D Some by blast
  qed
qed

end

section \<open>Which updates of a claim matter\<close>

lemma same_map_iff: "same_map m m' \<longleftrightarrow> mget m = mget m'"
proof
  assume "same_map m m'"
  then have k: "fst ` set m = fst ` set m'" "\<And>k. k \<in> fst ` set m \<Longrightarrow> mget m k = mget m' k"
    unfolding same_map_def by blast+
  show "mget m = mget m'"
  proof
    fix x show "mget m x = mget m' x"
    proof (cases "x \<in> fst ` set m")
      case False
      then have "mget m x = None" "mget m' x = None" using k(1) by (metis mget_None_iff)+
      then show ?thesis by simp
    qed (rule k(2))
  qed
next
  assume m: "mget m = mget m'"
  have "fst ` set m = fst ` set m'"
    using m mget_None_iff [of m] mget_None_iff [of m'] by (metis (no_types) set_eqI)
  then show "same_map m m'" using m by (simp add: same_map_def)
qed

text \<open>
  C36. Which updates of a claim are ignored: \<open>isOnlyRecordUpdate\<close> holds exactly when the two
  claims agree in every field but the resource version and in every annotation but the one of
  the leader election; whether there is an annotation map at all does not count.
\<close>

theorem isOnlyRecordUpdate_spec:
  "isOnlyRecordUpdate a b \<longleftrightarrow>
     a\<lparr>pvc_resourceVersion := [], pvc_annotations := None\<rparr> = b\<lparr>pvc_resourceVersion := [], pvc_annotations := None\<rparr> \<and>
     (\<forall>k. mget (annotations_of (pvc_annotations a)) k = mget (annotations_of (pvc_annotations b)) k \<or>
        k = LeaderElectionRecordAnnotationKey)"
proof -
  have "(m(x \<mapsto> v) = m'(x \<mapsto> v)) = (\<forall>k. m k = m' k \<or> k = x)" for m m' :: "string \<Rightarrow> string option" and x v
    by (auto simp: fun_eq_iff)
  then show ?thesis by (simp add: isOnlyRecordUpdate_def claim_equal_def removeRecord_def same_map_iff)
qed

section \<open>Giving up on a claim\<close>

text \<open>n failures of the provisioning of a claim in a row.\<close>

fun fail_provisions :: "nat \<Rightarrow> pvc \<Rightarrow> controller \<Rightarrow> controller" where
  "fail_provisions 0 claim ctrl = ctrl"
| "fail_provisions (Suc n) claim ctrl = updateProvisionStats claim (Some (Err ''failed'')) (fail_provisions n claim ctrl)"

lemma fail_provisions_stats:
  assumes "failedProvisionThreshold ctrl = 15" "mget (failedProvisionStats ctrl) (pvc_uid claim) = None" "int n < 2 ^ 63"
  shows "mget (failedProvisionStats (fail_provisions n claim ctrl)) (pvc_uid claim) = (if n = 0 then None else Some (int n)) \<and>
    failedProvisionThreshold (fail_provisions n claim ctrl) = 15 \<and>
    failedProvisionRetriedStopped (fail_provisions n claim ctrl) = failedProvisionRetriedStopped ctrl"
  using assms(3)
proof (induction n)
  case (Suc n)
  have i: "int64 (int n + 1) = int (Suc n)" using Suc.prems by (simp add: fits_def)
  have "int n < 2 ^ 63" using Suc.prems by simp
  note IH = Suc.IH [OF this]
  show ?case using i by (cases "n = 0") (simp_all add: updateProvisionStats_def update_stats_def IH assms)
qed (use assms in simp)

text \<open>
  C35. The controller as \<open>main\<close> makes it crashes instead of giving up on a claim: after 15
  failures in a row (and not earlier), whenever the claim is seen again, the handler
  panics, because the map that is to remember that the retries were stopped was never made.
\<close>

theorem fifteen_failures_crash:
  assumes "NewProvisionController uuid provs (Inr v) [] = Done ctrl" "int n < 2 ^ 63"
  shows "(\<exists>s. fst (addClaim now (fail_provisions n claim ctrl) (Some claim) e w) = Panic s) \<longleftrightarrow> 15 \<le> n"
proof -
  have c: "failedProvisionThreshold ctrl = 15" "mget (failedProvisionStats ctrl) (pvc_uid claim) = None"
    "failedProvisionRetriedStopped ctrl = None"
    using assms(1) by (auto simp: NewProvisionController_def DefaultFailedProvisionThreshold_def)
  note F = fail_provisions_stats [OF c(1,2) assms(2)]
  show ?thesis
  proof (cases "15 \<le> n")
    case True
    then show ?thesis using F c(3) by (simp add: addClaim_def shouldProvision_def given_up_def note_given_up_def bind_def)
  next
    case False
    then have "\<not> given_up (failedProvisionThreshold (fail_provisions n claim ctrl)) (failedProvisionStats (fail_provisions n claim ctrl)) (pvc_uid claim)"
      using F by (auto simp: given_up_def)
    moreover have "returns (getStorageClassFields c)" for c by (intro returns_intro)
    ultimately have "\<exists>x w'. addClaim now (fail_provisions n claim ctrl) (Some claim) e w = (Done x, w')"
      by (auto simp: addClaim_def shouldProvision_def given_up_def bind_def getStorageClassFields_def split: option.split prod.split)
    then show ?thesis using False by auto
  qed
qed

theorem fifteen_failures_crash_witness:
  "\<exists>ctrl s. NewProvisionController ''c'' [] (Inr \<lparr>major = 1, minor = 8, patch = 0, preRelease = []\<rparr>) [] = Done ctrl \<and>
     fst (addClaim 0 (fail_provisions 15 sample_pvc ctrl) (Some sample_pvc) quiet_env idle_world) = Panic s"
proof -
  obtain ctrl where c: "NewProvisionController ''c'' [] (Inr \<lparr>major = 1, minor = 8, patch = 0, preRelease = []\<rparr>) [] = Done ctrl"
    by (simp add: NewProvisionController_def)
  show ?thesis using c fifteen_failures_crash [OF c, of 15 0 sample_pvc quiet_env idle_world] by auto
qed

section \<open>Provisioned volumes can be deleted again\<close>

lemma AtLeast_mono: "AtLeast v (1, 8, 0) \<Longrightarrow> AtLeast v (1, 6, 0) \<and> AtLeast v (1, 5, 0)"
  by (auto simp: AtLeast_def)

text \<open>
  C23. What the controller provisions it also deletes: a volume object saved for a claim by a
  registered provisioner, once it is released with the policy Delete, passes \<open>shouldDelete\<close> (as
  long as its deletion has not failed too often), and it is found under its class.
\<close>

theorem provisioned_is_deletable:
  assumes "mget (proviserners ctrl) n = Some p" "pv_reclaimPolicy q = ''Delete''"
    and "\<not> given_up (failedDeleteThreshold ctrl) (failedDeleteStats ctrl) u"
    and "mget (annotations_of (pv_annotations q)) BetaStorageClassAnnotation = None"
  shows "shouldDelete ctrl ((claimed_volume (kubeVersion ctrl) cr n c q)\<lparr>pv_phase := ''Released'', pv_uid := u\<rparr>) = ret (True, ctrl) \<and>
    GetPersistentVolumeClass (claimed_volume (kubeVersion ctrl) cr n c q) = c \<and>
    pv_claimRef (claimed_volume (kubeVersion ctrl) cr n c q) = Some cr"
proof -
  have ne: "annClass \<noteq> annDynamicallyProvisioned" "annDynamicallyProvisioned \<noteq> annClass"
    "BetaStorageClassAnnotation = annClass"
    by (simp_all add: annClass_def annDynamicallyProvisioned_def BetaStorageClassAnnotation_def)
  show ?thesis using assms
    by (auto simp: shouldDelete_def claimed_volume_def Let_def SetMetaDataAnnotation_def HasAnnotation_def ne
        GetPersistentVolumeClass_def mstr_def)
qed

section \<open>Watches\<close>

text \<open>
  The watches that are open after some actions: those that were started, without error, and not
  stopped.
\<close>

fun open_watches :: "env \<Rightarrow> action list \<Rightarrow> action list \<Rightarrow> watch_target list \<Rightarrow> watch_target list" where
  "open_watches e h [] ts = ts"
| "open_watches e h (a # as) ts = open_watches e (h @ [a]) as
     (case a of
        StartWatch t \<Rightarrow> if start_watch e h t = None then ts @ [t] else ts
      | StopWatch t \<Rightarrow> remove1 t ts
      | _ \<Rightarrow> ts)"

lemma open_watches_append [simp]:
  "open_watches e h (as @ bs) ts = open_watches e (h @ as) bs (open_watches e h as ts)"
  by (induction as arbitrary: h ts) simp_all

lemma event_watch_cases:
  obtains (failed) x w' xs where "getPVCEventWatch c ty reason e w = (Done (Inl x), w')" "history w' = history w @ xs"
      "\<And>ts. open_watches e (history w) xs ts = ts"
  | (started) t w' xs where "getPVCEventWatch c ty reason e w = (Done (Inr t), w')" "history w' = history w @ xs"
      "\<And>ts. open_watches e (history w) xs ts = ts @ [t]"
proof -
  define sel where "sel = event_selector e c @ '',type='' @ ty @ '',reason='' @ reason"
  let ?ns = "pvc_namespace c"
  show thesis
  proof (cases "list_events e (history w) ?ns sel")
    case (Inl x)
    have "getPVCEventWatch c ty reason e w = (Done (Inl x), w\<lparr>history := history w @ [ListEvents ?ns sel]\<rparr>)"
      unfolding getPVCEventWatch_def Let_def bind_ask sel_def [symmetric] by (simp add: Inl)
    then show thesis by (rule that(1) [where xs = "[ListEvents ?ns sel]"]) simp_all
  next
    case (Inr items)
    define t where "t = WatchEvents ?ns sel (if items = [] then [] else last items)"
    let ?w = "w\<lparr>history := history w @ [ListEvents ?ns sel, StartWatch t]\<rparr>"
    have R: "getPVCEventWatch c ty reason e w = (Done (case start_watch e (history w @ [ListEvents ?ns sel]) t of Some x \<Rightarrow> Inl x | None \<Rightarrow> Inr t), ?w)"
      unfolding getPVCEventWatch_def Let_def bind_ask sel_def [symmetric] t_def by (simp add: Inr)
    show thesis
    proof (cases "start_watch e (history w @ [ListEvents ?ns sel]) t")
      case None
      show thesis by (rule that(2) [where xs = "[ListEvents ?ns sel, StartWatch t]", OF R [unfolded None option.case]]) (simp_all add: None)
    next
      case (Some x)
      show thesis by (rule that(1) [where xs = "[ListEvents ?ns sel, StartWatch t]", OF R [unfolded Some option.case]]) (simp_all add: Some)
    qed
  qed
qed

text \<open>
  C39. Starting the three watches of a claim is all or nothing: when one of them, or the listing
  that precedes it, fails, those that are open already are stopped and the error is returned;
  otherwise exactly the three returned ones are open (watches that the others hold apart).
\<close>

theorem watchPVC_all_or_nothing:
  "\<exists>r w' xs. watchPVC c e w = (Done r, w') \<and> history w' = history w @ xs \<and>
     open_watches e (history w) xs [] = (case r of Inl _ \<Rightarrow> [] | Inr ts \<Rightarrow> ts) \<and>
     (case r of Inl _ \<Rightarrow> True | Inr ts \<Rightarrow> length ts = 3 \<and> hd ts = WatchClaim (pvc_name c) (pvc_resourceVersion c))"
proof -
  let ?p = "WatchClaim (pvc_name c) (pvc_resourceVersion c)"
  let ?w = "w\<lparr>history := history w @ [StartWatch ?p]\<rparr>"
  show ?thesis
  proof (cases "start_watch e (history w) ?p")
    case (Some x)
    then have "watchPVC c e w = (Done (Inl x), ?w)" by (simp add: watchPVC_def Let_def)
    then show ?thesis using Some by (intro exI [of _ "Inl x"] exI [of _ ?w] exI [of _ "[StartWatch ?p]"]) simp
  next
    case p: None
    show ?thesis
    proof (cases rule: event_watch_cases [of c "''Warning''" "''ProvisioningFailed''" e ?w])
      case (failed x w1 xs)
      let ?w2 = "w1\<lparr>history := history w1 @ [StopWatch ?p]\<rparr>"
      have "watchPVC c e w = (Done (Inl x), ?w2)"
        using p failed(1) by (simp add: watchPVC_def Let_def stop_watch_def)
      then show ?thesis using p failed(2,3)
        by (intro exI [of _ "Inl x"] exI [of _ ?w2] exI [of _ "StartWatch ?p # xs @ [StopWatch ?p]"]) simp
    next
      case (started t w1 xs)
      show ?thesis
      proof (cases rule: event_watch_cases [of c "''Normal''" "''ProvisioningSucceeded''" e w1])
        case (failed x w2 ys)
        let ?w3 = "w2\<lparr>history := history w2 @ [StopWatch t, StopWatch ?p]\<rparr>"
        have "watchPVC c e w = (Done (Inl x), ?w3)"
          using p started(1) failed(1) by (simp add: watchPVC_def Let_def stop_watch_def)
        then show ?thesis using p started(2,3) failed(2,3)
          by (intro exI [of _ "Inl x"] exI [of _ ?w3] exI [of _ "StartWatch ?p # xs @ ys @ [StopWatch t, StopWatch ?p]"]) simp
      next
        case s: (started u w2 ys)
        have "watchPVC c e w = (Done (Inr [?p, t, u]), w2)"
          using p started(1) s(1) by (simp add: watchPVC_def Let_def)
        then show ?thesis using p started(2,3) s(2,3)
          by (intro exI [of _ "Inr [?p, t, u]"] exI [of _ w2] exI [of _ "StartWatch ?p # xs @ ys"]) simp
      qed
    qed
  qed
qed

end
