(* ===== verification/Watching.thy ===== *)
theory Watching
  imports ControllerFacts
begin

text \<open>
  The goroutines that watch a claim while its lock is raced for (\<open>watchProvisioning\<close> and \<open>watchPVC\<close>
  of \<open>lib/controller/controller.go\<close>): one relays the events of the three watches, one turns them
  into results for \<open>le.Run\<close>. They talk over channels without a buffer, so that a send waits for its
  receiver, and they end when a channel is closed.
\<close>

section \<open>States and steps\<close>

text \<open>The relay and the watcher: waiting in their select, waiting to send, or returned.\<close>

datatype relay = Relaying | Passing string watch_object | RelayDone

datatype watcher = Awaiting | Sending bool | WatcherDone

text \<open>
  \<open>running_le\<close> holds until \<open>le.Run\<close> has returned. The last two fields are facts about the past: what
  \<open>le.Run\<close> received, and what \<open>watch_result\<close> made of the events.
\<close>

record watching =
  relay_of :: relay
  watcher_of :: watcher
  running_le :: bool
  stop_closed :: bool
  stopWatch_closed :: bool
  success_closed :: bool
  event_closed :: bool
  watches_open :: "watch_target list"
  received :: "bool list"
  verdicts :: "bool list"

definition watch_start :: "watch_target list \<Rightarrow> watching" where
  "watch_start ts = \<lparr>relay_of = Relaying, watcher_of = Awaiting, running_le = True, stop_closed = False,
     stopWatch_closed = False, success_closed = False, event_closed = False, watches_open = ts,
     received = [], verdicts = []\<rparr>"

text \<open>The deferred calls of the relay: it closes \<open>eventCh\<close> and stops the watches.\<close>

definition relay_returns :: "watching \<Rightarrow> watching" where
  "relay_returns st = st\<lparr>relay_of := RelayDone, event_closed := True, watches_open := []\<rparr>"

inductive relay_step :: "watching \<Rightarrow> watching \<Rightarrow> bool" where
  stopped: "relay_of st = Relaying \<Longrightarrow> stopWatch_closed st \<Longrightarrow> relay_step st (relay_returns st)"
| event: "relay_of st = Relaying \<Longrightarrow> relay_step st (st\<lparr>relay_of := Passing ty object\<rparr>)"
| watch_closed: "relay_of st = Relaying \<Longrightarrow> relay_step st (relay_returns st)"

text \<open>The deferred calls of the watcher: it closes \<open>successCh\<close>, then \<open>stopWatchPVC\<close>.\<close>

definition watcher_returns :: "watching \<Rightarrow> watching" where
  "watcher_returns st = st\<lparr>watcher_of := WatcherDone, success_closed := True, stopWatch_closed := True\<rparr>"

text \<open>
  A closed \<open>eventCh\<close> yields events without an object, again and again. The controller that an event
  is judged by is the one of the moment, which the other goroutines may have changed.
\<close>

definition judged :: "bool option \<Rightarrow> watching \<Rightarrow> watching" where
  "judged r st = (case r of None \<Rightarrow> st | Some b \<Rightarrow> st\<lparr>watcher_of := Sending b, verdicts := verdicts st @ [b]\<rparr>)"

inductive watcher_step :: "env \<Rightarrow> watching \<Rightarrow> watching \<Rightarrow> bool" for e :: env where
  stop: "watcher_of st = Awaiting \<Longrightarrow> stop_closed st \<Longrightarrow> watcher_step e st (watcher_returns st)"
| receive: "watcher_of st = Awaiting \<Longrightarrow> relay_of st = Passing ty object \<Longrightarrow>
    watch_result ctrl ty object e w = (Done (r, ctrl'), w') \<Longrightarrow>
    watcher_step e st (judged r (st\<lparr>relay_of := Relaying\<rparr>))"
| receive_zero: "watcher_of st = Awaiting \<Longrightarrow> event_closed st \<Longrightarrow>
    watch_result ctrl '''' NoObject e w = (Done (r, ctrl'), w') \<Longrightarrow> watcher_step e st (judged r st)"

text \<open>The other end: \<open>le.Run\<close> takes results while it runs, and \<open>stopCh\<close> is closed when it returns.\<close>

inductive runner_step :: "watching \<Rightarrow> watching \<Rightarrow> bool" where
  take_result: "running_le st \<Longrightarrow> watcher_of st = Sending b \<Longrightarrow>
    runner_step st (st\<lparr>watcher_of := Awaiting, received := received st @ [b]\<rparr>)"
| return: "running_le st \<Longrightarrow> runner_step st (st\<lparr>running_le := False, stop_closed := True\<rparr>)"

definition watch_step :: "env \<Rightarrow> watching \<Rightarrow> watching \<Rightarrow> bool" where
  "watch_step e st st' \<longleftrightarrow> relay_step st st' \<or> watcher_step e st st' \<or> runner_step st st'"

inductive_cases relay_stepE: "relay_step st st'"
inductive_cases watcher_stepE: "watcher_step e st st'"
inductive_cases runner_stepE: "runner_step st st'"

abbreviation watch_steps :: "env \<Rightarrow> watching \<Rightarrow> watching \<Rightarrow> bool" where
  "watch_steps e \<equiv> rtranclp (watch_step e)"

section \<open>Order and closing\<close>

definition watching_ok :: "watch_target list \<Rightarrow> watching \<Rightarrow> bool" where
  "watching_ok ts st \<longleftrightarrow>
     verdicts st = received st @ (case watcher_of st of Sending b \<Rightarrow> [b] | _ \<Rightarrow> []) \<and>
     (success_closed st \<longleftrightarrow> watcher_of st = WatcherDone) \<and> (stopWatch_closed st \<longleftrightarrow> watcher_of st = WatcherDone) \<and>
     (event_closed st \<longleftrightarrow> relay_of st = RelayDone) \<and> watches_open st = (if relay_of st = RelayDone then [] else ts) \<and>
     (stop_closed st \<longleftrightarrow> \<not> running_le st) \<and> (watcher_of st = WatcherDone \<longrightarrow> \<not> running_le st)"

lemma no_object_result: "watch_result ctrl ty NoObject e w = (Done (r, ctrl'), w') \<longleftrightarrow> r = None \<and> ctrl' = ctrl \<and> w' = w"
  by (auto simp: watch_result_def)

lemma watching_ok_step: "watching_ok ts st \<Longrightarrow> watch_step e st st' \<Longrightarrow> watching_ok ts st'"
  unfolding watch_step_def
  by (elim disjE relay_stepE watcher_stepE runner_stepE)
    (auto simp: watching_ok_def relay_returns_def watcher_returns_def judged_def no_object_result split: option.split)

lemma watching_ok_steps: "watch_steps e (watch_start ts) st \<Longrightarrow> watching_ok ts st"
proof (induction rule: rtranclp_induct)
  case base
  then show ?case by (simp add: watching_ok_def watch_start_def)
qed (rule watching_ok_step)

text \<open>
  C37. The results of a claim's provisioning reach the election in the order of the events, none
  twice and none lost but for one that is still being sent; \<open>le.Run\<close> never receives from a closed
  channel; and the watches stay open exactly until the relay has returned.
\<close>

theorem results_in_order:
  assumes "watch_steps e (watch_start ts) st"
  shows "verdicts st = received st @ (case watcher_of st of Sending b \<Rightarrow> [b] | _ \<Rightarrow> []) \<and>
    \<not> (running_le st \<and> success_closed st) \<and>
    watches_open st = (if relay_of st = RelayDone then [] else ts)"
  using watching_ok_steps [OF assms] by (auto simp: watching_ok_def)

section \<open>Goroutines that never end\<close>

text \<open>
  Nobody takes a result once \<open>le.Run\<close> has returned, and nobody takes an event once the watcher has.
\<close>

definition judged_silent :: "env \<Rightarrow> string \<Rightarrow> watch_object \<Rightarrow> bool" where
  "judged_silent e ty object \<longleftrightarrow> (\<exists>ctrl w ctrl' w'. watch_result ctrl ty object e w = (Done (None, ctrl'), w'))"

definition may_end :: "env \<Rightarrow> watching \<Rightarrow> bool" where
  "may_end e st \<longleftrightarrow> (\<forall>b. watcher_of st \<noteq> Sending b) \<and>
     (\<forall>ty object. relay_of st = Passing ty object \<longrightarrow> watcher_of st = Awaiting \<and> judged_silent e ty object)"

lemma stuck_step:
  "watch_step e st st' \<Longrightarrow> \<not> running_le st \<Longrightarrow> \<not> may_end e st \<Longrightarrow> \<not> running_le st' \<and> \<not> may_end e st'"
  unfolding watch_step_def
  by (elim disjE relay_stepE watcher_stepE runner_stepE)
    (auto simp: may_end_def judged_silent_def relay_returns_def watcher_returns_def judged_def no_object_result split: option.splits)

lemma stuck_steps: "watch_steps e st st' \<Longrightarrow> \<not> running_le st \<Longrightarrow> \<not> may_end e st \<Longrightarrow> \<not> may_end e st'"
proof -
  assume "watch_steps e st st'" "\<not> running_le st" "\<not> may_end e st"
  then have "\<not> running_le st' \<and> \<not> may_end e st'"
    by (induction rule: rtranclp_induct) (use stuck_step in blast)+
  then show ?thesis by simp
qed

definition watching_ended :: "watching \<Rightarrow> bool" where
  "watching_ended st \<longleftrightarrow> watcher_of st = WatcherDone \<and> relay_of st = RelayDone \<and> watches_open st = []"

lemma relay_ends:
  assumes "watching_ok ts st" "watcher_of st = WatcherDone" "\<forall>ty object. relay_of st \<noteq> Passing ty object"
  shows "\<exists>st'. watch_steps e st st' \<and> watching_ended st'"
proof (cases "relay_of st")
  case Relaying
  then have "watch_step e st (relay_returns st)"
    using assms(1,2) by (auto simp: watch_step_def watching_ok_def intro: relay_step.stopped)
  then show ?thesis using assms(2) by (intro exI [of _ "relay_returns st"]) (auto simp: watching_ended_def relay_returns_def)
next
  case RelayDone
  then show ?thesis using assms(1,2) by (intro exI [of _ st]) (simp add: watching_ended_def watching_ok_def)
qed (use assms(3) in simp)

lemma watcher_ends:
  assumes "watching_ok ts st" "\<not> running_le st" "watcher_of st = Awaiting" "\<forall>ty object. relay_of st \<noteq> Passing ty object"
  shows "\<exists>st'. watch_steps e st st' \<and> watching_ended st'"
proof -
  have S: "watch_step e st (watcher_returns st)"
    using assms(1-3) by (auto simp: watch_step_def watching_ok_def intro: watcher_step.stop)
  obtain st' where "watch_steps e (watcher_returns st) st'" "watching_ended st'"
    using relay_ends [OF watching_ok_step [OF assms(1) S], of e] assms(4) by (auto simp: watcher_returns_def)
  then show ?thesis using S by (meson converse_rtranclp_into_rtranclp)
qed


text \<open>A provisioning that succeeds: its event is taken, and the update of the claim finds nobody.\<close>

definition bound_pvc :: pvc where
  "bound_pvc = sample_pvc\<lparr>pvc_volumeName := ''k8s-u-1''\<rparr>"

lemma demo_leak:
  obtains st where "watch_steps quiet_env (watch_start [WatchClaim ''data'' ''7'']) st" "\<not> running_le st"
    "relay_of st = Relaying" "watcher_of st = Sending True" "received st = [True]" "verdicts st = [True, True]"
proof -
  let ?s0 = "watch_start [WatchClaim ''data'' ''7'']"
  let ?s1 = "?s0\<lparr>relay_of := Passing ''ADDED'' (EventObject ''ProvisioningSucceeded'')\<rparr>"
  let ?s2 = "judged (Some True) (?s1\<lparr>relay_of := Relaying\<rparr>)"
  let ?s3 = "?s2\<lparr>watcher_of := Awaiting, received := received ?s2 @ [True]\<rparr>"
  let ?s4 = "?s3\<lparr>relay_of := Passing ''MODIFIED'' (ClaimObject bound_pvc)\<rparr>"
  let ?s5 = "judged (Some True) (?s4\<lparr>relay_of := Relaying\<rparr>)"
  let ?s6 = "?s5\<lparr>running_le := False, stop_closed := True\<rparr>"
  note defs = watch_start_def judged_def
  have "watch_step quiet_env ?s0 ?s1" unfolding watch_step_def by (intro disjI1 relay_step.event) (simp add: defs)
  moreover have "watch_step quiet_env ?s1 ?s2"
    unfolding watch_step_def
    by (intro disjI2 disjI1 watcher_step.receive [where w = idle_world]) (auto simp: watch_start_def watch_result_def ret_def)
  moreover have "watch_step quiet_env ?s2 ?s3"
    unfolding watch_step_def by (intro disjI2 runner_step.take_result) (simp_all add: defs)
  moreover have "watch_step quiet_env ?s3 ?s4" unfolding watch_step_def by (intro disjI1 relay_step.event) (simp add: defs)
  moreover have "watch_step quiet_env ?s4 ?s5"
    unfolding watch_step_def
    by (intro disjI2 disjI1 watcher_step.receive [where w = idle_world])
      (auto simp: defs watch_result_def ret_def bound_pvc_def)
  moreover have "watch_step quiet_env ?s5 ?s6" unfolding watch_step_def by (intro disjI2 runner_step.return) (simp add: defs)
  ultimately have "watch_steps quiet_env ?s0 ?s6" by (meson rtranclp.rtrancl_into_rtrancl rtranclp.rtrancl_refl)
  then show thesis by (rule that) (simp_all add: defs)
qed

theorem results_in_order_witness:
  "\<exists>st. watch_steps quiet_env (watch_start [WatchClaim ''data'' ''7'']) st \<and> received st = [True] \<and>
     verdicts st = received st @ [True] \<and> watches_open st = [WatchClaim ''data'' ''7'']"
proof -
  obtain st where "watch_steps quiet_env (watch_start [WatchClaim ''data'' ''7'']) st"
    "relay_of st = Relaying" "watcher_of st = Sending True" "received st = [True]" by (rule demo_leak)
  with results_in_order [OF this(1)] show ?thesis by auto
qed


end
