(* ===== verification/Operations.thy ===== *)
theory Operations
  imports ControllerFacts
begin

text \<open>
  The controller at work: its handlers start operations in the background, which end in any
  order, and the operations of one name exclude each other (\<open>scheduleOperation\<close> of
  \<open>lib/controller/controller.go\<close> with the map of operations).

  An operation is started by a handler or an elector and takes effect when it ends; what the
  others do in between is up to the environment, which answers every call as it likes.
\<close>

section \<open>Steps\<close>

record system =
  controller_of :: controller
  world_of :: world
  now_of :: int
  running :: "operation list"

definition started :: "operation option \<times> controller \<Rightarrow> world \<Rightarrow> system \<Rightarrow> system" where
  "started r w s = s\<lparr>controller_of := snd r, world_of := w,
     running := (case fst r of None \<Rightarrow> running s | Some op' \<Rightarrow> op' # running s)\<rparr>"

text \<open>
  The end of an operation: its entry in the map of operations goes, or stays for the back-off
  after an error or a panic, which the map recovers from.
\<close>

definition completed :: "operation \<Rightarrow> bool \<Rightarrow> controller \<Rightarrow> world \<Rightarrow> system \<Rightarrow> system" where
  "completed op' failed ctrl w s = s\<lparr>controller_of := ctrl\<lparr>runningOperations :=
       grm_complete (opName op') failed (now_of s) (runningOperations ctrl)\<rparr>,
     world_of := w, running := remove1 op' (running s)\<rparr>"

text \<open>
  A deletion that panics in \<open>shouldDelete\<close> leaves the mutex of the deletion statistics locked in the
  code, so later deletions wait for ever. The steps below do not track the mutex: they allow more
  than the code does, and an invariant of theirs is one of the code.
\<close>

inductive controller_step :: "env \<Rightarrow> system \<Rightarrow> system \<Rightarrow> bool" for e :: env where
  time: "0 \<le> d \<Longrightarrow> controller_step e s (s\<lparr>now_of := now_of s + d\<rparr>)"
| notified: "notify (now_of s) (controller_of s) ev e (world_of s) = (Done r, w) \<Longrightarrow>
    controller_step e s (started r w s)"
| provisioned: "ProvisionClaim c \<in> set (running s) \<Longrightarrow>
    provisionClaimOperation (controller_of s) c e (world_of s) = (Done er, w) \<Longrightarrow>
    controller_step e s (completed (ProvisionClaim c) (er \<noteq> None) (updateProvisionStats c er (controller_of s)) w s)"
| provision_panicked: "ProvisionClaim c \<in> set (running s) \<Longrightarrow>
    provisionClaimOperation (controller_of s) c e (world_of s) = (Panic p, w) \<Longrightarrow>
    controller_step e s (completed (ProvisionClaim c) True (controller_of s) w s)"
| volume_deleted: "DeleteVolumeOf v \<in> set (running s) \<Longrightarrow>
    deleteVolumeOperation (controller_of s) v e (world_of s) = (Done (er, ctrl), w) \<Longrightarrow>
    controller_step e s (completed (DeleteVolumeOf v) (er \<noteq> None) (updateDeleteStats v er ctrl) w s)"
| delete_panicked: "DeleteVolumeOf v \<in> set (running s) \<Longrightarrow>
    deleteVolumeOperation (controller_of s) v e (world_of s) = (Panic p, w) \<Longrightarrow>
    controller_step e s (completed (DeleteVolumeOf v) True (controller_of s) w s)"
| elector_moved: "LockProvision c \<in> set (running s) \<Longrightarrow>
    lockProvisionClaimOperation first later sv (controller_of s) c e (world_of s) = (Done (False, cs, sv', ctrl), w) \<Longrightarrow>
    controller_step e s (s\<lparr>controller_of := ctrl\<rparr>)"
| started_leading: "LockProvision c \<in> set (running s) \<Longrightarrow>
    lockProvisionClaimOperation first later sv (controller_of s) c e (world_of s) = (Done (x, cs, sv', ctrl), w) \<Longrightarrow>
    StartedLeading \<in> set cs \<Longrightarrow>
    controller_step e s (started (scheduleOperation (now_of s) (ProvisionClaim c) (controller_of s)) (world_of s) s)"
| lock_released: "LockProvision c \<in> set (running s) \<Longrightarrow>
    lockProvisionClaimOperation first later sv (controller_of s) c e (world_of s) = (Done (True, cs, sv', ctrl), w) \<Longrightarrow>
    controller_step e s (completed (LockProvision c) False ctrl w s)"

inductive controller_reachable :: "env \<Rightarrow> system \<Rightarrow> bool" for e :: env where
  init: "NewProvisionController uuid provs (Inr v) options = Done ctrl \<Longrightarrow>
    \<forall>f \<in> set options. \<exists>d. f \<in> {ResyncPeriod d, LeaseDurationOption d, RenewDeadlineOption d, RetryPeriodOption d, TermLimitOption d} \<Longrightarrow>
    controller_reachable e \<lparr>controller_of = run_controller ctrl, world_of = w, now_of = t, running = []\<rparr>"
| step: "controller_reachable e s \<Longrightarrow> controller_step e s s' \<Longrightarrow> controller_reachable e s'"

section \<open>The invariant\<close>

definition pending :: "(string, op_entry) gomap \<Rightarrow> string \<Rightarrow> bool" where
  "pending ops n \<longleftrightarrow> (case mget ops n of Some x \<Rightarrow> operationPending x | None \<Rightarrow> False)"

text \<open>Durations of the elections that \<open>NewLeaderElector\<close> accepts.\<close>

definition election_possible :: "controller \<Rightarrow> bool" where
  "election_possible c \<longleftrightarrow> renewDeadline c < leaseDuration c \<and> jittered (retryPeriod c) < renewDeadline c"

text \<open>
  The running operations have distinct names, which are the pending ones of the map; and an
  elector is only there while the operation that races with it runs.
\<close>

definition system_ok :: "system \<Rightarrow> bool" where
  "system_ok s \<longleftrightarrow>
     distinct (map opName (running s)) \<and>
     (\<forall>n. pending (runningOperations (controller_of s)) n \<longleftrightarrow> n \<in> opName ` set (running s)) \<and>
     (\<forall>u. mget (leaderElectors (controller_of s)) u \<noteq> None \<longrightarrow>
        election_possible (controller_of s) \<and> (\<exists>c. LockProvision c \<in> set (running s) \<and> pvc_uid c = u))"

lemma grm_run_pending:
  "grm_run n now ops = Inr ops' \<Longrightarrow> \<not> pending ops n \<and> (\<forall>m. pending ops' m \<longleftrightarrow> m = n \<or> pending ops m)"
  by (auto simp: grm_run_def pending_def split: option.splits if_splits)

lemma grm_complete_pending: "pending (grm_complete n failed now ops) m \<longleftrightarrow> m \<noteq> n \<and> pending ops m"
  by (auto simp: grm_complete_def pending_def Let_def)

text \<open>What the controller is made with and never changes.\<close>

definition setup_of :: "controller \<Rightarrow> (string, provisioner) gomap \<times> version \<times> uid \<times> int \<times> int \<times> int list" where
  "setup_of c = (proviserners c, kubeVersion c, identity c, createProvisionedPVRetryCount c, createProvisionedPVInterval c,
     [failedProvisionThreshold c, failedDeleteThreshold c, leaseDuration c, renewDeadline c, retryPeriod c, termLimit c])"

lemma setup_election: "setup_of c' = setup_of c \<Longrightarrow> election_possible c' = election_possible c"
  by (simp add: setup_of_def election_possible_def)

definition same_control :: "controller \<Rightarrow> controller \<Rightarrow> bool" where
  "same_control c c' \<longleftrightarrow> runningOperations c' = runningOperations c \<and> leaderElectors c' = leaderElectors c \<and>
     setup_of c' = setup_of c"

lemmas control_defs = same_control_def setup_of_def

lemma same_control_iff:
  "same_control c c' \<longleftrightarrow> runningOperations c' = runningOperations c \<and> leaderElectors c' = leaderElectors c \<and>
     setup_of c' = setup_of c \<and> election_possible c' = election_possible c"
  using setup_election [of c' c] unfolding same_control_def by blast

lemma scheduleOperation_cases:
  assumes "scheduleOperation now op' ctrl = (r, c)"
  shows "r = None \<and> c = ctrl \<or> r = Some op' \<and> leaderElectors c = leaderElectors ctrl \<and>
    setup_of c = setup_of ctrl \<and> grm_run (opName op') now (runningOperations ctrl) = Inr (runningOperations c)"
  using assms by (auto simp: scheduleOperation_def control_defs split: sum.splits)

lemma shouldProvision_control:
  assumes "shouldProvision ctrl c e w = (Done (b, ctrl'), w')"
  shows "same_control ctrl ctrl'"
proof -
  obtain r w1 where F: "getStorageClassFields (GetPersistentVolumeClaimClass c) e w = (Done r, w1)"
    using fields_Done by blast
  show ?thesis using assms F
    by (cases r) (auto simp: shouldProvision_def note_given_up_def control_defs bind_eq_Done
        split: if_splits option.splits)
qed

lemma shouldDelete_control: "shouldDelete ctrl v e w = (Done (b, ctrl'), w') \<Longrightarrow> same_control ctrl ctrl'"
  by (auto simp: shouldDelete_def note_given_up_def control_defs bind_eq_Done split: if_splits option.splits)

text \<open>What a handler may do to the controller: nothing of interest, or one scheduling.\<close>

inductive scheduled :: "int \<Rightarrow> controller \<Rightarrow> operation option \<times> controller \<Rightarrow> bool" for now ctrl where
  nothing: "same_control ctrl c \<Longrightarrow> scheduled now ctrl (None, c)"
| one: "same_control ctrl c \<Longrightarrow> scheduled now ctrl (scheduleOperation now op' c)"

lemma same_control_refl [simp]: "same_control c c"
  by (simp add: same_control_def)

lemma addClaim_scheduled:
  assumes "addClaim now ctrl obj e w = (Done r, w')"
  shows "scheduled now ctrl r"
proof (cases obj)
  case None
  then show ?thesis using assms by (auto simp: addClaim_def intro: scheduled.intros)
next
  case (Some c)
  then obtain b ctrl' w1 where P: "shouldProvision ctrl c e w = (Done (b, ctrl'), w1)"
    using assms by (auto simp: addClaim_def bind_eq_Done)
  have "same_control ctrl ctrl'" by (rule shouldProvision_control [OF P])
  then show ?thesis using assms Some P
    by (auto simp: addClaim_def split: if_splits option.splits intro: scheduled.intros)
qed

lemma updateClaim_scheduled: "updateClaim now ctrl a b e w = (Done r, w') \<Longrightarrow> scheduled now ctrl r"
  by (auto simp: updateClaim_def split: option.splits if_splits intro: addClaim_scheduled scheduled.intros)

lemma updateVolume_scheduled:
  assumes "updateVolume now ctrl obj e w = (Done r, w')"
  shows "scheduled now ctrl r"
proof (cases obj)
  case None
  then show ?thesis using assms by (auto simp: updateVolume_def intro: scheduled.intros)
next
  case (Some v)
  then obtain b ctrl' w1 where P: "shouldDelete ctrl v e w = (Done (b, ctrl'), w1)"
    using assms by (auto simp: updateVolume_def bind_eq_Done)
  have "same_control ctrl ctrl'" by (rule shouldDelete_control [OF P])
  then show ?thesis using assms Some P by (auto simp: updateVolume_def split: if_splits intro: scheduled.intros)
qed

lemma notify_scheduled: "notify now ctrl ev e w = (Done r, w') \<Longrightarrow> scheduled now ctrl r"
  by (cases ev) (auto simp: bind_eq_Done intro: addClaim_scheduled updateClaim_scheduled updateVolume_scheduled scheduled.intros)

lemma system_ok_started:
  assumes ok: "system_ok s" and r: "scheduled (now_of s) (controller_of s) r"
  shows "system_ok (started r w s)"
proof -
  have same: "system_ok (started (None, c) w s)" if "same_control (controller_of s) c" for c
    using ok that by (simp add: system_ok_def started_def same_control_iff)
  show ?thesis using r
  proof cases
    case (nothing c)
    then show ?thesis using same by simp
  next
    case (one c op')
    obtain x c' where r: "r = (x, c')" by fastforce
    show ?thesis
    proof (cases x)
      case None
      then have "c' = c" using scheduleOperation_cases [of "now_of s" op' c x c'] one(1) r by simp
      then show ?thesis using same one(2) r None by simp
    next
      case (Some y)
      then have y: "y = op'" "leaderElectors c' = leaderElectors c" "election_possible c' = election_possible c"
          "grm_run (opName op') (now_of s) (runningOperations c) = Inr (runningOperations c')"
        using scheduleOperation_cases [of "now_of s" op' c x c'] one(1) r setup_election [of c' c] by simp_all
      have P: "\<not> pending (runningOperations c) (opName op')"
          "\<And>m. pending (runningOperations c') m \<longleftrightarrow> m = opName op' \<or> pending (runningOperations c) m"
        using grm_run_pending [OF y(4)] by auto
      have "opName op' \<notin> opName ` set (running s)"
        using P(1) ok one(2) by (simp add: system_ok_def same_control_iff)
      then show ?thesis using ok one(2) y(1-3) P(2) unfolding r Some
        by (auto simp: system_ok_def started_def same_control_iff)
    qed
  qed
qed

lemma system_ok_completed:
  assumes ok: "system_ok s" and mem: "op' \<in> set (running s)"
    and ops: "runningOperations ctrl = runningOperations (controller_of s)"
    and els: "\<And>u. mget (leaderElectors ctrl) u \<noteq> None \<Longrightarrow> election_possible ctrl \<and> mget (leaderElectors (controller_of s)) u \<noteq> None \<and>
      (\<forall>c. op' = LockProvision c \<longrightarrow> u \<noteq> pvc_uid c)"
  shows "system_ok (completed op' failed ctrl w s)"
proof -
  have d: "distinct (map opName (running s))" using ok by (simp add: system_ok_def)
  then have ds: "distinct (running s)" by (simp add: distinct_map)
  have names: "opName ` (set (running s) - {op'}) = opName ` set (running s) - {opName op'}"
    using d mem by (auto simp: distinct_map inj_on_def)
  have dn: "distinct (map opName (remove1 op' (running s)))"
    using d ds by (auto simp: distinct_map inj_on_def set_remove1_eq)
  have ep: "election_possible (ctrl\<lparr>runningOperations := x\<rparr>) = election_possible ctrl" for x
    by (simp add: election_possible_def)
  have "election_possible ctrl \<and> (\<exists>c. LockProvision c \<in> set (remove1 op' (running s)) \<and> pvc_uid c = u)" if u: "mget (leaderElectors ctrl) u \<noteq> None" for u
  proof -
    obtain c where "LockProvision c \<in> set (running s)" "pvc_uid c = u"
      using ok els [OF u] by (auto simp: system_ok_def)
    moreover have "LockProvision c \<noteq> op'" using els [OF u] \<open>pvc_uid c = u\<close> by auto
    ultimately show ?thesis using ds els [OF u] by (auto simp: set_remove1_eq)
  qed
  then show ?thesis using ok dn ops
    by (simp add: system_ok_def completed_def ep grm_complete_pending set_remove1_eq [OF ds] names) blast
qed

lemma apply_options_fresh:
  "\<forall>f \<in> set options. \<exists>d. f \<in> {ResyncPeriod d, LeaseDurationOption d, RenewDeadlineOption d, RetryPeriodOption d, TermLimitOption d} \<Longrightarrow>
     runningOperations (apply_options options c) = runningOperations c \<and> leaderElectors (apply_options options c) = leaderElectors c"
proof (induction options arbitrary: c)
  case (Cons f fs)
  then obtain d where "f \<in> {ResyncPeriod d, LeaseDurationOption d, RenewDeadlineOption d, RetryPeriodOption d, TermLimitOption d}"
    by auto
  then have "runningOperations (snd (f c)) = runningOperations c \<and> leaderElectors (snd (f c)) = leaderElectors c"
    by (auto simp: ResyncPeriod_def LeaseDurationOption_def RenewDeadlineOption_def RetryPeriodOption_def
        TermLimitOption_def option_of_def)
  then show ?case using Cons by simp
qed simp

text \<open>Every result of m satisfies Q.\<close>

definition yields :: "('a \<Rightarrow> bool) \<Rightarrow> 'a prog \<Rightarrow> bool" where
  "yields Q m \<longleftrightarrow> (\<forall>e w x w'. m e w = (Done x, w') \<longrightarrow> Q x)"

lemma yieldsD: "yields Q m \<Longrightarrow> m e w = (Done x, w') \<Longrightarrow> Q x"
  unfolding yields_def by blast

lemma yields_bind_with: "yields R m \<Longrightarrow> (\<And>x. R x \<Longrightarrow> yields Q (f x)) \<Longrightarrow> yields Q (bind m f)"
  unfolding yields_def bind_eq_Done by blast

lemma yields_bind: "(\<And>x. yields Q (f x)) \<Longrightarrow> yields Q (bind m f)"
  unfolding yields_def bind_eq_Done by blast

lemma yields_simple:
  "Q x \<Longrightarrow> yields Q (ret x)" "yields Q (panic s)"
  "\<And>P m n. (P \<Longrightarrow> yields Q m) \<Longrightarrow> (\<not> P \<Longrightarrow> yields Q n) \<Longrightarrow> yields Q (if P then m else n)"
  "\<And>f p. (\<And>a b. p = (a, b) \<Longrightarrow> yields Q (f a b)) \<Longrightarrow> yields Q (case p of (a, b) \<Rightarrow> f a b)"
  "\<And>m f y. yields Q m \<Longrightarrow> (\<And>a. yields Q (f a)) \<Longrightarrow> yields Q (case y of None \<Rightarrow> m | Some a \<Rightarrow> f a)"
  "\<And>f g y. (\<And>a. yields Q (f a)) \<Longrightarrow> (\<And>a. yields Q (g a)) \<Longrightarrow> yields Q (case y of Inl a \<Rightarrow> f a | Inr a \<Rightarrow> g a)"
  "\<And>f g y. (\<And>a. yields Q (f a)) \<Longrightarrow> (\<And>a. yields Q (g a)) \<Longrightarrow> yields Q (case y of Err a \<Rightarrow> f a | IgnoredError a \<Rightarrow> g a)"
  "\<And>f g y. (\<And>a. yields Q (f a)) \<Longrightarrow> (\<And>a. yields Q (g a)) \<Longrightarrow> yields Q (case y of Done a \<Rightarrow> f a | Panic a \<Rightarrow> g a)"
  by (simp_all add: yields_def split: prod.split option.split sum.split go_error.split outcome.split)

lemma yields_shouldDelete: "yields (\<lambda>(b, c). same_control ctrl c) (shouldDelete ctrl v)"
  using shouldDelete_control by (fastforce simp: yields_def)

lemma deleteVolume_control:
  assumes "deleteVolumeOperation ctrl v e w = (Done (er, ctrl'), w')"
  shows "same_control ctrl ctrl'"
proof -
  have "yields (\<lambda>(er, c). same_control ctrl c) (deleteVolumeOperation ctrl v)"
    unfolding deleteVolumeOperation_def
    by (rule yields_bind_with [OF yields_shouldDelete] | rule yields_bind | rule yields_simple | force)+
  then show ?thesis using yieldsD assms by fastforce
qed

text \<open>What racing for a claim does to the controller, while it lasts and in the end.\<close>

lemma lockProvision_control:
  assumes "lockProvisionClaimOperation first later sv ctrl c e w = (Done (x, cs, sv', ctrl'), w')"
  shows "runningOperations ctrl' = runningOperations ctrl \<and> setup_of ctrl' = setup_of ctrl \<and>
    (if x then leaderElectors ctrl' = (if election_possible ctrl then mdel (pvc_uid c) (leaderElectors ctrl) else leaderElectors ctrl)
     else election_possible ctrl \<and> (\<exists>le. leaderElectors ctrl' = mput (pvc_uid c) le (leaderElectors ctrl)))"
proof (cases "election_possible ctrl")
  case False
  then show ?thesis using assms
    by (auto simp: lockProvisionClaimOperation_def NewLeaderElector_def setup_of_def election_possible_def Let_def split: if_splits)
next
  case True
  have "yields (\<lambda>(x, _, _, ctrl'). runningOperations ctrl' = runningOperations ctrl \<and> setup_of ctrl' = setup_of ctrl \<and>
      (if x then leaderElectors ctrl' = mdel (pvc_uid c) (leaderElectors ctrl)
       else (\<exists>le. leaderElectors ctrl' = mput (pvc_uid c) le (leaderElectors ctrl))))
    (lockProvisionClaimOperation first later sv ctrl c)"
    using True unfolding lockProvisionClaimOperation_def Let_def NewLeaderElector_def
    by (simp add: election_possible_def not_le [symmetric] del: not_le)
      (rule yields_bind | rule yields_simple | force simp: setup_of_def)+
  note Y = this
  from yieldsD [OF Y assms] True show ?thesis by auto
qed

lemma system_ok_other:
  "system_ok s \<Longrightarrow> same_control (controller_of s) c \<Longrightarrow> system_ok (s\<lparr>controller_of := c, world_of := w, now_of := t\<rparr>)"
  by (simp add: system_ok_def same_control_iff)

lemma system_ok_done:
  assumes "system_ok s" "op' \<in> set (running s)" "same_control (controller_of s) ctrl" "\<And>c. op' \<noteq> LockProvision c"
  shows "system_ok (completed op' failed ctrl w s)"
  by (rule system_ok_completed) (use assms in \<open>auto simp: same_control_iff system_ok_def\<close>)

lemma system_ok_step:
  assumes "system_ok s" "controller_step e s s'"
  shows "system_ok s'"
  using assms(2)
proof cases
  case (time d)
  then show ?thesis using assms(1) by (simp add: system_ok_def)
next
  case (notified ev r w)
  show ?thesis unfolding notified(1)
    by (rule system_ok_started [OF assms(1) notify_scheduled [OF notified(2)]])
next
  case (provisioned c er w)
  have "same_control (controller_of s) (updateProvisionStats c er (controller_of s))"
    by (auto simp: updateProvisionStats_def control_defs split: option.splits go_error.splits)
  then show ?thesis unfolding provisioned(1)
    by (rule system_ok_done [OF assms(1) provisioned(2)]) simp
next
  case (provision_panicked c p w)
  show ?thesis unfolding provision_panicked(1)
    by (rule system_ok_done [OF assms(1) provision_panicked(2) same_control_refl]) simp
next
  case (volume_deleted v er ctrl w)
  have "same_control (controller_of s) (updateDeleteStats v er ctrl)"
    using deleteVolume_control [OF volume_deleted(3)]
    by (auto simp: updateDeleteStats_def control_defs split: option.splits)
  then show ?thesis unfolding volume_deleted(1)
    by (rule system_ok_done [OF assms(1) volume_deleted(2)]) simp
next
  case (delete_panicked v p w)
  show ?thesis unfolding delete_panicked(1)
    by (rule system_ok_done [OF assms(1) delete_panicked(2) same_control_refl]) simp
next
  case (elector_moved c first later sv cs sv' ctrl w)
  then show ?thesis using assms(1) lockProvision_control [OF elector_moved(3)] setup_election [of ctrl "controller_of s"]
    by (auto simp: system_ok_def split: if_splits)
next
  case (started_leading c first later sv x cs sv' ctrl w)
  show ?thesis unfolding started_leading(1)
    by (rule system_ok_started [OF assms(1) scheduled.one]) simp
next
  case (lock_released c first later sv cs sv' ctrl w)
  note C = lockProvision_control [OF lock_released(3)]
  show ?thesis unfolding lock_released(1)
  proof (rule system_ok_completed [OF assms(1) lock_released(2)])
    show "runningOperations ctrl = runningOperations (controller_of s)" using C by simp
    fix u assume "mget (leaderElectors ctrl) u \<noteq> None"
    then show "election_possible ctrl \<and> mget (leaderElectors (controller_of s)) u \<noteq> None \<and>
        (\<forall>ca. LockProvision c = LockProvision ca \<longrightarrow> u \<noteq> pvc_uid ca)"
      using C assms(1) setup_election [of ctrl "controller_of s"] by (auto simp: system_ok_def split: if_splits)
  qed
qed

lemma scheduled_setup:
  assumes "scheduled now ctrl r"
  shows "setup_of (snd r) = setup_of ctrl"
  using assms
proof cases
  case (one c op')
  obtain x c' where S: "scheduleOperation now op' c = (x, c')" by fastforce
  then show ?thesis using scheduleOperation_cases [OF S] one by (auto simp: same_control_iff)
qed (simp add: same_control_iff)

lemma setup_completed: "setup_of (ctrl\<lparr>runningOperations := x\<rparr>) = setup_of ctrl"
  by (simp add: setup_of_def)

lemma step_setup:
  assumes "controller_step e s s'"
  shows "setup_of (controller_of s') = setup_of (controller_of s)"
  using assms
proof cases
  case (notified ev r w)
  then show ?thesis using scheduled_setup [OF notify_scheduled [OF notified(2)]] by (simp add: started_def)
next
  case (provisioned c er w)
  then show ?thesis by (auto simp: completed_def updateProvisionStats_def setup_of_def)
next
  case (volume_deleted v er ctrl w)
  then show ?thesis using deleteVolume_control [OF volume_deleted(3)]
    by (auto simp: completed_def updateDeleteStats_def same_control_def setup_of_def)
next
  case (started_leading c first later sv x cs sv' ctrl w)
  then show ?thesis using scheduled_setup [OF scheduled.one [OF same_control_refl]] by (simp add: started_def)
next
  case (elector_moved c first later sv cs sv' ctrl w)
  then show ?thesis using lockProvision_control [OF elector_moved(3)] by simp
next
  case (lock_released c first later sv cs sv' ctrl w)
  then show ?thesis using lockProvision_control [OF lock_released(3)] by (simp add: completed_def setup_completed)
qed (simp_all add: completed_def setup_completed)

lemma steps_setup: "rtranclp (controller_step e) s s' \<Longrightarrow> setup_of (controller_of s') = setup_of (controller_of s)"
  by (induction rule: rtranclp_induct) (simp_all add: step_setup)

lemma system_reachable_ok: "controller_reachable e s \<Longrightarrow> system_ok s"
proof (induction rule: controller_reachable.induct)
  case (init uuid provs v options ctrl w t)
  then show ?case using apply_options_fresh [OF init(2)]
    by (auto simp: NewProvisionController_def Let_def run_controller_def system_ok_def pending_def split: if_splits)
next
  case (step s s')
  then show ?case by (blast intro: system_ok_step)
qed

text \<open>
  C5. Operations of one name exclude each other: in every state that the controller reaches, the
  running operations have distinct names, and none of them can be started a second time, whatever
  the time is. So no two goroutines provision the same claim or delete the same volume at once.
\<close>

theorem operations_exclusive:
  assumes "controller_reachable e s"
  shows "distinct (map opName (running s)) \<and>
    (\<forall>op' now. op' \<in> set (running s) \<longrightarrow> scheduleOperation now op' (controller_of s) = (None, controller_of s))"
proof -
  have ok: "system_ok s" by (rule system_reachable_ok [OF assms])
  have "scheduleOperation now op' (controller_of s) = (None, controller_of s)" if "op' \<in> set (running s)" for op' now
  proof -
    have "pending (runningOperations (controller_of s)) (opName op')" using ok that by (simp add: system_ok_def)
    then show ?thesis using grm_run_pending [of "opName op'" now "runningOperations (controller_of s)"]
      by (auto simp: scheduleOperation_def split: sum.split)
  qed
  then show ?thesis using ok by (simp add: system_ok_def)
qed

text \<open>What a handler starts: the race, or the provisioning that an elector of the claim leads.\<close>

lemma addClaim_starts:
  assumes "addClaim now ctrl (Some claim) e w = (Done r, w')"
  shows "fst r \<in> {None, Some (LockProvision claim)} \<or>
    fst r = Some (ProvisionClaim claim) \<and> (\<exists>le. mget (leaderElectors ctrl) (pvc_uid claim) = Some le \<and> IsLeader le)"
proof -
  obtain b ctrl' w1 where P: "shouldProvision ctrl claim e w = (Done (b, ctrl'), w1)"
    using assms by (auto simp: addClaim_def bind_eq_Done)
  have "leaderElectors ctrl' = leaderElectors ctrl" using shouldProvision_control [OF P] by (simp add: same_control_iff)
  then show ?thesis using assms P
    by (auto simp: addClaim_def scheduleOperation_def split: if_splits option.splits sum.splits)
qed

lemma addClaim_provisions:
  assumes "addClaim now ctrl obj e w = (Done r, w')" "fst r = Some (ProvisionClaim c)"
  shows "mget (leaderElectors ctrl) (pvc_uid c) \<noteq> None"
  using assms addClaim_starts by (cases obj) (fastforce simp: addClaim_def)+

lemma updateClaim_provisions:
  assumes "updateClaim now ctrl a b e w = (Done r, w')" "fst r = Some (ProvisionClaim c)"
  shows "mget (leaderElectors ctrl) (pvc_uid c) \<noteq> None"
  using assms by (auto simp: updateClaim_def split: option.splits if_splits dest: addClaim_provisions)

lemma updateVolume_provisions: "updateVolume now ctrl obj e w = (Done r, w') \<Longrightarrow> fst r \<noteq> Some (ProvisionClaim c)"
  by (auto simp: updateVolume_def scheduleOperation_def bind_eq_Done split: option.splits if_splits sum.splits)

lemma notify_provisions:
  assumes N: "notify now ctrl ev e w = (Done r, w')" and r: "fst r = Some (ProvisionClaim c)"
  shows "mget (leaderElectors ctrl) (pvc_uid c) \<noteq> None"
proof (cases ev)
  case (ClaimAdded obj)
  then show ?thesis using N by (intro addClaim_provisions [OF _ r]) simp
next
  case (ClaimUpdated a b)
  then show ?thesis using N by (intro updateClaim_provisions [OF _ r]) simp
next
  case (VolumeUpdated a b)
  then have "updateVolume now ctrl b e w = (Done r, w')" using N by simp
  then show ?thesis using updateVolume_provisions r by blast
qed (use N r in \<open>auto simp: bind_eq_Done\<close>)

lemma started_new:
  "op' \<in> set (running (started r w s)) \<Longrightarrow> op' \<notin> set (running s) \<Longrightarrow> fst r = Some op'"
  by (auto simp: started_def split: option.splits)

lemma completed_old: "op' \<in> set (running (completed x f c w s)) \<Longrightarrow> op' \<in> set (running s)"
  using notin_set_remove1 by (fastforce simp: completed_def)

lemma fresh_started:
  assumes "scheduled (now_of s) (controller_of s) r" "system_ok s" "fst r = Some op'"
  shows "opName op' \<notin> opName ` set (running s)"
  using assms(1)
proof cases
  case (one c op2)
  obtain x c' where S: "scheduleOperation (now_of s) op2 c = (x, c')" by fastforce
  then have "x = Some op'" using assms(3) one(1) by simp
  then have "op2 = op'" "grm_run (opName op2) (now_of s) (runningOperations c) = Inr (runningOperations c')"
    using scheduleOperation_cases [OF S] by auto
  then have "\<not> pending (runningOperations c) (opName op')" using grm_run_pending by blast
  then show ?thesis using assms(2) one(2) by (simp add: system_ok_def same_control_iff)
qed (use assms(3) in auto)

lemma elector_raced:
  "system_ok s \<Longrightarrow> mget (leaderElectors (controller_of s)) u \<noteq> None \<Longrightarrow>
    \<exists>c'. LockProvision c' \<in> set (running s) \<and> pvc_uid c' = u"
  by (auto simp: system_ok_def)


end
