(* ===== verification/Leadership.thy ===== *)
theory Leadership
  imports Election
begin

text \<open>
  The electors of \<open>lib/leaderelection\<close> racing for one claim: the steps of their \<open>Run\<close> loops
  interleaved in any way, and the safety of the election as an invariant of the reachable states.
\<close>

section \<open>States\<close>

text \<open>
  Where an elector is in its current attempt: nothing in flight; the clock read; the answer of
  \<open>Get\<close> received; about to write; the answer of \<open>Update\<close> received.
\<close>

datatype stage =
  Idle
| Started int
| Received int "lock_error + LeaderElectionRecord"
| Writing int LeaderElectionRecord
| Answered int LeaderElectionRecord err

datatype phase = Acquiring | Leading | Finished

text \<open>
  \<open>won\<close> is the start of the last attempt that succeeded, while the elector has not finished: it
  is a fact about the past of the run that the code does not store.
\<close>

record process =
  elector_of :: elector
  phase_of :: phase
  stage_of :: stage
  won :: "int option"

record election =
  clock :: int
  claim :: server
  electors :: "string \<Rightarrow> process option"

definition set_process :: "string \<Rightarrow> process \<Rightarrow> election \<Rightarrow> election" where
  "set_process i p st = st\<lparr>electors := (electors st)(i := Some p)\<rparr>"

section \<open>Steps\<close>

text \<open>
  The steps of all electors for one claim, interleaved in any way, with a clock that all of them
  read. All use the lease L. Anything else may happen to the claim as long as the lock's
  annotation is left alone: it is updated, or deleted.
\<close>

inductive election_step :: "int \<Rightarrow> election \<Rightarrow> election \<Rightarrow> bool" for L :: int where
  tick: "0 \<le> d \<Longrightarrow> election_step L st (st\<lparr>clock := clock st + d\<rparr>)"
| other: "claim_evolves (claim st) s \<Longrightarrow> s = None \<or> stored_record s = stored_record (claim st) \<Longrightarrow>
    election_step L st (st\<lparr>claim := s\<rparr>)"
| join: "(case electors st i of None \<Rightarrow> True | Some p \<Rightarrow> phase_of p = Finished) \<Longrightarrow>
    NewLeaderElector (Some pl) L deadline retry term = Inr le \<Longrightarrow> Identity pl = i \<Longrightarrow>
    election_step L st (set_process i \<lparr>elector_of = le, phase_of = Acquiring, stage_of = Idle, won = None\<rparr> st)"
| start: "electors st i = Some p \<Longrightarrow> phase_of p \<noteq> Finished \<Longrightarrow> stage_of p = Idle \<Longrightarrow>
    election_step L st (set_process i (p\<lparr>stage_of := Started (clock st)\<rparr>) st)"
| get: "electors st i = Some p \<Longrightarrow> stage_of p = Started now \<Longrightarrow>
    Get f (claim st) (el_lock (elector_of p)) = (res, pl) \<Longrightarrow>
    election_step L st (set_process i (p\<lparr>elector_of := (elector_of p)\<lparr>el_lock := pl\<rparr>, stage_of := Received now res\<rparr>) st)"
| give_up: "electors st i = Some p \<Longrightarrow> stage_of p = Received now res \<Longrightarrow>
    decide now (clock st) res (elector_of p) = (Give_up, le) \<Longrightarrow>
    election_step L st (set_process i (p\<lparr>elector_of := le, stage_of := Idle\<rparr>) st)"
| go_on: "electors st i = Some p \<Longrightarrow> stage_of p = Received now res \<Longrightarrow>
    decide now (clock st) res (elector_of p) = (Write r, le) \<Longrightarrow>
    election_step L st (set_process i (p\<lparr>elector_of := le, stage_of := Writing now r\<rparr>) st)"
| put: "electors st i = Some p \<Longrightarrow> stage_of p = Writing now r \<Longrightarrow>
    Update f r (claim st) (el_lock (elector_of p)) = Done (er, s, pl) \<Longrightarrow>
    election_step L st ((set_process i (p\<lparr>elector_of := (elector_of p)\<lparr>el_lock := pl\<rparr>, stage_of := Answered now r er\<rparr>) st)
      \<lparr>claim := s\<rparr>)"
| conclude: "electors st i = Some p \<Longrightarrow> stage_of p = Answered now r er \<Longrightarrow>
    conclude r (clock st) er (elector_of p) = (ok, le) \<Longrightarrow>
    election_step L st (set_process i (p\<lparr>elector_of := le, stage_of := Idle,
      phase_of := (if ok then Leading else phase_of p), won := (if ok then Some now else won p)\<rparr>) st)"
| finish: "electors st i = Some p \<Longrightarrow> stage_of p = Idle \<Longrightarrow>
    election_step L st (set_process i (p\<lparr>phase_of := Finished, won := None\<rparr>) st)"

text \<open>
  At the start nobody runs for the claim; a record that is there already (of earlier terms) was
  written in the past.
\<close>

definition initial :: "election \<Rightarrow> bool" where
  "initial st \<longleftrightarrow> electors st = (\<lambda>_. None) \<and>
     (case stored_record (claim st) of
        Some r \<Rightarrow> (case RenewTime r of ZeroTime \<Rightarrow> True | Now _ \<Rightarrow> False | Parsed t \<Rightarrow> t * second \<le> clock st)
      | None \<Rightarrow> True)"

inductive reachable :: "int \<Rightarrow> election \<Rightarrow> bool" for L :: int where
  init: "initial st \<Longrightarrow> reachable L st"
| step: "reachable L st \<Longrightarrow> election_step L st st' \<Longrightarrow> reachable L st'"

text \<open>
  An elector leads for sure while its last successful attempt began less than a lease ago, less
  the resolution of the times in the record.
\<close>

definition leads :: "int \<Rightarrow> election \<Rightarrow> string \<Rightarrow> bool" where
  "leads L st i \<longleftrightarrow> (case electors st i of
     Some p \<Rightarrow> (case won p of Some s \<Rightarrow> clock st + second < s + L | None \<Rightarrow> False)
   | None \<Rightarrow> False)"

section \<open>The invariant\<close>

text \<open>The attempts of a process that have succeeded at the server: those it knows of, and one whose answer is on its way.\<close>

definition wins :: "process \<Rightarrow> int \<Rightarrow> bool" where
  "wins p s \<longleftrightarrow> won p = Some s \<or> (\<exists>r. stage_of p = Answered s r None)"

fun past :: "int \<Rightarrow> time \<Rightarrow> bool" where
  "past c ZeroTime = True"
| "past c (Now t) = False"
| "past c (Parsed t) = (t * second \<le> c)"

text \<open>A record was read from a server that the claim has come from.\<close>

definition has_read :: "server \<Rightarrow> process \<Rightarrow> LeaderElectionRecord \<Rightarrow> bool" where
  "has_read s p old \<longleftrightarrow> (\<exists>f s0 l0. Get f s0 l0 = (Inr old, el_lock (elector_of p)) \<and> claim_evolves s0 s)"

definition stage_ok :: "int \<Rightarrow> int \<Rightarrow> server \<Rightarrow> string \<Rightarrow> process \<Rightarrow> bool" where
  "stage_ok L c s i p \<longleftrightarrow>
     (case stage_of p of
        Idle \<Rightarrow> \<forall>w. won p = Some w \<longrightarrow> w \<le> c
      | Started now \<Rightarrow> now \<le> c \<and> (\<forall>w. won p = Some w \<longrightarrow> w \<le> now)
      | Received now res \<Rightarrow> now \<le> c \<and> (\<forall>w. won p = Some w \<longrightarrow> w \<le> now) \<and>
          (\<forall>old. res = Inr old \<longrightarrow> has_read s p old \<and> past c (RenewTime old))
      | Writing now r \<Rightarrow> now \<le> c \<and> (\<forall>w. won p = Some w \<longrightarrow> w \<le> now) \<and>
          HolderIdentity r = i \<and> RenewTime r = Now now \<and>
          (\<exists>old. has_read s p old \<and> (HolderIdentity old = i \<or> (\<forall>t. RenewTime old = Parsed t \<longrightarrow> t * second + L \<le> now)))
      | Answered now r er \<Rightarrow> now \<le> c \<and> (\<forall>w. won p = Some w \<longrightarrow> w \<le> now) \<and> RenewTime r = Now now)"

text \<open>An observed record was not observed before it was written.\<close>

definition seen_late :: "elector \<Rightarrow> bool" where
  "seen_late le \<longleftrightarrow> (\<forall>t. RenewTime (observedRecord le) = Parsed t \<longrightarrow>
     (\<exists>o'. observedTime le = Some o' \<and> t * second \<le> o'))"

definition process_ok :: "int \<Rightarrow> int \<Rightarrow> server \<Rightarrow> string \<Rightarrow> process \<Rightarrow> bool" where
  "process_ok L c s i p \<longleftrightarrow>
     elector_identity (elector_of p) = i \<and> LeaseDuration (elector_of p) = L \<and>
     seen_late (elector_of p) \<and>
     stage_ok L c s i p"

text \<open>What the record at the server says about a success of the elector i that began at w.\<close>

definition win_ok :: "int \<Rightarrow> int \<Rightarrow> LeaderElectionRecord \<Rightarrow> string \<Rightarrow> int \<Rightarrow> bool" where
  "win_ok L c r i w \<longleftrightarrow>
     (if HolderIdentity r = i then \<exists>t. RenewTime r = Parsed t \<and> w < (t + 1) * second
      else w + L \<le> c + second)"

definition election_ok :: "int \<Rightarrow> election \<Rightarrow> bool" where
  "election_ok L st \<longleftrightarrow>
     (\<forall>r. stored_record (claim st) = Some r \<longrightarrow> past (clock st) (RenewTime r)) \<and>
     (\<forall>i p. electors st i = Some p \<longrightarrow> process_ok L (clock st) (claim st) i p) \<and>
     (\<forall>i p w r. electors st i = Some p \<longrightarrow> wins p w \<longrightarrow> stored_record (claim st) = Some r \<longrightarrow>
        win_ok L (clock st) r i w) \<and>
     (\<forall>i j p q v w. electors st i = Some p \<longrightarrow> electors st j = Some q \<longrightarrow> wins p v \<longrightarrow> wins q w \<longrightarrow> i \<noteq> j \<longrightarrow>
        v + L \<le> clock st + second \<or> w + L \<le> clock st + second)"

lemma second_pos [simp]: "0 < second"
  by (simp add: second_def)

lemma past_later: "past c t \<Longrightarrow> c \<le> c' \<Longrightarrow> past c' t"
  by (cases t) auto

lemma has_read_later: "has_read s p old \<Longrightarrow> claim_evolves s s' \<Longrightarrow> has_read s' p old"
  unfolding has_read_def using pvc.evolves_trans by blast

lemma stage_ok_later:
  assumes "stage_ok L c s i p" "c \<le> c'" "claim_evolves s s'"
  shows "stage_ok L c' s' i p"
proof (cases "stage_of p")
  case (Received now res)
  have "has_read s' p old \<and> past c' (RenewTime old)" if "res = Inr old" for old
    using assms(1) Received that has_read_later [OF _ assms(3)] past_later [OF _ assms(2)] by (simp add: stage_ok_def)
  then show ?thesis using assms Received by (simp add: stage_ok_def)
next
  case (Writing now r)
  then obtain old where "has_read s p old"
      "HolderIdentity old = i \<or> (\<forall>t. RenewTime old = Parsed t \<longrightarrow> t * second + L \<le> now)"
    using assms(1) by (auto simp: stage_ok_def)
  then show ?thesis using assms Writing has_read_later [OF _ assms(3)] by (auto simp: stage_ok_def)
qed (use assms in \<open>auto simp: stage_ok_def\<close>)

lemma process_ok_later:
  "process_ok L c s i p \<Longrightarrow> c \<le> c' \<Longrightarrow> claim_evolves s s' \<Longrightarrow> process_ok L c' s' i p"
  unfolding process_ok_def using stage_ok_later by blast

lemma win_ok_later: "win_ok L c r i w \<Longrightarrow> c \<le> c' \<Longrightarrow> win_ok L c' r i w"
  by (auto simp: win_ok_def)

lemma election_ok_simps:
  assumes "election_ok L st"
  shows "stored_record (claim st) = Some r \<Longrightarrow> past (clock st) (RenewTime r)"
    and "electors st i = Some p \<Longrightarrow> process_ok L (clock st) (claim st) i p"
    and "electors st i = Some p \<Longrightarrow> wins p w \<Longrightarrow> stored_record (claim st) = Some r \<Longrightarrow> win_ok L (clock st) r i w"
    and "electors st i = Some p \<Longrightarrow> electors st j = Some q \<Longrightarrow> wins p v \<Longrightarrow> wins q w \<Longrightarrow> i \<noteq> j \<Longrightarrow>
      v + L \<le> clock st + second \<or> w + L \<le> clock st + second"
  using assms unfolding election_ok_def by blast+

text \<open>A step of one elector that does not touch the claim keeps the invariant if it gains no success.\<close>

lemma election_ok_process:
  assumes ok: "election_ok L st" and wins: "\<And>w. wins p' w \<Longrightarrow> \<exists>p. electors st i = Some p \<and> wins p w"
    and p': "process_ok L (clock st) (claim st) i p'"
  shows "election_ok L (set_process i p' st)"
proof -
  note E = election_ok_simps [OF ok]
  have 1: "win_ok L (clock st) r i w" if "wins p' w" "stored_record (claim st) = Some r" for w r
    using wins [OF that(1)] E(3) that(2) by blast
  have 2: "v + L \<le> clock st + second \<or> w + L \<le> clock st + second"
    if "wins p' v" "electors st j = Some q" "wins q w" "i \<noteq> j" for j q v w
    using wins [OF that(1)] E(4) that(2-4) by blast
  show ?thesis
    unfolding election_ok_def set_process_def
    by (auto split: if_splits simp: E(1) p' 1 intro: E(2) E(3)) (metis 2 E(4))+
qed

text \<open>Time passes, or the claim moves on with the same record.\<close>

lemma election_ok_later:
  assumes ok: "election_ok L st" and "clock st \<le> c" "claim_evolves (claim st) s"
    and same: "\<And>r. stored_record s = Some r \<Longrightarrow> stored_record (claim st) = Some r"
  shows "election_ok L (st\<lparr>clock := c, claim := s\<rparr>)"
proof -
  note E = election_ok_simps [OF ok]
  have "v + L \<le> c + second \<or> w + L \<le> c + second"
    if "electors st i = Some p" "electors st j = Some q" "wins p v" "wins q w" "i \<noteq> j" for i j p q v w
    using E(4) [OF that] assms(2) by linarith
  then show ?thesis
    unfolding election_ok_def using assms(2,3)
    by (auto intro: past_later [OF E(1)] process_ok_later [OF E(2)] win_ok_later [OF E(3)] dest!: same)
qed

lemma seen_late_observe: "seen_late le \<Longrightarrow> past c (RenewTime old) \<Longrightarrow> seen_late (observe old c le)"
  by (auto simp: seen_late_def observe_def)

lemma decide_seen_late:
  assumes D: "decide now c res le = (d, le')" and "\<And>old. res = Inr old \<Longrightarrow> past c (RenewTime old)" "seen_late le"
  shows "seen_late le'"
proof (cases res)
  case (Inl er)
  then have "le' = le" using D by (auto simp: decide_def Create_def split: lock_error.splits)
  then show ?thesis using assms(3) by simp
next
  case (Inr old)
  then have "le' = observe old c le" using D by (auto simp: decide_def Let_def split: if_splits)
  then show ?thesis using assms(2,3) Inr seen_late_observe by simp
qed

lemma decide_Write_lease:
  assumes D: "decide now c (Inr old) le = (Write r, le')" and past: "past c (RenewTime old)" and seen: "seen_late le"
  shows "HolderIdentity old = elector_identity le \<or> (\<forall>t. RenewTime old = Parsed t \<longrightarrow> t * second + LeaseDuration le \<le> now)"
proof (cases "HolderIdentity old = elector_identity le")
  case False
  then have e: "\<not> unexpired now (observe old c le)" using decide_Write [OF D] by auto
  have "t * second + LeaseDuration le \<le> now" if t: "RenewTime old = Parsed t" for t
  proof -
    have "seen_late (observe old c le)" by (rule seen_late_observe [OF seen past])
    then obtain o' where "observedTime (observe old c le) = Some o'" "t * second \<le> o'"
      using t unfolding seen_late_def by auto
    then show ?thesis using e by (simp add: unexpired_def)
  qed
  then show ?thesis by blast
qed simp

text \<open>The decisive step: an update that changes the record is a renewal, or the lease of the record it replaces is over.\<close>

text \<open>A record keeps the seconds of its renewal only.\<close>

lemma second_of: "now div second * second \<le> now" "now < (now div second + 1) * second"
proof -
  have "now div second * second + now mod second = now" "0 \<le> now mod second" "now mod second < second"
    by (simp_all only: div_mult_mod_eq) (simp_all add: pos_mod_sign pos_mod_bound)
  then show "now div second * second \<le> now" "now < (now div second + 1) * second"
    unfolding distrib_right by linarith+
qed

text \<open>Whoever takes over the record of another does so after the lease of that one.\<close>

lemma win_expired:
  assumes "win_ok L c old j w" "HolderIdentity old = j \<Longrightarrow> \<forall>t. RenewTime old = Parsed t \<longrightarrow> t * second + L \<le> now" "now \<le> c"
  shows "w + L \<le> c + second"
proof (cases "HolderIdentity old = j")
  case True
  then obtain t where t: "RenewTime old = Parsed t" "w < (t + 1) * second" using assms(1) by (auto simp: win_ok_def)
  then have "t * second + L \<le> now" using assms(2) True by auto
  then show ?thesis using t(2) assms(3) by (simp add: distrib_right)
qed (use assms(1) in \<open>simp add: win_ok_def\<close>)

lemma election_ok_put:
  assumes ok: "election_ok L st" and p: "electors st i = Some p" and st: "stage_of p = Writing now r"
    and U: "Update f r (claim st) (el_lock (elector_of p)) = Done (er, s, pl)"
  shows "election_ok L ((set_process i (p\<lparr>elector_of := (elector_of p)\<lparr>el_lock := pl\<rparr>, stage_of := Answered now r er\<rparr>) st)\<lparr>claim := s\<rparr>)"
proof -
  let ?p' = "p\<lparr>elector_of := (elector_of p)\<lparr>el_lock := pl\<rparr>, stage_of := Answered now r er\<rparr>"
  note E = election_ok_simps [OF ok]
  have P: "process_ok L (clock st) (claim st) i p" by (rule E(2) [OF p])
  then have now: "now \<le> clock st" "\<And>w. won p = Some w \<Longrightarrow> w \<le> now" "HolderIdentity r = i" "RenewTime r = Now now"
    by (auto simp: process_ok_def stage_ok_def st)
  from P obtain old where old: "has_read (claim st) p old"
      "HolderIdentity old = i \<or> (\<forall>t. RenewTime old = Parsed t \<longrightarrow> t * second + L \<le> now)"
    by (auto simp: process_ok_def stage_ok_def st)
  have ev: "claim_evolves (claim st) s" by (rule pvc.update_evolves [OF U])
  have cas: "s = claim st \<and> er \<noteq> None \<or> stored_record (claim st) = Some old \<and> stored_record s = Some (reread r)"
    using old(1) pvc.update_replaces_read U unfolding has_read_def by blast
  have P': "process_ok L (clock st) s i ?p'"
    using P now U by (simp add: process_ok_def stage_ok_def st elector_identity_def seen_late_def)
  have w': "w = now \<and> er = None \<or> won p = Some w" if "wins ?p' w" for w
    using that by (auto simp: wins_def)
  have wp: "won p = Some w \<Longrightarrow> wins p w" for w by (simp add: wins_def)
  show ?thesis
  proof (cases "s = claim st \<and> er \<noteq> None")
    case True
    have "wins ?p' w \<Longrightarrow> \<exists>p. electors st i = Some p \<and> wins p w" for w using w' [of w] wp p True by blast
    moreover have "(set_process i ?p' st)\<lparr>claim := claim st\<rparr> = set_process i ?p' st"
      by (cases st) (simp add: set_process_def)
    ultimately show ?thesis using election_ok_process [OF ok, of ?p' i] P' True by simp
  next
    case False
    then have stored: "stored_record (claim st) = Some old" "stored_record s = Some (reread r)" using cas by auto
    have new: "HolderIdentity (reread r) = i" "RenewTime (reread r) = Parsed (now div second)" using now by simp_all
    have own: "win_ok L (clock st) (reread r) i w" if "wins ?p' w" for w
    proof -
      have "w \<le> now" using w' [OF that] now(2) by auto
      then show ?thesis using second_of(2) [of now] new by (simp add: win_ok_def)
    qed
    have other: "w + L \<le> clock st + second" if q: "electors st j = Some q" "j \<noteq> i" "wins q w" for j q w
      by (rule win_expired [OF E(3) [OF q(1,3) stored(1)] _ now(1)]) (use old(2) q(2) in auto)
    have past: "past (clock st) (RenewTime (reread r))" using new second_of(1) [of now] now(1) by simp
    show ?thesis
      unfolding election_ok_def set_process_def
      using stored new(1) past own other P' process_ok_later [OF E(2) order_refl ev]
      by (auto split: if_splits simp: win_ok_def E(4))
  qed
qed

lemma initial_ok: "initial st \<Longrightarrow> election_ok L st"
  by (auto simp: initial_def election_ok_def split: option.splits time.splits)

inductive_cases election_stepE: "election_step L st st'"

lemma process_stage_ok: "process_ok L c s i p \<Longrightarrow> stage_ok L c s i p"
  by (simp add: process_ok_def)

lemma election_step_ok:
  assumes "election_ok L st" "election_step L st st'"
  shows "election_ok L st'"
  using assms(2)
proof cases
  case (tick d)
  have "election_ok L (st\<lparr>clock := clock st + d, claim := claim st\<rparr>)"
    by (rule election_ok_later [OF assms(1)]) (use tick pvc.evolves_refl in auto)
  moreover have "st\<lparr>clock := c, claim := claim st\<rparr> = st\<lparr>clock := c\<rparr>" for c by (cases st) simp
  ultimately show ?thesis using tick by simp
next
  case (other s)
  have "election_ok L (st\<lparr>clock := clock st, claim := s\<rparr>)"
    by (rule election_ok_later [OF assms(1)]) (use other in \<open>auto simp: stored_record_def\<close>)
  moreover have "st\<lparr>clock := clock st, claim := s\<rparr> = st\<lparr>claim := s\<rparr>" by (cases st) simp
  ultimately show ?thesis using other by simp
next
  case (join i pl deadline retry trm le)
  note le = NewLeaderElector_Inr [OF join(3)]
  show ?thesis unfolding join(1)
    by (rule election_ok_process [OF assms(1)])
      (use le join(4) in \<open>auto simp: wins_def process_ok_def stage_ok_def seen_late_def elector_identity_def zero_record_def\<close>)
next
  case (start i p)
  have "process_ok L (clock st) (claim st) i p" by (rule election_ok_simps(2) [OF assms(1) start(2)])
  then show ?thesis unfolding start(1)
    by (intro election_ok_process [OF assms(1)]) (use start in \<open>auto simp: wins_def process_ok_def stage_ok_def\<close>)
next
  case (get i p now f res pl)
  have P: "process_ok L (clock st) (claim st) i p" by (rule election_ok_simps(2) [OF assms(1) get(2)])
  have R: "has_read (claim st) (p\<lparr>elector_of := (elector_of p)\<lparr>el_lock := pl\<rparr>, stage_of := Received now res\<rparr>) old \<and>
      past (clock st) (RenewTime old)" if "res = Inr old" for old
  proof -
    have "stored_record (claim st) = Some old" using pvc.get_reads get(4) that by blast
    then show ?thesis using election_ok_simps(1) [OF assms(1)] get(4) that pvc.evolves_refl by (auto simp: has_read_def)
  qed
  show ?thesis unfolding get(1)
    by (rule election_ok_process [OF assms(1)])
      (use get P R in \<open>auto simp: wins_def process_ok_def stage_ok_def seen_late_def elector_identity_def\<close>)
next
  case (give_up i p now res le)
  have P: "process_ok L (clock st) (claim st) i p" by (rule election_ok_simps(2) [OF assms(1) give_up(2)])
  have "seen_late le" by (rule decide_seen_late [OF give_up(4)]) (use P give_up(3) in \<open>auto simp: process_ok_def stage_ok_def\<close>)
  then show ?thesis unfolding give_up(1)
    by (intro election_ok_process [OF assms(1)])
      (use give_up P decide_lock [OF give_up(4)] in \<open>auto simp: wins_def process_ok_def stage_ok_def elector_identity_def\<close>)
next
  case (go_on i p now res r le)
  have P: "process_ok L (clock st) (claim st) i p" by (rule election_ok_simps(2) [OF assms(1) go_on(2)])
  obtain old where old: "res = Inr old" "r = next_record now old (elector_of p)" using decide_Write [OF go_on(4)] by blast
  have S: "seen_late le" by (rule decide_seen_late [OF go_on(4)]) (use P go_on(3) in \<open>auto simp: process_ok_def stage_ok_def\<close>)
  have lease: "HolderIdentity old = i \<or> (\<forall>t. RenewTime old = Parsed t \<longrightarrow> t * second + L \<le> now)"
    using decide_Write_lease [OF go_on(4) [unfolded old(1)]] P go_on(3) old(1) by (simp add: process_ok_def stage_ok_def)
  have read: "has_read (claim st) (p\<lparr>elector_of := le, stage_of := Writing now r\<rparr>) old"
    using P go_on(3) old(1) decide_lock [OF go_on(4)] by (simp add: process_ok_def stage_ok_def has_read_def)
  show ?thesis unfolding go_on(1)
    by (rule election_ok_process [OF assms(1)])
      (use go_on P S lease read old decide_lock [OF go_on(4)] in \<open>auto simp: wins_def process_ok_def stage_ok_def elector_identity_def\<close>)
next
  case (put i p now r f er s pl)
  show ?thesis unfolding put(1) by (rule election_ok_put [OF assms(1) put(2-4)])
next
  case (conclude i p now r er ok le)
  have P: "process_ok L (clock st) (claim st) i p" by (rule election_ok_simps(2) [OF assms(1) conclude(2)])
  show ?thesis unfolding conclude(1)
    by (rule election_ok_process [OF assms(1)])
      (use conclude P in \<open>auto simp: wins_def process_ok_def stage_ok_def seen_late_def elector_identity_def conclude_def split: if_splits\<close>)
next
  case (finish i p)
  have P: "process_ok L (clock st) (claim st) i p" by (rule election_ok_simps(2) [OF assms(1) finish(2)])
  show ?thesis unfolding finish(1)
    by (rule election_ok_process [OF assms(1)]) (use finish P in \<open>auto simp: wins_def process_ok_def stage_ok_def\<close>)
qed

lemma reachable_ok: "reachable L st \<Longrightarrow> election_ok L st"
  by (induction rule: reachable.induct) (use initial_ok election_step_ok in blast)+

section \<open>Safety\<close>

lemma leadsE:
  assumes "leads L st i"
  obtains p s where "electors st i = Some p" "wins p s" "clock st + second < s + L"
  using assms by (auto simp: leads_def wins_def split: option.splits)

text \<open>
  C2. Mutual exclusion: however the electors of a claim interleave, and whatever calls fail or
  go unanswered, no two of them lead at the same time, where an elector leads as long as its
  last successful attempt began less than the lease, minus a second, ago.
\<close>

theorem at_most_one_leads:
  assumes "reachable L st" "leads L st i" "leads L st j"
  shows "i = j"
proof (rule ccontr)
  assume "i \<noteq> j"
  then show False
    using election_ok_simps(4) [OF reachable_ok [OF assms(1)]] assms(2,3) by (elim leadsE) fastforce
qed

text \<open>
  C9. As long as an elector leads, the record on the claim names it, unless the claim was
  deleted: nobody takes the lock away before the lease has run out.
\<close>

theorem leader_holds_lock:
  assumes "reachable L st" "leads L st i" "stored_record (claim st) = Some r"
  shows "HolderIdentity r = i"
proof (rule ccontr)
  assume n: "HolderIdentity r \<noteq> i"
  obtain p s where "electors st i = Some p" "wins p s" "clock st + second < s + L" using assms(2) by (rule leadsE)
  then show False
    using election_ok_simps(3) [OF reachable_ok [OF assms(1)], of i p s r] assms(3) n by (simp add: win_ok_def)
qed

section \<open>A sample election\<close>

definition open_election :: election where
  "open_election = \<lparr>clock = 20000000000, claim = Some \<lparr>ac_version = 1, ac_record = None\<rparr>, electors = (\<lambda>_. None)\<rparr>"

lemma sample_election: "\<exists>st r. reachable 15000000000 st \<and> leads 15000000000 st ''A'' \<and> stored_record (claim st) = Some r"
proof -
  let ?L = "15000000000" and ?c = "20000000000"
  have 0: "reachable ?L open_election"
    by (rule reachable.init) (simp add: initial_def open_election_def stored_record_def zero_record_def)
  have p0: "electors open_election ''A'' = None" "clock open_election = ?c"
    "claim open_election = Some \<lparr>ac_version = 1, ac_record = None\<rparr>"
    by (simp_all add: open_election_def)
  define p1 where "p1 = \<lparr>elector_of = sample_elector ''A'', phase_of = Acquiring, stage_of = Idle, won = None\<rparr>"
  have 1: "reachable ?L (set_process ''A'' p1 open_election)"
    unfolding p1_def by (rule reachable.step [OF 0], rule join [OF _ NewLeaderElector_sample]) (simp_all add: p0 sample_lock_def)
  have set: "electors (set_process i p st) i = Some p" "clock (set_process i p st) = clock st" "claim (set_process i p st) = claim st"
     "set_process i p (set_process i q st) = set_process i p st" for i p q st
    by (simp_all add: set_process_def)
  define p2 where "p2 = p1\<lparr>stage_of := Started ?c\<rparr>"
  have 2: "reachable ?L (set_process ''A'' p2 open_election)"
    using reachable.step [OF 1 start [OF set(1)]] unfolding p2_def set by (simp add: p1_def p0)
  define pl where "pl = (sample_lock ''A'')\<lparr>pl_p := Some \<lparr>cc_version = 1, cc_annotations = Some None\<rparr>\<rparr>"
  have G: "Get NoFault (claim open_election) (el_lock (elector_of p2)) = (Inr zero_record, pl)"
    by (simp add: p0 Get_def pl_def p2_def p1_def sample_elector_def)
  define p3 where "p3 = p2\<lparr>elector_of := (elector_of p2)\<lparr>el_lock := pl\<rparr>, stage_of := Received ?c (Inr zero_record)\<rparr>"
  have 3: "reachable ?L (set_process ''A'' p3 open_election)"
    using reachable.step [OF 2 get [OF set(1)]] G unfolding p3_def set by (simp add: p2_def)
  define r where "r = next_record ?c zero_record (elector_of p3)"
  have D: "decide ?c ?c (Inr zero_record) (elector_of p3) = (Write r, elector_of p3)"
    by (simp add: r_def decide_def unexpired_def observe_def p3_def p2_def p1_def sample_elector_def next_record_def proposal_def elector_identity_def pl_def sample_lock_def)
  define p4 where "p4 = p3\<lparr>stage_of := Writing ?c r\<rparr>"
  have 4: "reachable ?L (set_process ''A'' p4 open_election)"
    using reachable.step [OF 3 go_on [OF set(1)]] D unfolding p4_def set by (simp add: p3_def p0)
  let ?s = "Some \<lparr>ac_version = 2, ac_record = Some (Encoded (reread r))\<rparr>"
  define pl2 where "pl2 = pl\<lparr>pl_p := Some \<lparr>cc_version = 2, cc_annotations = Some (Some (Encoded (reread r)))\<rparr>\<rparr>"
  have U: "Update NoFault r (claim open_election) (el_lock (elector_of p4)) = Done (None, ?s, pl2)"
    by (simp add: p0 Update_def put_claim_def p4_def p3_def pl_def pl2_def)
  define p5 where "p5 = p4\<lparr>elector_of := (elector_of p4)\<lparr>el_lock := pl2\<rparr>, stage_of := Answered ?c r None\<rparr>"
  have 5: "reachable ?L ((set_process ''A'' p5 open_election)\<lparr>claim := ?s\<rparr>)"
    using reachable.step [OF 4 put [OF set(1)]] U unfolding p5_def set by (simp add: p4_def)
  have e5: "electors ((set_process ''A'' p5 open_election)\<lparr>claim := ?s\<rparr>) ''A'' = Some p5"
    by (simp add: set_process_def)
  obtain le where C: "conclude r ?c None (elector_of p5) = (True, le)" by (simp add: conclude_def)
  define p6 where "p6 = p5\<lparr>elector_of := le, stage_of := Idle, phase_of := Leading, won := Some ?c\<rparr>"
  have 6: "reachable ?L (set_process ''A'' p6 ((set_process ''A'' p5 open_election)\<lparr>claim := ?s\<rparr>))"
    using reachable.step [OF 5 conclude [OF e5]] C unfolding p6_def by (simp add: p5_def set p0)
  show ?thesis
    by (rule exI, rule exI, rule conjI [OF 6]) (simp add: leads_def set p0 p6_def second_def stored_record_def)
qed

theorem at_most_one_leads_witness:
  "\<exists>st. reachable 15000000000 st \<and> leads 15000000000 st ''A'' \<and> \<not> leads 15000000000 st ''B''"
  using sample_election at_most_one_leads [of 15000000000 _ "''A''" "''B''"] by force

theorem leader_holds_lock_witness:
  "\<exists>st. reachable 15000000000 st \<and> map_option HolderIdentity (stored_record (claim st)) = Some ''A''"
  using sample_election leader_holds_lock [of 15000000000 _ "''A''"] by fastforce

end
