(* ===== verification/Net.thy ===== *)
theory Net
  imports GoStd
begin

text \<open>
  \<open>net.ParseIP\<close> and \<open>IP.String\<close> of the Go releases the program was written for (they accept
  leading zeros in a dotted address). An address is the list of its eight 16-bit groups; an
  IPv4 address is stored as \<open>::ffff:a.b.c.d\<close>, as \<open>net.IP\<close> does.
\<close>

type_synonym ip = "nat list"

section \<open>Parsing\<close>

text \<open>The leading decimal number (\<open>dtoi\<close>), or None when there is none or it is too big.\<close>

definition dtoi :: "string \<Rightarrow> (nat \<times> string) option" where
  "dtoi s =
     (let ds = takeWhile is_digit s; n = foldl (\<lambda>n c. 10 * n + digit_val c) 0 ds in
      if ds = [] \<or> n \<ge> 16777215 then None else Some (n, drop (length ds) s))"

text \<open>For the evaluation of closed terms.\<close>

lemmas ip_eval = dtoi_def is_digit_def digit_val_def

definition hex_val :: "char \<Rightarrow> nat option" where
  "hex_val c =
     (let n = of_char c :: nat in
      if 48 \<le> n \<and> n \<le> 57 then Some (n - 48)
      else if 97 \<le> n \<and> n \<le> 102 then Some (n - 87)
      else if 65 \<le> n \<and> n \<le> 70 then Some (n - 55)
      else None)"

definition xtoi :: "string \<Rightarrow> (nat \<times> string) option" where
  "xtoi s =
     (let ds = takeWhile (\<lambda>c. hex_val c \<noteq> None) s;
          n = foldl (\<lambda>n c. 16 * n + the (hex_val c)) 0 ds in
      if ds = [] \<or> n \<ge> 16777215 then None else Some (n, drop (length ds) s))"

text \<open>The octets still to be read, each but the first after a dot.\<close>

fun octets :: "nat \<Rightarrow> bool \<Rightarrow> string \<Rightarrow> nat list option" where
  "octets 0 first s = (if s = [] then Some [] else None)"
| "octets (Suc n) first s =
     (let s' = (if first then Some s
                else case s of c # cs \<Rightarrow> if c = CHR ''.'' then Some cs else None | [] \<Rightarrow> None) in
      case Option.bind s' dtoi of
        None \<Rightarrow> None
      | Some (k, r) \<Rightarrow> if k > 255 then None else map_option (\<lambda>ks. k # ks) (octets n False r))"

lemmas octets_numeral [simp] = octets.simps(2) [of "pred_numeral k" for k, folded numeral_eq_Suc]

definition v4_groups :: "nat list \<Rightarrow> ip" where
  "v4_groups q = [q ! 0 * 256 + q ! 1, q ! 2 * 256 + q ! 3]"

definition parseIPv4 :: "string \<Rightarrow> ip option" where
  "parseIPv4 s = map_option (\<lambda>q. [0, 0, 0, 0, 0, 65535] @ v4_groups q) (octets 4 True s)"

text \<open>
  The loop of \<open>parseIPv6\<close>: the groups read so far, the position of the \<open>::\<close>, the rest of the
  text. Its result is the final groups and position; the text must be used up.
\<close>

function groups6 :: "nat list \<Rightarrow> nat option \<Rightarrow> string \<Rightarrow> (nat list \<times> nat option) option" where
  "groups6 gs ell s =
     (if length gs \<ge> 8 then (if s = [] then Some (gs, ell) else None)
      else case xtoi s of
        None \<Rightarrow> None
      | Some (n, r) \<Rightarrow>
          if n > 65535 then None
          else if r \<noteq> [] \<and> hd r = CHR ''.'' then
            (if (ell = None \<and> length gs \<noteq> 6) \<or> length gs > 6 then None
             else map_option (\<lambda>q. (gs @ v4_groups q, ell)) (octets 4 True s))
          else if r = [] then Some (gs @ [n], ell)
          else if hd r \<noteq> CHR '':'' \<or> length r = 1 then None
          else if r ! 1 = CHR '':'' then
            (if ell \<noteq> None then None
             else if length r = 2 then Some (gs @ [n], Some (length gs + 1))
             else groups6 (gs @ [n]) (Some (length gs + 1)) (drop 2 r))
          else groups6 (gs @ [n]) ell (drop 1 r))"
  by pat_completeness auto
termination by (relation "measure (\<lambda>(gs, ell, s). 8 - length gs)") auto

declare groups6.simps [simp del]

definition expand6 :: "nat list \<times> nat option \<Rightarrow> ip option" where
  "expand6 x =
     (case x of
        (gs, None) \<Rightarrow> if length gs < 8 then None else Some gs
      | (gs, Some i) \<Rightarrow> if length gs < 8 then Some (take i gs @ replicate (8 - length gs) 0 @ drop i gs) else None)"

definition parseIPv6 :: "string \<Rightarrow> ip option" where
  "parseIPv6 s =
     (if take 2 s = ''::'' then
        (if length s = 2 then Some (replicate 8 0)
         else Option.bind (groups6 [] (Some 0) (drop 2 s)) expand6)
      else Option.bind (groups6 [] None s) expand6)"

fun ip_family :: "string \<Rightarrow> string \<Rightarrow> ip option" where
  "ip_family s [] = None"
| "ip_family s (c # cs) =
     (if c = CHR ''.'' then parseIPv4 s else if c = CHR '':'' then parseIPv6 s else ip_family s cs)"

definition ParseIP :: "string \<Rightarrow> ip option" where
  "ParseIP s = ip_family s s"

section \<open>Printing\<close>

fun show_hex :: "nat \<Rightarrow> string" where
  "show_hex n = (if n < 16 then [''0123456789abcdef'' ! n] else show_hex (n div 16) @ [''0123456789abcdef'' ! (n mod 16)])"

declare show_hex.simps [simp del]

text \<open>The first longest run of zero groups: its start and length.\<close>

fun zero_run :: "nat \<Rightarrow> nat list \<Rightarrow> nat \<times> nat" where
  "zero_run i [] = (0, 0)"
| "zero_run i (g # gs) =
     (let here = length (takeWhile (\<lambda>g. g = 0) (g # gs)); later = zero_run (Suc i) gs
      in if here \<ge> snd later then (i, here) else later)"

definition ip_string :: "ip \<Rightarrow> string" where
  "ip_string g =
     (if take 6 g = [0, 0, 0, 0, 0, 65535] then
        join ''.'' (map show_nat [g ! 6 div 256, g ! 6 mod 256, g ! 7 div 256, g ! 7 mod 256])
      else let (i, n) = zero_run 0 g in
        if n < 2 then join '':'' (map show_hex g)
        else join '':'' (map show_hex (take i g)) @ ''::'' @ join '':'' (map show_hex (drop (i + n) g)))"

section \<open>Facts\<close>

lemma dtoi_show:
  assumes "n < 16777215" and "r = [] \<or> \<not> is_digit (hd r)"
  shows "dtoi (show_nat n @ r) = Some (n, r)"
proof -
  have t: "takeWhile is_digit (show_nat n @ r) = show_nat n"
    using show_nat_digits [of n] assms(2) by (cases r) (auto simp: takeWhile_append2)
  have "foldl (\<lambda>n c. 10 * n + digit_val c) 0 (show_nat n) = n"
  proof (induction n rule: show_nat.induct)
    case (1 n)
    then show ?case by (cases "n < 10") auto
  qed
  with t assms(1) show ?thesis by (simp add: dtoi_def)
qed

lemma octets_show:
  assumes "\<forall>k \<in> set ks. k < 256" and "ks \<noteq> []"
  shows "octets (length ks) True (join ''.'' (map show_nat ks)) = Some ks"
    and "octets (length ks) False (CHR ''.'' # join ''.'' (map show_nat ks)) = Some ks"
  using assms
proof (induction ks)
  case (Cons k ks)
  { case 1
    show ?case
    proof (cases ks)
      case Nil
      then show ?thesis using 1 dtoi_show [of k "[]"] by simp
    next
      case (Cons k' ks')
      then have "octets (length ks) False (CHR ''.'' # join ''.'' (map show_nat ks)) = Some ks"
        using 1 Cons.IH(2) by simp
      then show ?thesis using 1 Cons dtoi_show [of k "CHR ''.'' # join ''.'' (map show_nat ks)"]
        by (simp add: is_digit_def)
    qed
  }
  { case 2
    show ?case
    proof (cases ks)
      case Nil
      then show ?thesis using 2 dtoi_show [of k "[]"] by simp
    next
      case (Cons k' ks')
      then have "octets (length ks) False (CHR ''.'' # join ''.'' (map show_nat ks)) = Some ks"
        using 2 Cons.IH(2) by simp
      then show ?thesis using 2 Cons dtoi_show [of k "CHR ''.'' # join ''.'' (map show_nat ks)"]
        by (simp add: is_digit_def)
    qed
  }
qed simp_all

lemma ip_family_digits:
  "\<forall>c \<in> set ds. is_digit c \<Longrightarrow> ip_family s (ds @ CHR ''.'' # r) = parseIPv4 s"
  by (induction ds) (auto simp: is_digit_def)

text \<open>A dotted address is read back from its printed form.\<close>

lemma ParseIP_ip_string:
  assumes "\<forall>k \<in> {a, b, c, d}. k < 256"
  shows "ParseIP (ip_string ([0, 0, 0, 0, 0, 65535] @ v4_groups [a, b, c, d])) =
           Some ([0, 0, 0, 0, 0, 65535] @ v4_groups [a, b, c, d])"
proof -
  let ?g = "[0, 0, 0, 0, 0, 65535] @ v4_groups [a, b, c, d]"
  have len: "length [a, b, c, d] = 4" by simp
  have s: "ip_string ?g = join ''.'' (map show_nat [a, b, c, d])"
    using assms by (simp add: ip_string_def v4_groups_def)
  have "ParseIP (ip_string ?g) = parseIPv4 (ip_string ?g)"
    unfolding ParseIP_def using s ip_family_digits [OF show_nat_digits] by simp
  moreover have "octets 4 True (join ''.'' (map show_nat [a, b, c, d])) = Some [a, b, c, d]"
    by (rule octets_show(1) [of "[a, b, c, d]", unfolded len]) (use assms in auto)
  ultimately show ?thesis unfolding parseIPv4_def s by simp
qed

end
