(* ===== verification/NFS.thy ===== *)
theory NFS
  imports ISCSI Net
begin

text \<open>
  \<open>pkg/nfs/provision.go\<close> and \<open>pkg/nfs/delete.go\<close>. The provisioner's own map
  \<open>networkspacesIps\<close> is a field of the world; \<open>exportDir\<close> is an argument (the program passes
  \<open>/export\<close>). The constants \<open>annCreatedBy\<close> and \<open>createdBy\<close> have the values of the iSCSI package.
\<close>

section \<open>Constants and the volume\<close>

definition annExportBlock :: string where "annExportBlock = ''EXPORT_block''"
definition annExportID :: string where "annExportID = ''Export_Id''"
definition annProjectID :: string where "annProjectID = ''Project_Id''"
definition GidAnnotationKey :: string where "GidAnnotationKey = ''pv.beta.kubernetes.io/gid''"
definition MountOptionAnnotation :: string where
  "MountOptionAnnotation = ''volume.beta.kubernetes.io/mount-options''"
definition annVolumeID :: string where "annVolumeID = ''Volume_Id''"

record nfs_volume =
  server :: string
  nv_path :: string
  exportBlock :: string
  exportID :: int
  projectID :: int
  supGroup :: int
  mountOptions :: string
  dirId :: int

definition no_volume :: nfs_volume where
  "no_volume = \<lparr>server = '''', nv_path = '''', exportBlock = '''', exportID = 0, projectID = 0,
     supGroup = 0, mountOptions = '''', dirId = 0\<rparr>"

text \<open>\<open>strconv.FormatUint(uint64(i), 10)\<close> of an \<open>int64\<close>\<close>

definition FormatUint :: "int \<Rightarrow> string" where
  "FormatUint i = itoa (i mod 2 ^ 64)"

section \<open>Undoing\<close>

definition nfs_deleteDirectory :: "string \<Rightarrow> err prog" where
  "nfs_deleteDirectory idStr =
     bind (rest DELETE (''api/rest/filesystems/'' @ idStr) ''approved=true'' None) (\<lambda>resp.
     checked (\<lambda>e. e) ''error while deleting filesystem '' resp (\<lambda>result err.
       if err \<noteq> None then ret err
       else bind (as_obj result) (\<lambda>resultmap. ret None)))"

definition nfs_deleteExport :: "string \<Rightarrow> string \<Rightarrow> err prog" where
  "nfs_deleteExport exportid block =
     bind (rest DELETE (''api/rest/exports/'' @ exportid) ''approved=true'' None) (\<lambda>resp.
     checked (\<lambda>e. e) ('' ['' @ block @ '' ]error while deleting export '') resp (\<lambda>_ err.
       case err of
         Some er \<Rightarrow> if contains (Error er) ''EXPORT_NOT_FOUND'' then ret None
                    else ret (Some (Err (block @ Error er)))
       | None \<Rightarrow> ret None))"

section \<open>The server address\<close>

text \<open>
  The loop of \<open>getServer\<close> keeps the last matching entry. The first use of a network space
  stores 0 and uses index 0; later uses take the stored count and store its successor.
\<close>

fun serverLoop :: "string \<Rightarrow> json list \<Rightarrow> (string \<times> json) list option \<Rightarrow> (string \<times> json) list option prog" where
  "serverLoop networkSpace [] resultmapip = ret resultmapip"
| "serverLoop networkSpace (result # results) resultmapip =
     bind (as_obj result) (\<lambda>resultmap.
       if jget resultmap ''name'' = JStr networkSpace then
         bind (as_arr (jget resultmap ''ips'')) (\<lambda>list.
         bind (look (\<lambda>w. mget (networkspacesIps w) networkSpace)) (\<lambda>found.
         let count = (case found of Some c \<Rightarrow> c | None \<Rightarrow> 0);
             next_count = (case found of Some c \<Rightarrow> int64 (c + 1) | None \<Rightarrow> 0) in
         seq (change (\<lambda>w. w\<lparr>networkspacesIps := mput networkSpace next_count (networkspacesIps w)\<rparr>))
        (if length list = 0 then panic divide_by_zero
         else
           bind (index list (go_rem count (int (length list)))) (\<lambda>resultindex.
           bind (as_obj resultindex) (\<lambda>ipmap. serverLoop networkSpace results (Some ipmap))))))
       else serverLoop networkSpace results resultmapip)"

definition nfs_getServer :: "(string \<times> err) prog" where
  "nfs_getServer =
     (let msg = ''Recovered in getServer'' in
      guard None (\<lambda>e. ('''', e)) msg (
      bind (read_config ''nfs_networkspace'') (\<lambda>spaces.
      let networkSpace = trim_spaces (hd (split_on CHR '','' spaces)) in
      bind (rest GET ''api/rest/network/spaces'' (''name='' @ networkSpace) None) (\<lambda>res.
      checked (\<lambda>e. ('''', e)) msg res (\<lambda>result _.
        bind (as_arr result) (\<lambda>arryofresult.
        bind (serverLoop networkSpace arryofresult None) (\<lambda>resultmapip.
        let ip_address = (case resultmapip of None \<Rightarrow> JNull | Some m \<Rightarrow> jget m ''ip_address'') in
        if ip_address = JNull then ret ('''', Some (Err (''No such network space: '' @ networkSpace)))
        else bind (as_str ip_address) (\<lambda>ip. ret (ip, None)))))))))"

section \<open>Filesystems and exports\<close>

definition nfs_createDirectory :: "volume_options \<Rightarrow> (int \<times> err) prog" where
  "nfs_createDirectory options =
     (let msg = ''['' @ PVName options @ ''] error while  creating filesystem  '' in
      bind (rest GET ''api/rest/filesystems'' '''' None) (\<lambda>respo.
      guard (reply_err respo) (\<lambda>e. (0, e)) msg (
      case respo of
        NilResponse s \<Rightarrow> ret (0, Some (Err s))
      | Response res (Some s) \<Rightarrow> ret (0, Some (Err s))
      | Response res None \<Rightarrow>
          (case decoded res of
             Inl er \<Rightarrow> ret (0, Some (Err (''error while decoding Json or casting jsondata to record object'' @ er)))
           | Inr JNull \<Rightarrow> ret (0, Some (Err ''empty response in Get filesystem ''))
           | Inr responseget \<Rightarrow>
               bind (as_obj responseget) (\<lambda>responseinmap.
               case ParseError (jget responseinmap ''error'') of
                 (str, True) \<Rightarrow> ret (0, Some (Err str))
               | (_, False) \<Rightarrow>
                   if jget responseinmap ''metadata'' = JNull
                   then bind (as_str (jget responseinmap ''metadata'')) (\<lambda>s. ret (0, Some (Err s)))
                   else
                     bind (as_obj (jget responseinmap ''metadata'')) (\<lambda>wholemap.
                     bind (read_config ''max_fs'') (\<lambda>max_fs.
                     let limit = fst (ParseInt max_fs 64) in
                     bind (as_int 64 (jget wholemap ''number_of_objects'')) (\<lambda>number.
                     if number > limit then
                       ret (0, Some (Err (''reached maximum no. of filesystems, allowed limit is'' @ itoa limit)))
                     else
                       bind (read_config ''pool_name'') (\<lambda>namepool.
                       bind (GetPoolID namepool) (\<lambda>(poolID, err).
                       if err \<noteq> None then ret (0, err)
                       else
                         bind (read_config ''ssd_enabled'') (\<lambda>ssdEnabled.
                         bind (read_config ''provision_type'') (\<lambda>provtype.
                         let ssd = fst (ParseBool (if ssdEnabled = '''' then show_bool True else ssdEnabled)) in
                         bind (rest POST ''api/rest/filesystems'' '''' (Some (JObj
                           [(''atime_mode'', JStr ''NOATIME''), (''pool_id'', JNum poolID 0),
                            (''name'', JStr (PVName options)), (''ssd_enabled'', JBool ssd),
                            (''provtype'', JStr (ToUpper provtype)),
                            (''size'', JNum (pvc_storage (PVC options)) 0)]))) (\<lambda>rescreate.
                         checked (\<lambda>e. (0, e)) msg rescreate (\<lambda>resultPostCreate err.
                           if err \<noteq> None then ret (0, err)
                           else if resultPostCreate = JNull then ret (0, None)
                           else bind (as_obj resultPostCreate) (\<lambda>wholemap.
                                bind (as_int 64 (jget wholemap ''id'')) (\<lambda>i. ret (i, None)))))))))))))))))"

text \<open>The permissions of an export: one for each parseable \<open>InternalIP\<close> address of each node.\<close>

definition export_permissions :: "string \<Rightarrow> bool \<Rightarrow> node list \<Rightarrow> json list" where
  "export_permissions acess rootsq nodelist =
     concat (map (\<lambda>n. concat (map (\<lambda>naddress.
       case ParseIP (address naddress) of
         Some addr \<Rightarrow> if addr_type naddress = ''InternalIP''
                      then [JObj [(''access'', JStr acess), (''no_root_squash'', JBool rootsq),
                                  (''client'', JStr (ip_string addr))]] else []
       | None \<Rightarrow> []) (addresses n))) nodelist)"

text \<open>A nil slice of permissions is encoded as JSON null.\<close>

definition json_slice :: "json list \<Rightarrow> json" where
  "json_slice xs = (if xs = [] then JNull else JArr xs)"

definition nfs_createExport :: "string \<Rightarrow> string \<Rightarrow> int \<Rightarrow> node list \<Rightarrow> (string \<times> int \<times> err) prog" where
  "nfs_createExport exportDir directory FilesystemID nodelist =
     (let msg = ''error while creating export ''; exportpath = path_join [exportDir, directory] in
      bind (read_config ''nfs_export_permissions'') (\<lambda>acess.
      bind (read_config ''no_root_squash'') (\<lambda>rootsquash.
      let rootsq = fst (ParseBool (if rootsquash = '''' then show_bool True else rootsquash)) in
      if length nodelist = 0 then ret ('''', 0, None)
      else
        bind (rest POST ''api/rest/exports'' '''' (Some (JObj
          [(''transport_protocols'', JStr ''TCP''), (''filesystem_id'', JNum FilesystemID 0),
           (''privileged_port'', JBool True), (''export_path'', JStr exportpath),
           (''permissions'', json_slice (export_permissions acess rootsq nodelist))]))) (\<lambda>respex.
        checked (\<lambda>e. ('''', 0, e)) msg respex (\<lambda>resultpost err.
          if err \<noteq> None then ret ('''', 0, err)
          else if resultpost = JNull then ret ('''', 0, Some (Err ''Empty result after post ''))
          else bind (as_obj resultpost) (\<lambda>wholemap.
               bind (as_int 64 (jget wholemap ''id'')) (\<lambda>i.
               ret (sprint (jget wholemap ''export_path''), i, None))))))))"

section \<open>Provision\<close>

text \<open>
  \<open>createVolume\<close>, from its end: each step that succeeds registers a deferred function that
  undoes it when the function ends with an error. \<open>nfs_serve\<close> is what follows the third of
  them, \<open>nfs_attach\<close> what follows the second and \<open>nfs_export\<close> what follows the first.
\<close>

definition nfs_serve :: "volume_options \<Rightarrow> nfs_volume \<Rightarrow> (nfs_volume \<times> err) prog" where
  "nfs_serve options v =
     bind nfs_getServer (\<lambda>(ip, err).
     let v = v\<lparr>server := ip\<rparr> in
     case err of
       Some er \<Rightarrow> ret (v, Some (Err (''['' @ PVName options @ ''] error getting NFS server IP for volume: '' @ Error er)))
     | None \<Rightarrow> bind (read_config ''nfs_mount_options'') (\<lambda>opts. ret (v\<lparr>mountOptions := opts\<rparr>, None)))"

definition nfs_attach :: "string \<Rightarrow> volume_options \<Rightarrow> nfs_volume \<Rightarrow> (nfs_volume \<times> err) prog" where
  "nfs_attach kubeVersion options v =
     bind (AttachMetadata (dirId v) options kubeVersion '''') (\<lambda>err.
     case err of
       Some er \<Rightarrow> ret (v, Some (Err (''['' @ PVName options @ ''] error attaching metadata: '' @ Error er)))
     | None \<Rightarrow>
         deferred (\<lambda>p. (v, Some (Err (''['' @ PVName options @ ''] error while create directory '' @ p))))
           (\<lambda>(v, err). if err \<noteq> None \<and> dirId v \<noteq> 0
              then seq (DetachMetadata (dirId v) (PVName options)) (ret ()) else ret ())
           (nfs_serve options v))"

definition nfs_export ::
  "string \<Rightarrow> string \<Rightarrow> volume_options \<Rightarrow> node list \<Rightarrow> nfs_volume \<Rightarrow> (nfs_volume \<times> err) prog" where
  "nfs_export exportDir kubeVersion options nodelist v =
     bind (nfs_createExport exportDir (PVName options) (dirId v) nodelist) (\<lambda>(block, id, err).
     let v = v\<lparr>exportBlock := block, exportID := id\<rparr> in
     case err of
       Some er \<Rightarrow> ret (v, Some (Err (''error creating export for filesystem: '' @ Error er)))
     | None \<Rightarrow>
         deferred (\<lambda>p. (v, Some (Err (''['' @ PVName options @ ''] error while AttachMetadata directory '' @ p))))
           (\<lambda>(v, err). if err \<noteq> None \<and> exportID v \<noteq> 0
              then seq (nfs_deleteExport (itoa (exportID v)) (exportBlock v)) (ret ()) else ret ())
           (nfs_attach kubeVersion options v))"

definition nfs_createVolume ::
  "string \<Rightarrow> string \<Rightarrow> volume_options \<Rightarrow> node list \<Rightarrow> (nfs_volume \<times> err) prog" where
  "nfs_createVolume exportDir kubeVersion options nodelist =
     (let tag = ''['' @ PVName options @ '']'' in
      guard None (\<lambda>e. (no_volume, e)) (tag @ '' error while  creating filesystem  '') (
      seq (merge_config (Parameters options))
     (bind (read_config ''pool_name'') (\<lambda>pool_name.
      bind (read_config ''nfs_networkspace'') (\<lambda>spaces.
      bind (OneTimeValidation pool_name spaces) (\<lambda>(validnwlist, err).
      if err \<noteq> None then ret (no_volume, err)
      else
        seq (write_config ''nfs_networkspace'' validnwlist)
       (let v = no_volume\<lparr>nv_path := path_join [exportDir, PVName options]\<rparr> in
        bind (nfs_createDirectory options) (\<lambda>(dir, err).
        let v = v\<lparr>dirId := dir\<rparr> in
        case err of
          Some er \<Rightarrow> ret (v, Some (Err (tag @ '' error creating filesystem: '' @ Error er)))
        | None \<Rightarrow>
            deferred (\<lambda>p. (v, Some (Err (''error while createExport for directory '' @ p))))
              (\<lambda>(v, err). if err \<noteq> None \<and> dirId v \<noteq> 0
                 then seq (nfs_deleteDirectory (itoa (dirId v))) (ret ()) else ret ())
              (nfs_export exportDir kubeVersion options nodelist v)))))))))"

text \<open>\<open>validateOptions\<close>, over the parameters in the order the map yields them.\<close>

definition nfs_validateOptions :: "volume_options \<Rightarrow> string \<times> string \<times> err" where
  "nfs_validateOptions options =
     (let (networkSpace, opts) = foldl (\<lambda>(ns, mo) (k, v).
        if ToLower k = ''networkspace'' then (v, mo)
        else if ToLower k = ''nfs_mount_options'' then (ns, v) else (ns, mo)) ('''', '''') (Parameters options)
      in (networkSpace, opts, None))"

text \<open>The value of an environment variable that is set and not empty.\<close>

definition env_set :: "string \<Rightarrow> bool prog" where
  "env_set k = ask (\<lambda>e. case getenv e k of Some v \<Rightarrow> v \<noteq> [] | None \<Rightarrow> False)"

definition nfs_annotations :: "nfs_volume \<Rightarrow> strmap" where
  "nfs_annotations v =
     [(annCreatedBy, createdBy), (annExportBlock, exportBlock v), (annExportID, FormatUint (exportID v)),
      (annProjectID, FormatUint (projectID v)), (annVolumeID, itoa (dirId v))] @
     (if supGroup v \<noteq> 0 then [(GidAnnotationKey, FormatUint (supGroup v))] else []) @
     (if mountOptions v \<noteq> '''' then [(MountOptionAnnotation, mountOptions v)] else [])"

definition nfs_pv :: "volume_options \<Rightarrow> nfs_volume \<Rightarrow> pv" where
  "nfs_pv options v =
     \<lparr>pv_name = PVName options, pv_namespace = pvc_namespace (PVC options), pv_uid = '''',
      pv_annotations = Some (nfs_annotations v),
      pv_reclaimPolicy = vo_reclaimPolicy options, pv_accessModes = pvc_accessModes (PVC options),
      pv_capacity = pvc_storage (PVC options), pv_storageClassName = '''', pv_claimRef = None,
      pv_phase = '''', pv_fc = None, pv_iscsi = None,
      pv_nfs = Some \<lparr>nfs_server = server v, nfs_path = nv_path v, nfs_readOnly = False\<rparr>\<rparr>"

definition nfs_Provision :: "string \<Rightarrow> string \<Rightarrow> volume_options \<Rightarrow> node list \<Rightarrow> (pv option \<times> err) prog" where
  "nfs_Provision exportDir kubeVersion options nodelist =
     bind (env_set Apiusername) (\<lambda>user.
     if \<not> user then ret (None, Some (Err ''management api username not specified in secret''))
     else bind (env_set Apiurl) (\<lambda>url.
     if \<not> url then ret (None, Some (Err ''management api url not specified in secret''))
     else bind (env_set Apipassword) (\<lambda>password.
     if \<not> password then ret (None, Some (Err ''management api password not specified in secret''))
     else
       bind (nfs_createVolume exportDir kubeVersion options nodelist) (\<lambda>(volume, err).
       if err \<noteq> None then ret (None, err)
       else ret (Some (nfs_pv options volume), None)))))"

section \<open>Delete\<close>

definition nfs_provisioned :: "pv \<Rightarrow> bool \<times> err" where
  "nfs_provisioned volume =
     (case mget (annotations_of (pv_annotations volume)) annCreatedBy of
        None \<Rightarrow> (False, Some (Err (''PV doesn't have an annotation '' @ annCreatedBy)))
      | Some provisionerID \<Rightarrow> (provisionerID = createdBy, None))"

text \<open>
  \<open>Delete\<close>. A missing export annotation only assigns \<open>err\<close>, which the next call overwrites; the
  export id is then the empty string. There is no deferred recovery.
\<close>

definition nfs_Delete :: "pv \<Rightarrow> node list \<Rightarrow> err prog" where
  "nfs_Delete volume nodeList =
     (case nfs_provisioned volume of
        (_, Some er) \<Rightarrow> ret (Some (Err (''error determining if this provisioner was the one to provision volume '' @
            quote_string (pv_name volume) @ '': '' @ Error er)))
      | (provisioned, None) \<Rightarrow>
          if \<not> provisioned then ret (Some (IgnoredError (not_ours_text volume)))
          else
            let ann = annotations_of (pv_annotations volume) in
            bind (nfs_deleteExport (mstr ann annExportID) (mstr ann annExportBlock)) (\<lambda>err.
            case err of
              Some er \<Rightarrow> ret (Some (Err (''deleted the volume's backing path but error deleting export: '' @ Error er)))
            | None \<Rightarrow>
                (case mget ann annVolumeID of
                   None \<Rightarrow> ret (Some (Err (''PV doesn't have an annotation '' @ annVolumeID)))
                 | Some idStr \<Rightarrow>
                     bind (DetachMetadata (fst (ParseInt idStr 64)) (pv_name volume)) (\<lambda>err.
                     if err \<noteq> None then ret err
                     else
                       bind (nfs_deleteDirectory idStr) (\<lambda>err.
                       case err of
                         Some er \<Rightarrow> ret (Some (Err (''error deleting volume's backing path: '' @ Error er)))
                       | None \<Rightarrow> ret None)))))"

section \<open>UpdateMapping\<close>

text \<open>
  An entry of the permissions that are sent back: one of those that were read, or one added
  now, whose client is a \<open>net.IP\<close> and not a string (so comparing it with a string fails).
\<close>

datatype permission = Listed json | Added string bool ip

fun permission_json :: "permission \<Rightarrow> json" where
  "permission_json (Listed v) = v"
| "permission_json (Added acess rootsq addr) =
     JObj [(''access'', JStr acess), (''no_root_squash'', JBool rootsq), (''client'', JStr (ip_string addr))]"

definition keyExistsInMap :: "(string \<times> json) list \<Rightarrow> string \<Rightarrow> bool" where
  "keyExistsInMap decoded' value \<longleftrightarrow> (\<exists>(k, v) \<in> set decoded'. v = JStr value)"

fun keyExists :: "permission list \<Rightarrow> string \<Rightarrow> bool prog" where
  "keyExists [] value = ret False"
| "keyExists (Listed v # ps) value =
     bind (as_obj v) (\<lambda>m. if keyExistsInMap m value then ret True else keyExists ps value)"
| "keyExists (Added acess rootsq addr # ps) value =
     (if acess = value then ret True else keyExists ps value)"

definition callUpdateExportRules :: "permission list \<Rightarrow> string \<Rightarrow> err prog" where
  "callUpdateExportRules permissions url =
     (if permissions \<noteq> [] then
        bind (rest PUT url '''' (Some (JObj [(''permissions'', JArr (map permission_json permissions))]))) (\<lambda>respex.
        bind (lift (CheckResponse respex)) (\<lambda>(_, err). if err \<noteq> None then ret err else ret None))
      else ret None)"

definition parsed_addresses :: "node list \<Rightarrow> ip list" where
  "parsed_addresses nodes =
     concat (map (\<lambda>n. concat (map (\<lambda>a. case ParseIP (address a) of Some i \<Rightarrow> [i] | None \<Rightarrow> []) (addresses n))) nodes)"

fun addLoop :: "string \<Rightarrow> string \<Rightarrow> bool \<Rightarrow> ip list \<Rightarrow> permission list \<Rightarrow> err prog" where
  "addLoop url acesstype rootsquash [] permissions = ret None"
| "addLoop url acesstype rootsquash (addr # addrs) permissions =
     bind (keyExists permissions (ip_string addr)) (\<lambda>ok.
     if ok then addLoop url acesstype rootsquash addrs permissions
     else
       let permissions = permissions @ [Added acesstype rootsquash addr] in
       bind (callUpdateExportRules permissions url) (\<lambda>err.
       if err \<noteq> None then ret err else addLoop url acesstype rootsquash addrs permissions))"

text \<open>The access type, root squash and entries of the permissions of an export.\<close>

definition old_permissions :: "json \<Rightarrow> (string \<times> bool \<times> json list) prog" where
  "old_permissions p =
     (if p \<noteq> JNull then
        bind (as_arr p) (\<lambda>permissions.
        bind (index permissions 0) (\<lambda>x. bind (as_obj x) (\<lambda>old.
        ret (sprint (jget old ''access''), fst (ParseBool (sprint (jget old ''no_root_squash''))), permissions))))
      else ret ('''', False, []))"

fun exportLoop :: "pv list \<Rightarrow> node list \<Rightarrow> bool \<Rightarrow> node list \<Rightarrow> err prog" where
  "exportLoop [] nodeList nodeaddedflag addednode = ret None"
| "exportLoop (p # pvs) nodeList nodeaddedflag addednode =
     (let exportid = mstr (annotations_of (pv_annotations p)) annExportID; url = ''api/rest/exports/'' @ exportid in
      if fst (nfs_provisioned p) \<and> exportid \<noteq> '''' then
        bind (rest GET url '''' None) (\<lambda>resp.
        bind (lift (CheckResponse resp)) (\<lambda>(resultpost, err).
        if err \<noteq> None then ret err
        else
          bind (as_obj resultpost) (\<lambda>resultmap.
          bind (old_permissions (jget resultmap ''permissions'')) (\<lambda>(acesstype, rootsquash, permissions).
          bind (if nodeaddedflag
                then addLoop url acesstype rootsquash (parsed_addresses addednode) (map Listed permissions)
                else callUpdateExportRules (map (Added acesstype rootsquash) (parsed_addresses nodeList)) url) (\<lambda>err.
          if err \<noteq> None then ret err else exportLoop pvs nodeList nodeaddedflag addednode)))))
      else exportLoop pvs nodeList nodeaddedflag addednode)"

definition nfs_UpdateMapping :: "pv list \<Rightarrow> node list \<Rightarrow> bool \<Rightarrow> bool \<Rightarrow> node list \<Rightarrow> err prog" where
  "nfs_UpdateMapping pvList nodeList nodeaddedflag nodeDeletedFlag addednode =
     guard None (\<lambda>e. e) ''error while updating export '' (
     if length pvList = 0 then ret None
     else if length nodeList = 0 then ret None
     else exportLoop pvList nodeList nodeaddedflag addednode)"

section \<open>What the functions ask for, and that they return\<close>

lemma issues_nfs_delete [issues_intro]:
  "DELETE \<in> M \<Longrightarrow> issues (is_rest M) (nfs_deleteDirectory s)"
  "DELETE \<in> M \<Longrightarrow> issues (is_rest M) (nfs_deleteExport s b)"
  unfolding nfs_deleteDirectory_def nfs_deleteExport_def by (intro issues_intro; simp)+

lemma issues_serverLoop [issues_intro]: "issues P (serverLoop n rs m)"
proof (induction rs arbitrary: m)
  case (Cons r rs)
  show ?case unfolding serverLoop.simps Let_def by (intro issues_intro Cons.IH) simp
qed (simp only: serverLoop.simps issues_ret)

lemma issues_nfs_getServer [issues_intro]: "issues (is_rest M) nfs_getServer"
  unfolding nfs_getServer_def Let_def by (intro issues_intro) auto

lemma issues_nfs_createDirectory [issues_intro]: "POST \<in> M \<Longrightarrow> issues (is_rest M) (nfs_createDirectory opt)"
  unfolding nfs_createDirectory_def Let_def by (intro issues_intro) auto

lemma issues_nfs_createExport [issues_intro]: "POST \<in> M \<Longrightarrow> issues (is_rest M) (nfs_createExport d n i ns)"
  unfolding nfs_createExport_def Let_def by (intro issues_intro) auto

lemma issues_nfs_serve [issues_intro]: "issues (is_rest M) (nfs_serve opt v)"
  unfolding nfs_serve_def Let_def by (intro issues_intro)

lemma issues_nfs_attach [issues_intro]: "{PUT, DELETE} \<subseteq> M \<Longrightarrow> issues (is_rest M) (nfs_attach kv opt v)"
  unfolding nfs_attach_def Let_def by (intro issues_intro) auto

lemma issues_nfs_export [issues_intro]: "{POST, PUT, DELETE} \<subseteq> M \<Longrightarrow> issues (is_rest M) (nfs_export d kv opt ns v)"
  unfolding nfs_export_def Let_def by (intro issues_intro) auto

lemma issues_nfs_createVolume [issues_intro]: "{POST, PUT, DELETE} \<subseteq> M \<Longrightarrow> issues (is_rest M) (nfs_createVolume d kv opt ns)"
  unfolding nfs_createVolume_def Let_def by (intro issues_intro) auto

lemma issues_nfs_Provision [issues_intro]: "{POST, PUT, DELETE} \<subseteq> M \<Longrightarrow> issues (is_rest M) (nfs_Provision d kv opt ns)"
  unfolding nfs_Provision_def env_set_def Let_def by (intro issues_intro) auto

lemma issues_nfs_Delete [issues_intro]: "DELETE \<in> M \<Longrightarrow> issues (is_rest M) (nfs_Delete p ns)"
  unfolding nfs_Delete_def Let_def by (intro issues_intro)

lemma nfs_basic_returns [returns_intro]:
  "returns (nfs_deleteDirectory s)" "returns (nfs_deleteExport s b)" "returns nfs_getServer"
  "returns (nfs_createDirectory opt)" "returns (nfs_createExport d n i ns)" "returns (nfs_createVolume d kv opt ns)"
  unfolding nfs_deleteDirectory_def nfs_deleteExport_def nfs_getServer_def nfs_createDirectory_def
    nfs_createExport_def nfs_createVolume_def Let_def
  by (intro returns_intro)+

lemma nfs_returns [returns_intro]:
  "returns (nfs_serve opt v)" "returns (nfs_attach kv opt v)" "returns (nfs_export d kv opt ns v)"
  "returns (nfs_Provision d kv opt ns)" "returns (nfs_Delete p ns)"
  unfolding nfs_serve_def nfs_attach_def nfs_export_def nfs_Provision_def nfs_Delete_def env_set_def Let_def
  by (intro returns_intro)+

section \<open>Creating a volume and undoing it\<close>

lemma deferred_returns_eq:
  "returns m \<Longrightarrow> deferred results undo m = bind m (\<lambda>r. seq (undo r) (ret r))"
proof -
  assume m: "returns m"
  have "on_panic (\<lambda>p. ret (results p)) m = m"
  proof (intro ext)
    fix e w
    obtain x w' where "m e w = (Done x, w')" using returnsD [OF m] by blast
    then show "on_panic (\<lambda>p. ret (results p)) m e w = m e w" by (simp add: on_panic_def)
  qed
  then show ?thesis by (simp add: deferred_def)
qed

lemma nfs_delete_asks:
  "nfs_deleteDirectory s e w = (r, w') \<Longrightarrow> ended DELETE (''api/rest/filesystems/'' @ s) w w'"
  "nfs_deleteExport s b e w = (r, w') \<Longrightarrow> ended DELETE (''api/rest/exports/'' @ s) w w'"
  unfolding nfs_deleteDirectory_def nfs_deleteExport_def by (erule rest_then, intro issues_intro)+

text \<open>The filesystem and the export of a volume.\<close>

abbreviation backing :: "nfs_volume \<Rightarrow> int \<times> int" where
  "backing v \<equiv> (dirId v, exportID v)"

lemma nfs_serve_Done:
  "nfs_serve opt v e w = (Done (v', er), w') \<Longrightarrow> backing v' = backing v \<and> exportBlock v' = exportBlock v \<and> did (is_rest {}) w w'"
proof -
  assume R: "nfs_serve opt v e w = (Done (v', er), w')"
  have "did (is_rest {}) w w'" by (rule issues_did [OF issues_nfs_serve R])
  then show ?thesis using R by (auto simp: nfs_serve_def bind_eq_Done Let_def split: option.splits prod.splits)
qed

lemma nfs_attach_Done:
  assumes "nfs_attach kv opt v e w = (Done (v', er), w')"
  shows "backing v' = backing v \<and> exportBlock v' = exportBlock v \<and> did (is_rest {PUT, DELETE}) w w' \<and>
    (er = None \<longrightarrow> did (is_rest {PUT}) w w')"
proof -
  obtain a w1 where A: "AttachMetadata (dirId v) opt kv '''' e w = (Done a, w1)"
    using returnsD [OF commons_return(1)] by blast
  have d: "did (is_rest {PUT}) w w1" by (rule issues_did [OF issues_AttachMetadata A]) simp
  have D: "did (is_rest {PUT, DELETE}) w w'" by (rule issues_did [OF issues_nfs_attach assms]) simp
  show ?thesis
  proof (cases a)
    case (Some x)
    then show ?thesis using assms A d D by (simp add: nfs_attach_def)
  next
    case None
    obtain v2 er2 w2 where S: "nfs_serve opt v e w1 = (Done (v2, er2), w2)"
      using returnsD [OF nfs_returns(1)] by fastforce
    have b: "backing v2 = backing v" "exportBlock v2 = exportBlock v" "did (is_rest {PUT}) w1 w2"
      using nfs_serve_Done [OF S] did_rest_mono [of "{}" w1 w2 "{PUT}"] by auto
    have "(v', er) = (v2, er2) \<and> (er2 = None \<longrightarrow> w' = w2)"
      using assms A S None
      by (auto simp: nfs_attach_def deferred_returns_eq [OF nfs_returns(1)] bind_eq_Done split: if_splits)
    then show ?thesis using b D did_trans [OF d b(3)] by auto
  qed
qed

lemma nfs_createExport_Done:
  assumes "nfs_createExport d n i ns e w = (Done (block, x, er), w')"
  shows "(er \<noteq> None \<longrightarrow> x = 0) \<and> (er = None \<and> x \<noteq> 0 \<longrightarrow> made e w w' ''api/rest/exports'' x)"
proof (cases ns)
  case Nil
  then show ?thesis using assms by (auto simp: nfs_createExport_def Let_def)
next
  case (Cons n1 ns1)
  obtain body where B: "nfs_createExport d n i ns e w =
      bind (rest POST ''api/rest/exports'' '''' (Some body)) (\<lambda>respex.
        checked (\<lambda>e. ('''', 0, e)) ''error while creating export '' respex (\<lambda>resultpost err.
          if err \<noteq> None then ret ('''', 0, err)
          else if resultpost = JNull then ret ('''', 0, Some (Err ''Empty result after post ''))
          else bind (as_obj resultpost) (\<lambda>wholemap.
               bind (as_int 64 (jget wholemap ''id'')) (\<lambda>i.
               ret (sprint (jget wholemap ''export_path''), i, None))))) e w"
    using Cons by (simp add: nfs_createExport_def Let_def)
  obtain r w1 where R: "rest POST ''api/rest/exports'' '''' (Some body) e w = (Done r, w1)"
    using rest_returns by blast
  have "(\<exists>y. (block, x, er) = ('''', 0, Some y)) \<or>
      (\<exists>kvs m k. accepted r (JObj kvs) \<and> jget kvs ''id'' = JNum m k \<and> x = float_int 64 m k \<and> er = None \<and> w' = w1)"
    using assms R unfolding B
    by (auto dest!: checked_Done simp: bind_eq_Done CheckResponse_accepts split: if_splits)
  then show ?thesis using made_by_post [OF R] by auto
qed

lemma nfs_export_Done:
  assumes "nfs_export d kv opt ns v e w = (Done (v', er), w')"
  shows "dirId v' = dirId v \<and> did (is_rest {POST, PUT, DELETE}) w w' \<and>
    (exportID v' \<noteq> 0 \<longrightarrow> made e w w' ''api/rest/exports'' (exportID v') \<and>
       (er \<noteq> None \<longrightarrow> ended DELETE (''api/rest/exports/'' @ itoa (exportID v')) w w')) \<and>
    (er = None \<longrightarrow> did (is_rest {POST, PUT}) w w')"
proof -
  have D: "did (is_rest {POST, PUT, DELETE}) w w'" by (rule issues_did [OF issues_nfs_export assms]) simp
  obtain block x er1 w1 where E: "nfs_createExport d (PVName opt) (dirId v) ns e w = (Done (block, x, er1), w1)"
    using returnsD [OF nfs_basic_returns(5)] by (metis prod_cases3)
  have d1: "did (is_rest {POST}) w w1" by (rule issues_did [OF issues_nfs_createExport E]) simp
  note C = nfs_createExport_Done [OF E]
  let ?v = "v\<lparr>exportBlock := block, exportID := x\<rparr>"
  show ?thesis
  proof (cases er1)
    case (Some y)
    then show ?thesis using assms E C D by (auto simp: nfs_export_def)
  next
    case None
    obtain v2 er2 w2 where S: "nfs_attach kv opt ?v e w1 = (Done (v2, er2), w2)"
      using returnsD [OF nfs_returns(2)] by fastforce
    have b: "dirId v2 = dirId v" "exportID v2 = x" "exportBlock v2 = block"
        "did (is_rest {PUT, DELETE}) w1 w2" "er2 = None \<Longrightarrow> did (is_rest {PUT}) w1 w2"
      using nfs_attach_Done [OF S] by auto
    have R: "(v', er) = (v2, er2)" "er2 = None \<or> x = 0 \<Longrightarrow> w' = w2"
        "er2 \<noteq> None \<and> x \<noteq> 0 \<Longrightarrow> \<exists>z. nfs_deleteExport (itoa x) block e w2 = (Done z, w')"
      using assms E S None b
      by (auto simp: nfs_export_def deferred_returns_eq [OF nfs_returns(2)] bind_eq_Done split: if_splits)
    have d12: "did (\<lambda>_. True) w w2" using did_trans [OF did_mono [OF d1 TrueI] did_mono [OF b(4) TrueI]] .
    have p: "prefix (history w1) (history w')"
      using R(2,3) did_prefix [OF b(4)] did_prefix [OF issues_did [OF issues_nfs_delete(2) [of "{DELETE}"]]]
      by (cases "er2 = None \<or> x = 0") (auto intro: prefix_order.trans)
    have m: "x \<noteq> 0 \<Longrightarrow> made e w w' ''api/rest/exports'' x"
      using C None made_mono [OF _ p] by blast
    have "er2 \<noteq> None \<and> x \<noteq> 0 \<Longrightarrow> ended DELETE (''api/rest/exports/'' @ itoa x) w w'"
      using R(3) nfs_delete_asks(2) ended_later [OF d12] by blast
    moreover have "did (is_rest {POST, PUT}) w w'" if "er2 = None"
      using did_trans [OF did_rest_mono [OF d1] did_rest_mono [OF b(5) [OF that]]] R(2) that by simp
    ultimately show ?thesis using R(1) b m D by simp
  qed
qed

lemma filesystem_made:
  assumes "rest GET url q b e w = (Done x, w0)" "GetPoolID p e w0 = (Done y, w1)"
    "rest POST url2 q2 b2 e w1 = (Done r, w2)" "accepted r (JObj kvs)" "jget kvs ''id'' = JNum m k" "float_int 64 m k = i"
  shows "made e w w2 url2 i"
proof -
  have "prefix (history w) (history w1)"
    using rest_grows [OF assms(1)] issues_grows [OF issues_GetPoolID [of "{}"] assms(2)] by (rule prefix_order.trans)
  then show ?thesis using made_by_post [OF assms(3-6)] made_earlier by blast
qed

lemma checked_filesystem:
  assumes "checked (\<lambda>e. (0, e)) msg r (\<lambda>v err. if err \<noteq> None then ret (0, err)
      else if v = JNull then ret (0, None)
      else bind (as_obj v) (\<lambda>result. bind (as_int 64 (jget result ''id'')) (\<lambda>i. ret (i, None)))) e w = (Done (i, er), w')"
    (is "?m e w = _")
  shows "history w' = history w \<and> (er \<noteq> None \<longrightarrow> i = 0) \<and>
    (er = None \<longrightarrow> (\<exists>kvs m k. accepted r (JObj kvs) \<and> jget kvs ''id'' = JNum m k \<and> i = float_int 64 m k))"
proof -
  have "silent ?m" by (intro issues_intro)
  from silentD [where m = ?m, OF this assms] have "history w' = history w" .
  moreover have "\<not> accepted r JNull" by (simp add: accepted_def)
  ultimately show ?thesis using checked_Done [OF assms]
    by (auto simp: bind_eq_Done CheckResponse_accepts split: if_splits)
qed

lemma made_cong: "made e w w1 url i \<Longrightarrow> history w2 = history w1 \<Longrightarrow> made e w w2 url i"
  by (simp add: made_def)

lemma nfs_createDirectory_Done:
  assumes "nfs_createDirectory opt e w = (Done (i, er), w')"
  shows "(er \<noteq> None \<longrightarrow> i = 0) \<and> (er = None \<and> i \<noteq> 0 \<longrightarrow> made e w w' ''api/rest/filesystems'' i)"
proof -
  obtain respo w0 where G: "rest GET ''api/rest/filesystems'' '''' None e w = (Done respo, w0)" using rest_returns by blast
  note run = assms [unfolded nfs_createDirectory_def Let_def]
  show ?thesis
  proof (cases respo)
    case (NilResponse s)
    then show ?thesis using run G by simp
  next
    case (Response res x)
    show ?thesis
    proof (cases "x \<noteq> None \<or> (\<forall>kvs. decoded res \<noteq> Inr (JObj kvs))")
      case True
      then show ?thesis using run G unfolding Response
        by (cases x; cases "decoded res"; cases "projr (decoded res)") (auto simp: guard_eq_Done as_obj_def)
    next
      case False
      then obtain kvs where K: "x = None" "decoded res = Inr (JObj kvs)" by blast
      obtain str iserr where P: "ParseError (jget kvs ''error'') = (str, iserr)" by fastforce
      show ?thesis using run G unfolding Response K
        by (cases iserr) (auto simp: P K guard_eq_Done bind_eq_Done split: if_splits
            dest!: checked_filesystem [unfolded not_None_eq] intro: made_cong filesystem_made [OF G])
    qed
  qed
qed

lemma nfs_undo_directory:
  assumes "nfs_export d kv opt ns v e w = (Done (v2, er2), w2)"
    and "deferred results (\<lambda>(v, err). if err \<noteq> None \<and> dirId v \<noteq> 0
                 then seq (nfs_deleteDirectory (itoa (dirId v))) (ret ()) else ret ())
              (nfs_export d kv opt ns v) e w = (Done (v', er), w')"
  shows "v' = v2 \<and> er = er2 \<and> (er2 = None \<or> dirId v2 = 0 \<longrightarrow> w' = w2) \<and>
    (er2 \<noteq> None \<and> dirId v2 \<noteq> 0 \<longrightarrow> (\<exists>z. nfs_deleteDirectory (itoa (dirId v2)) e w2 = (Done z, w')))"
  using assms by (auto simp: deferred_returns_eq [OF nfs_returns(3)] bind_eq_Done split: if_splits)

text \<open>How the creation of the export can end, with the directory deleted when it failed.\<close>

lemma nfs_exported_cases:
  assumes "deferred results (\<lambda>(v, err). if err \<noteq> None \<and> dirId v \<noteq> 0
       then seq (nfs_deleteDirectory (itoa (dirId v))) (ret ()) else ret ()) (nfs_export d kv opt ns v0) e w = (Done (v, er), w')"
  obtains w1 where "dirId v = dirId v0" "did (is_rest {POST, PUT, DELETE}) w w1"
    "exportID v \<noteq> 0 \<Longrightarrow> made e w w1 ''api/rest/exports'' (exportID v)"
    "exportID v \<noteq> 0 \<and> er \<noteq> None \<Longrightarrow> ended DELETE (''api/rest/exports/'' @ itoa (exportID v)) w w1"
    "er = None \<Longrightarrow> did (is_rest {POST, PUT}) w w1 \<and> w' = w1"
    "er \<noteq> None \<Longrightarrow> if dirId v = 0 then w' = w1 else did (is_rest {DELETE}) w1 w' \<and>
       ended DELETE (''api/rest/filesystems/'' @ itoa (dirId v)) w1 w'"
proof -
  obtain v1 er1 w1 where X: "nfs_export d kv opt ns v0 e w = (Done (v1, er1), w1)"
    using returnsD [OF nfs_returns(3)] by fastforce
  note U = nfs_undo_directory [OF X assms]
  show thesis
    by (rule that [of w1]) (use U nfs_export_Done [OF X] nfs_delete_asks(1) issues_did [OF issues_nfs_delete(1) [of "{DELETE}"]]
      in \<open>auto\<close>)
qed

text \<open>How \<open>createVolume\<close> can end.\<close>

lemma nfs_createVolume_cases:
  assumes "nfs_createVolume d kv opt ns e w = (Done (v, er), w')"
  obtains (nothing) "backing v = (0, 0)" "er \<noteq> None" "did (is_rest {POST}) w w'"
  | (undone) w1 w2 where "er \<noteq> None" "dirId v \<noteq> 0 \<Longrightarrow> made e w w1 ''api/rest/filesystems'' (dirId v)"
      "exportID v \<noteq> 0 \<Longrightarrow> made e w w2 ''api/rest/exports'' (exportID v) \<and>
         ended DELETE (''api/rest/exports/'' @ itoa (exportID v)) w w2"
      "did (\<lambda>_. True) w w2" "did (is_rest {POST, PUT, DELETE}) w1 w2"
      "if dirId v = 0 then w' = w2 else did (is_rest {DELETE}) w2 w' \<and> ended DELETE (''api/rest/filesystems/'' @ itoa (dirId v)) w2 w'"
  | (created) "er = None" "dirId v \<noteq> 0 \<Longrightarrow> made e w w' ''api/rest/filesystems'' (dirId v)"
      "exportID v \<noteq> 0 \<Longrightarrow> made e w w' ''api/rest/exports'' (exportID v)" "did (is_rest {POST, PUT}) w w'"
  using assms [unfolded nfs_createVolume_def Let_def]
proof (cases rule: configured_cases)
  case (refused x)
  then show thesis using that(1) did_rest_mono [OF refused(1)] by (auto simp: no_volume_def)
next
  case (configured w2)
  have d2: "did (is_rest {POST}) w w2" by (rule did_rest_mono [OF configured(1)]) simp
  show thesis
  proof (rule guard_bind_returns [OF configured(2) nfs_basic_returns(4)], goal_cases)
    case made: (1 x w3)
    obtain i er3 where x: "x = (i, er3)" by (cases x)
    note C = made(1) [unfolded x]
    have d23: "did (is_rest {POST}) w2 w3" by (rule issues_did [OF issues_nfs_createDirectory C]) simp
    have d3: "did (is_rest {POST}) w w3" using d2 d23 by (rule did_trans)
    show thesis
    proof (cases er3)
      case (Some y)
      then show thesis using made(2) d3 nfs_createDirectory_Done [OF C] by (intro that(1)) (auto simp: x no_volume_def)
    next
      case er3: None
      have F: "i \<noteq> 0 \<Longrightarrow> made e w w3 ''api/rest/filesystems'' i"
        using nfs_createDirectory_Done [OF C] er3 made_earlier [OF _ did_prefix [OF d2]] by auto
      have "returns (deferred results (\<lambda>(v, err). if err \<noteq> None \<and> dirId v \<noteq> 0
          then seq (nfs_deleteDirectory (itoa (dirId v))) (ret ()) else ret ()) (nfs_export d kv opt ns v0))" for results v0
        by (intro returns_intro)
      note run = made(2) [unfolded x prod.case er3 option.case guard_of_returns [OF this]]
      show thesis
      proof (rule nfs_exported_cases [OF run], goal_cases)
        case E: (1 w4)
        have i: "dirId v = i" using E(1) by simp
        have e4: "exportID v \<noteq> 0 \<Longrightarrow> made e w w4 ''api/rest/exports'' (exportID v)"
          using made_earlier [OF E(3) did_prefix [OF d3]] .
        show thesis
        proof (cases er)
          case None
          have p: "did (is_rest {POST, PUT}) w3 w'" and w4: "w' = w4" using E(5) None by auto
          show thesis
            by (rule created [OF None])
              (use i F made_mono [OF F did_prefix [OF p]] e4 w4 did_trans [OF did_rest_mono [OF d3] p] in auto)
        next
          case (Some y)
          have t: "did (\<lambda>_. True) w w4" by (rule did_trans [OF did_mono [OF d3 TrueI] did_mono [OF E(2) TrueI]])
          show thesis
            by (rule undone [of w3 w4]) (use Some i F E(2,6) e4 ended_later [OF d3 E(4)] t in auto)
        qed
      qed
    qed
  qed
qed

text \<open>
  C8. Rollback of the NFS provisioner's \<open>createVolume\<close>. It always returns. On success the
  filesystem and the export it reports were created by accepted POSTs and nothing was deleted.
  On failure an export that was created is deleted, then the filesystem by the very last
  request (an id 0 counts as not created).
\<close>

theorem nfs_createVolume_rolls_back:
  "\<exists>v er w'. nfs_createVolume d kv opt ns e w = (Done (v, er), w') \<and>
     (if dirId v \<noteq> 0 then made e w w' ''api/rest/filesystems'' (dirId v) else True) \<and>
     (if exportID v \<noteq> 0 then made e w w' ''api/rest/exports'' (exportID v) else True) \<and>
     (case er of
        None \<Rightarrow> did (is_rest {POST, PUT}) w w'
      | Some _ \<Rightarrow>
          (if dirId v \<noteq> 0 then ended DELETE (''api/rest/filesystems/'' @ itoa (dirId v)) w w' else True) \<and>
          (if exportID v \<noteq> 0
           then \<exists>w2. ended DELETE (''api/rest/exports/'' @ itoa (exportID v)) w w2 \<and> did (is_rest {DELETE}) w2 w'
           else True))"
proof -
  obtain v er w' where run: "nfs_createVolume d kv opt ns e w = (Done (v, er), w')"
    using returnsD [OF nfs_basic_returns(6)] by fastforce
  show ?thesis
  proof (cases rule: nfs_createVolume_cases [OF run])
    case 1
    then show ?thesis using run by auto
  next
    case (2 w1 w2)
    have p: "prefix (history w1) (history w')" "prefix (history w2) (history w')"
      using 2(5,6) did_prefix by (auto split: if_splits intro: prefix_order.trans)
    show ?thesis
      using run 2 made_mono [OF _ p(1)] made_mono [OF _ p(2)] ended_later [OF 2(4)]
      by (intro exI [of _ v] exI [of _ er] exI [of _ w']) (auto split: if_splits)
  next
    case 3
    then show ?thesis using run by auto
  qed
qed

end
