(* ===== verification/NFSVolumes.thy ===== *)
theory NFSVolumes
  imports NFS
begin

text \<open>
  What the NFS provisioner of \<open>pkg/nfs\<close> (model: NFS) guarantees about \<open>Provision\<close>, \<open>Delete\<close>, the
  limit of filesystems, the choice of a server address and the export permissions, and that it
  meets the contract of the controller.
\<close>

section \<open>Provision and Delete\<close>

lemma nfs_deleteDirectory_ok:
  assumes "nfs_deleteDirectory s e w = (Done None, w')"
  shows "ended_ok e DELETE (''api/rest/filesystems/'' @ s) w w'"
proof -
  obtain r w1 where R: "rest DELETE (''api/rest/filesystems/'' @ s) ''approved=true'' None e w = (Done r, w1)"
    using rest_returns by blast
  then have "\<exists>x. CheckResponse r = Done (x, None) \<and> w' = w1"
    using assms by (auto simp: nfs_deleteDirectory_def bind_eq_Done dest!: checked_None split: if_splits)
  then show ?thesis using rest_ended_ok [OF R] CheckResponse_accepts by blast
qed

lemma nfs_pv_own: "own (nfs_pv opt v)"
  "mget (annotations_of (pv_annotations (nfs_pv opt v))) annVolumeID = Some (itoa (dirId v))"
  "mstr (annotations_of (pv_annotations (nfs_pv opt v))) annExportID = FormatUint (exportID v)"
  by (simp_all add: own_def nfs_pv_def nfs_annotations_def annCreatedBy_def annVolumeID_def annExportBlock_def
     annExportID_def annProjectID_def mstr_def)



lemma nfs_Provision_cases:
  assumes "nfs_Provision d kv opt ns e w = (Done (p, er), w')"
  obtains (unset) "p = None" "er \<noteq> None" "w' = w"
  | (failed) v x where "p = None" "er = Some x" "nfs_createVolume d kv opt ns e w = (Done (v, Some x), w')"
  | (provisioned) v where "p = Some (nfs_pv opt v)" "er = None" "nfs_createVolume d kv opt ns e w = (Done (v, None), w')"
proof -
  obtain v x w1 where C: "nfs_createVolume d kv opt ns e w = (Done (v, x), w1)"
    using returnsD [OF nfs_basic_returns(6)] by fastforce
  show thesis
    using assms C that by (cases x) (auto simp: nfs_Provision_def env_set_def split: if_splits)
qed


section \<open>The limit of filesystems\<close>

text \<open>
  C26. The limit \<open>max_fs\<close>: with n filesystems reported by InfiniBox, \<open>createDirectory\<close> refuses
  without any further request exactly when n exceeds the limit. With n equal to the limit one
  more filesystem is requested once the pool is found, so the limit can be exceeded by one.
\<close>

theorem nfs_limit_is_exceeded:
  assumes "rest GET ''api/rest/filesystems'' '''' None e w = (Done (Response res None), w1)"
    and "decoded res = Inr (JObj kvs)" "jget kvs ''error'' = JNull" "jget kvs ''metadata'' = JObj meta"
    and "jget meta ''number_of_objects'' = JNum m k"
  shows "if float_int 64 m k > fst (ParseInt (mstr (annotations_of (getConfiguration w1)) ''max_fs'') 64)
    then \<exists>x. nfs_createDirectory opt e w = (Done (0, Some x), w1)
    else \<forall>pool w2. GetPoolID (mstr (annotations_of (getConfiguration w1)) ''pool_name'') e w1 = (Done (pool, None), w2) \<longrightarrow>
      (\<exists>r w3. nfs_createDirectory opt e w = (Done r, w3) \<and> ended POST ''api/rest/filesystems'' w2 w3)"
proof (cases "float_int 64 m k > fst (ParseInt (mstr (annotations_of (getConfiguration w1)) ''max_fs'') 64)")
  case True
  then show ?thesis using assms by (auto simp: nfs_createDirectory_def Let_def)
next
  case False
  have "\<exists>r w3. nfs_createDirectory opt e w = (Done r, w3) \<and> ended POST ''api/rest/filesystems'' w2 w3"
    if G: "GetPoolID (mstr (annotations_of (getConfiguration w1)) ''pool_name'') e w1 = (Done (pool, None), w2)" for pool w2
  proof -
    let ?c = "mstr (annotations_of (getConfiguration w2))"
    let ?body = "JObj [(''atime_mode'', JStr ''NOATIME''), (''pool_id'', JNum pool 0), (''name'', JStr (PVName opt)),
        (''ssd_enabled'', JBool (fst (ParseBool (if ?c ''ssd_enabled'' = '''' then show_bool True else ?c ''ssd_enabled'')))),
        (''provtype'', JStr (ToUpper (?c ''provision_type''))), (''size'', JNum (pvc_storage (PVC opt)) 0)]"
    let ?m = "\<lambda>rescreate. checked (\<lambda>e. (0, e)) (''['' @ PVName opt @ ''] error while  creating filesystem  '') rescreate
        (\<lambda>resultPostCreate err. if err \<noteq> None then ret (0, err)
           else if resultPostCreate = JNull then ret (0, None)
           else bind (as_obj resultPostCreate) (\<lambda>wholemap. bind (as_int 64 (jget wholemap ''id'')) (\<lambda>i. ret (i, None))))"
    have "returns (bind (rest POST ''api/rest/filesystems'' '''' (Some ?body)) ?m)" by (intro returns_intro)
    then obtain r w3 where R: "bind (rest POST ''api/rest/filesystems'' '''' (Some ?body)) ?m e w2 = (Done r, w3)"
      using returnsD by blast
    have E: "ended POST ''api/rest/filesystems'' w2 w3" by (rule rest_then [OF R]) (intro issues_intro)
    have "nfs_createDirectory opt e w = (Done r, w3)"
      unfolding nfs_createDirectory_def Let_def
      by (simp only: bind_Done assms(1), rule guard_Done)
        (simp only: reply.case option.case assms(2-5) sum.case json.case as_simps bind_ret ParseError_JNull prod.case bool.case
          json.distinct if_False bind_Done read_config_Done False G exec, rule R)
    then show ?thesis using E by blast
  qed
  then show ?thesis using False by auto
qed

definition one_fs_world :: world where
  "one_fs_world = demo_world\<lparr>configuration := [(configMapName, ConfigMap (Some (mput ''max_fs'' ''1'' demo_config)))]\<rparr>"

theorem nfs_limit_is_exceeded_witness:
  "\<exists>r w3. nfs_createDirectory sample_options demo_env one_fs_world = (Done r, w3) \<and>
     ended POST ''api/rest/filesystems'' one_fs_world w3"
proof -
  let ?kvs = "[(''result'', demo_answer GET), (''metadata'', JObj [(''number_of_objects'', JNum 1 0)])]"
  let ?res = "\<lparr>status_code = 200, status_line = ''200 OK'', final_url = '''', decoded = Inr (JObj ?kvs)\<rparr>"
  have c: "world.rest_client one_fs_world = Some demo_client"
      "getConfiguration one_fs_world = Some (mput ''max_fs'' ''1'' demo_config)"
    by (simp_all add: one_fs_world_def getConfiguration_def)
  obtain w1 where R: "rest GET ''api/rest/filesystems'' '''' None demo_env one_fs_world = (Done (Response ?res None), w1)"
      "world.rest_client w1 = Some demo_client" "getConfiguration w1 = Some (mput ''max_fs'' ''1'' demo_config)"
    using c by (simp add: demo_rest demo_reply_def)
  have d1: "did (is_rest {}) one_fs_world w1" by (rule issues_did [OF issues_rest R(1)]) simp
  have m: "mstr (mput ''max_fs'' ''1'' demo_config) ''max_fs'' = ''1''" "mstr (mput ''max_fs'' ''1'' demo_config) ''pool_name'' = ''main''"
      "mstr demo_config ''pool_name'' = ''main''"
    by (simp_all add: demo_config_def mput_def mstr_def)
  have p: "fst (ParseInt ''1'' 64) = 1" by (simp add: parse_eval)
  obtain w2 where G: "GetPoolID ''main'' demo_env w1 = (Done (7, None), w2)"
    using R(2) by (simp add: demo_simps)
  have d2: "did (is_rest {}) one_fs_world w2" using d1 issues_did [OF issues_GetPoolID G] by (rule did_trans)
  have "\<exists>r w3. nfs_createDirectory sample_options demo_env one_fs_world = (Done r, w3) \<and> ended POST ''api/rest/filesystems'' w2 w3"
    using nfs_limit_is_exceeded [OF R(1), of ?kvs "[(''number_of_objects'', JNum 1 0)]" 1 0 sample_options] G
    by (simp add: jget_def R(3) m p fits_def)
  then show ?thesis using ended_later [OF d2] by blast
qed

section \<open>The server address\<close>

text \<open>The servers of n successive volumes.\<close>

fun servers :: "nat \<Rightarrow> (string \<times> err) list prog" where
  "servers 0 = ret []"
| "servers (Suc n) = bind nfs_getServer (\<lambda>x. bind (servers n) (\<lambda>xs. ret (x # xs)))"

definition space_entry :: "string \<Rightarrow> string list \<Rightarrow> json" where
  "space_entry name ips = JObj [(''name'', JStr name),
     (''ips'', JArr (map (\<lambda>ip. JObj [(''ip_address'', JStr ip)]) ips))]"

lemma nfs_getServer_pick:
  assumes config: "getConfiguration w = Some d" "trim_spaces (hd (split_on CHR '','' (mstr d ''nfs_networkspace''))) = ns"
    and box: "\<And>h rq. rq_url rq = ''api/rest/network/spaces'' \<Longrightarrow> accepted (answer e h rq) (JArr [space_entry ns ips])"
    and ips: "ips \<noteq> []" and c: "case mget (networkspacesIps w) ns of None \<Rightarrow> c = 0 | Some c' \<Rightarrow> c = c'" "0 \<le> c"
  shows "\<exists>w'. nfs_getServer e w = (Done (ips ! nat (c mod int (length ips)), None), w') \<and> getConfiguration w' = Some d \<and>
    mget (networkspacesIps w') ns = Some (case mget (networkspacesIps w) ns of None \<Rightarrow> 0 | Some c' \<Rightarrow> int64 (c + 1))"
proof -
  obtain r w1 where R: "rest GET ''api/rest/network/spaces'' (''name='' @ ns) None e w = (Done r, w1)" using rest_returns by blast
  have acc: "accepted r (JArr [space_entry ns ips])" using rest_last [OF R] box by auto
  have f: "getConfiguration w1 = Some d" "networkspacesIps w1 = networkspacesIps w"
    using rest_frame [OF R] config(1) by (simp_all add: getConfiguration_def)
  let ?n = "case mget (networkspacesIps w) ns of None \<Rightarrow> 0 | Some c' \<Rightarrow> int64 (c + 1)"
  let ?w2 = "w1\<lparr>networkspacesIps := mput ns ?n (networkspacesIps w1)\<rparr>"
  have i: "0 \<le> c mod int (length ips)" "nat (c mod int (length ips)) < length ips"
    using ips by (simp_all add: nat_less_iff)
  have L: "serverLoop ns [space_entry ns ips] None e w1 =
      (Done (Some [(''ip_address'', JStr (ips ! nat (c mod int (length ips))))]), ?w2)"
    using ips c f i
    by (auto simp: space_entry_def jget_def Let_def index_def split: option.splits)
  have chk: "checked results msg r k e w1 = guard None results msg (k (JArr [space_entry ns ips]) None) e w1" for results msg and k :: "json \<Rightarrow> err \<Rightarrow> (string \<times> err) prog"
  proof -
    obtain res where "r = Response res None" using acc by (auto simp: accepted_def)
    moreover have "CheckResponse r = Done (JArr [space_entry ns ips], None)" using acc CheckResponse_accepts by blast
    ultimately show ?thesis by (simp add: checked_eq)
  qed
  have ipa: "jget [(''ip_address'', JStr (ips ! nat (c mod int (length ips))))] ''ip_address'' = JStr (ips ! nat (c mod int (length ips)))"
    by (simp add: jget_def)
  have "nfs_getServer e w = (Done (ips ! nat (c mod int (length ips)), None), ?w2)"
    unfolding nfs_getServer_def Let_def
    by (rule guard_Done, simp only: bind_Done read_config_Done config annotations_of_simps R chk, rule guard_Done)
      (simp only: as_simps bind_ret bind_Done L option.case ipa, simp)
  then show ?thesis using f by auto
qed

lemma servers_later:
  assumes "trim_spaces (hd (split_on CHR '','' (mstr d ''nfs_networkspace''))) = ns"
    and "\<And>h rq. rq_url rq = ''api/rest/network/spaces'' \<Longrightarrow> accepted (answer e h rq) (JArr [space_entry ns ips])"
    and "ips \<noteq> []" and "getConfiguration w = Some d" "mget (networkspacesIps w) ns = Some (int k)" "int (k + n) < 2 ^ 63"
  shows "\<exists>w'. servers n e w = (Done (map (\<lambda>j. (ips ! (j mod length ips), None)) [k..<k + n]), w')"
  using assms(4-6)
proof (induction n arbitrary: k w)
  case (Suc n)
  obtain w1 where S: "nfs_getServer e w = (Done (ips ! nat (int k mod int (length ips)), None), w1)"
      "getConfiguration w1 = Some d" "mget (networkspacesIps w1) ns = Some (int64 (int k + 1))"
    using nfs_getServer_pick [OF Suc.prems(1) assms(1-3), of "int k"] Suc.prems(2) by auto
  have i: "int64 (int k + 1) = int (Suc k)" using Suc.prems(3) by (simp add: fits_def)
  have n: "nat (int k mod int (length ips)) = k mod length ips" by (simp flip: of_nat_mod)
  obtain w2 where "servers n e w1 = (Done (map (\<lambda>j. (ips ! (j mod length ips), None)) [Suc k..<Suc k + n]), w2)"
    using Suc.IH [OF S(2) S(3) [unfolded i]] Suc.prems(3) by auto
  moreover have "[k..<k + Suc n] = k # [Suc k..<Suc k + n]" by (simp add: upt_conv_Cons del: upt_Suc)
  ultimately show ?case using S(1) n by (simp del: upt_Suc add_Suc add_Suc_right)
qed simp

text \<open>
  C25. The addresses of a network space are handed out to successive NFS volumes in turn, except
  that the first address is used twice at the start: volume j (counted from 0) is served by
  address \<open>(j - 1) mod length ips\<close>, where \<open>0 - 1 = 0\<close>.
\<close>

theorem nfs_servers_in_turn:
  assumes "getConfiguration w = Some d" "trim_spaces (hd (split_on CHR '','' (mstr d ''nfs_networkspace''))) = ns"
    and "\<And>h rq. rq_url rq = ''api/rest/network/spaces'' \<Longrightarrow> accepted (answer e h rq) (JArr [space_entry ns ips])"
    and "ips \<noteq> []" "mget (networkspacesIps w) ns = None" "int n < 2 ^ 63"
  shows "\<exists>w'. servers n e w = (Done (map (\<lambda>j. (ips ! ((j - 1) mod length ips), None)) [0..<n]), w')"
proof (cases n)
  case (Suc m)
  obtain w1 where S: "nfs_getServer e w = (Done (ips ! 0, None), w1)"
      "getConfiguration w1 = Some d" "mget (networkspacesIps w1) ns = Some (int 0)"
    using nfs_getServer_pick [OF assms(1-4), of 0] assms(5) by auto
  obtain w2 where "servers m e w1 = (Done (map (\<lambda>j. (ips ! (j mod length ips), None)) [0..<0 + m]), w2)"
    using servers_later [OF assms(2-4) S(2,3), of m] assms(6) Suc by auto
  moreover have "map (\<lambda>j. (ips ! ((j - 1) mod length ips), None :: err)) [0..<Suc m] =
      (ips ! 0, None) # map (\<lambda>j. (ips ! (j mod length ips), None)) [0..<m]"
    by (simp add: upt_conv_Cons map_Suc_upt [symmetric] del: upt_Suc)
  ultimately show ?thesis using S(1) Suc by simp
qed simp

definition space_env :: env where
  "space_env = quiet_env\<lparr>answer := (\<lambda>h rq. demo_reply (JArr [space_entry ''main'' [''10.0.0.9'', ''10.0.0.10'']]))\<rparr>"

theorem nfs_servers_in_turn_witness:
  "\<exists>w'. servers 4 space_env demo_world =
     (Done [(''10.0.0.9'', None), (''10.0.0.9'', None), (''10.0.0.10'', None), (''10.0.0.9'', None)], w')"
proof -
  have a: "accepted (answer space_env h rq) (JArr [space_entry ''main'' [''10.0.0.9'', ''10.0.0.10'']])" for h rq
    by (simp add: space_env_def accepted_def demo_reply_def jget_def)
  have "trim_spaces (hd (split_on CHR '','' (mstr demo_config ''nfs_networkspace''))) = ''main''"
    by (simp add: demo_config_def mstr_def trim_spaces_def)
  from nfs_servers_in_turn [OF demo_world_fields(1) this a, of 4] show ?thesis
    by (simp add: upt_conv_Cons)
qed

section \<open>Export permissions\<close>

lemma issues_keyExists [issues_intro]: "issues P (keyExists ps v)"
  by (induction ps v rule: keyExists.induct) (simp_all only: keyExists.simps, (intro issues_intro | assumption)+)

lemma issues_rest_exactly:
  assumes "\<And>rq. rq_method rq = GET \<Longrightarrow> P (Rest rq)"
    and "\<And>rq. rq_method rq = m \<Longrightarrow> rq_url rq = url \<Longrightarrow> rq_body rq = b \<Longrightarrow> P (Rest rq)"
  shows "issues P (rest m url q b)"
  unfolding rest_def GetRestClient_def perform_def Getenv_def by (intro issues_intro) (simp_all add: assms)

text \<open>A request that leaves an export with the permissions ps and some more for the given addresses.\<close>

definition extends :: "string \<Rightarrow> permission list \<Rightarrow> string \<Rightarrow> bool \<Rightarrow> ip list \<Rightarrow> action \<Rightarrow> bool" where
  "extends url ps acess squash addrs a \<longleftrightarrow>
     (\<exists>rq as. a = Rest rq \<and> rq_method rq = PUT \<and> rq_url rq = url \<and> as \<noteq> [] \<and> set as \<subseteq> set addrs \<and>
        rq_body rq = Some (JObj [(''permissions'', JArr (map permission_json (ps @ map (Added acess squash) as)))]))"

lemma issues_callUpdateExportRules:
  assumes "\<And>rq. rq_method rq = GET \<Longrightarrow> P (Rest rq)"
    and "\<And>rq. rq_method rq = PUT \<Longrightarrow> rq_url rq = url \<Longrightarrow>
      rq_body rq = Some (JObj [(''permissions'', JArr (map permission_json ps))]) \<Longrightarrow> P (Rest rq)"
  shows "issues P (callUpdateExportRules ps url)"
  unfolding callUpdateExportRules_def by (intro issues_intro issues_rest_exactly assms) simp_all

lemma addLoop_extends:
  "set xs \<subseteq> set addrs \<Longrightarrow> set ys \<subseteq> set addrs \<Longrightarrow>
     issues (\<lambda>a. is_rest {} a \<or> extends url ps acess squash addrs a)
       (addLoop url acess squash xs (ps @ map (Added acess squash) ys))"
proof (induction xs arbitrary: ys)
  case Nil
  then show ?case by (simp only: addLoop.simps issues_ret)
next
  case (Cons x xs)
  have IH: "issues (\<lambda>a. is_rest {} a \<or> extends url ps acess squash addrs a)
      (addLoop url acess squash xs ((ps @ map (Added acess squash) ys) @ [Added acess squash x]))"
    using Cons.IH [of "ys @ [x]"] Cons.prems by simp
  have E: "extends url ps acess squash addrs (Rest rq)"
    if "rq_method rq = PUT" "rq_url rq = url" "rq_body rq = Some (JObj [(''permissions'',
      JArr (map permission_json ((ps @ map (Added acess squash) ys) @ [Added acess squash x])))])" for rq
    unfolding extends_def using that Cons.prems by (intro exI [of _ rq] exI [of _ "ys @ [x]"]) auto
  show ?case unfolding addLoop.simps Let_def
    by (intro issues_intro IH Cons.IH issues_callUpdateExportRules) (use Cons.prems E in auto)
qed


text \<open>The result of a GET on an export that lists every given address.\<close>

definition lists_all :: "ip list \<Rightarrow> json \<Rightarrow> bool" where
  "lists_all addrs v \<longleftrightarrow> (\<exists>m ps. v = JObj m \<and> jget m ''permissions'' = JArr (map JObj ps) \<and> ps \<noteq> [] \<and>
     (\<forall>a \<in> set addrs. \<exists>p \<in> set ps. keyExistsInMap p (ip_string a)))"

lemma keyExists_found:
  "\<exists>p \<in> set ps. keyExistsInMap p v \<Longrightarrow> keyExists (map (Listed \<circ> JObj) ps) v = ret True"
  by (induction ps) auto

lemma addLoop_all_known:
  "\<forall>a \<in> set addrs. \<exists>p \<in> set ps. keyExistsInMap p (ip_string a) \<Longrightarrow>
     addLoop url acess squash addrs (map (Listed \<circ> JObj) ps) = ret None"
  by (induction addrs) (simp_all add: keyExists_found bind_ret [unfolded ret_def] ret_def [symmetric])

lemma exportLoop_all_known:
  assumes "\<And>h rq. \<exists>v. accepted (answer e h rq) v \<and> lists_all (parsed_addresses added) v"
  shows "\<exists>w'. exportLoop pvs ns True added e w = (Done None, w') \<and> did (is_rest {}) w w'"
proof (induction pvs arbitrary: w)
  case (Cons p pvs)
  let ?x = "mstr (annotations_of (pv_annotations p)) annExportID"
  show ?case
  proof (cases "fst (nfs_provisioned p) \<and> ?x \<noteq> ''''")
    case True
    obtain r w1 where R: "rest GET (''api/rest/exports/'' @ ?x) '''' None e w = (Done r, w1)" using rest_returns by blast
    obtain m ps where v: "accepted r (JObj m)" "jget m ''permissions'' = JArr (map JObj ps)" "ps \<noteq> []"
        "\<forall>a \<in> set (parsed_addresses added). \<exists>p \<in> set ps. keyExistsInMap p (ip_string a)"
      using rest_last [OF R] assms unfolding lists_all_def by metis
    have C: "CheckResponse r = Done (JObj m, None)" using v(1) CheckResponse_accepts by blast
    have L: "addLoop u t s (parsed_addresses added) (map (Listed \<circ> JObj) ps) = ret None" for u t s
      by (rule addLoop_all_known [OF v(4)])
    obtain p0 ps' where ps: "ps = p0 # ps'" using v(3) by (cases ps) auto
    have "exportLoop (p # pvs) ns True added e w = exportLoop pvs ns True added e w1"
      using True R C L v(2) by (simp add: Let_def old_permissions_def index_def ps)
    moreover have "did (is_rest {}) w w1" by (rule issues_did [OF issues_rest R]) simp
    ultimately show ?thesis using Cons.IH [of w1] did_trans by metis
  next
    case False
    then have "exportLoop (p # pvs) ns True added e w = exportLoop pvs ns True added e w" by (simp only: exportLoop.simps Let_def if_False)
    then show ?thesis using Cons.IH [of w] by (simp only:)
  qed
qed simp

lemma demo_address:
  "ParseIP ''10.0.0.1'' = Some [0, 0, 0, 0, 0, 65535, 2560, 1]"
  "ip_string [0, 0, 0, 0, 0, 65535, 2560, 1] = ''10.0.0.1''"
  by (simp_all add: ParseIP_def parseIPv4_def v4_groups_def ip_string_def ip_eval digit_char_def)

text \<open>
  C28. \<open>UpdateMapping\<close> of NFS is idempotent on additions: when every export already lists, in
  some field of some entry, the canonical text of each address of the added nodes, it succeeds
  and changes nothing: it only reads.
\<close>

theorem nfs_known_nodes_change_nothing:
  assumes "\<And>h rq. \<exists>v. accepted (answer e h rq) v \<and> lists_all (parsed_addresses added) v"
  shows "\<exists>w'. nfs_UpdateMapping pvs ns True deleted added e w = (Done None, w') \<and> did (is_rest {}) w w'"
  using exportLoop_all_known [OF assms, of pvs ns w] by (auto simp: nfs_UpdateMapping_def)

definition listing_env :: env where
  "listing_env = quiet_env\<lparr>answer := (\<lambda>h rq. demo_reply (JObj [(''permissions'',
     JArr [JObj [(''access'', JStr ''RW''), (''client'', JStr ''10.0.0.1'')]])]))\<rparr>"

theorem nfs_known_nodes_change_nothing_witness:
  "\<exists>w'. nfs_UpdateMapping [nfs_pv sample_options no_volume] [demo_node] True False [demo_node] listing_env demo_world = (Done None, w') \<and>
     did (is_rest {}) demo_world w'"
proof (rule nfs_known_nodes_change_nothing)
  show "\<exists>v. accepted (answer listing_env h rq) v \<and> lists_all (parsed_addresses [demo_node]) v" for h rq
  proof (intro exI conjI)
    show "accepted (answer listing_env h rq) (JObj [(''permissions'', JArr [JObj [(''access'', JStr ''RW''), (''client'', JStr ''10.0.0.1'')]])])"
      by (simp add: listing_env_def accepted_def demo_reply_def jget_def)
    show "lists_all (parsed_addresses [demo_node]) (JObj [(''permissions'', JArr [JObj [(''access'', JStr ''RW''), (''client'', JStr ''10.0.0.1'')]])])"
      unfolding lists_all_def
      by (rule exI [of _ "[(''permissions'', JArr [JObj [(''access'', JStr ''RW''), (''client'', JStr ''10.0.0.1'')]])]"],
          rule exI [of _ "[[(''access'', JStr ''RW''), (''client'', JStr ''10.0.0.1'')]]"])
        (simp add: jget_def parsed_addresses_def demo_node_def keyExistsInMap_def demo_address demo_address(2) [simplified])
  qed
qed

section \<open>The contract\<close>

lemma issues_addLoop [issues_intro]: "PUT \<in> M \<Longrightarrow> issues (is_rest M) (addLoop url acess squash addrs ps)"
  using addLoop_extends [of addrs addrs "[]" url ps acess squash]
  by (auto elim!: issues_mono simp: extends_def elim: is_rest_mono)

lemma issues_callUpdate [issues_intro]: "PUT \<in> M \<Longrightarrow> issues (is_rest M) (callUpdateExportRules ps url)"
  by (rule issues_callUpdateExportRules) simp_all

lemma issues_old_permissions [issues_intro]: "issues P (old_permissions p)"
  unfolding old_permissions_def by (intro issues_intro)

lemma issues_exportLoop [issues_intro]: "PUT \<in> M \<Longrightarrow> issues (is_rest M) (exportLoop pvs ns f added)"
proof (induction pvs)
  case (Cons p pvs)
  then show ?case unfolding exportLoop.simps Let_def by (intro issues_intro Cons.IH) simp_all
qed (simp only: exportLoop.simps issues_ret)

lemma issues_nfs_UpdateMapping: "PUT \<in> M \<Longrightarrow> issues (is_rest M) (nfs_UpdateMapping pvs ns added deleted nodes)"
  unfolding nfs_UpdateMapping_def by (intro issues_intro)

text \<open>\<open>NewNFSProvisioner\<close>\<close>

definition nfs_provisioner :: "string \<Rightarrow> string \<Rightarrow> provisioner" where
  "nfs_provisioner exportDir kubeVer =
     \<lparr>Provision = nfs_Provision exportDir kubeVer, DeleteVolume = nfs_Delete, UpdateMapping = nfs_UpdateMapping\<rparr>"

lemma nfs_Delete_foreign: "\<not> own q \<Longrightarrow> \<exists>x. nfs_Delete q ns = ret (Some x)"
  by (cases "mget (annotations_of (pv_annotations q)) annCreatedBy")
    (auto simp: own_def nfs_Delete_def nfs_provisioned_def)

lemma nfs_Provision_volume:
  assumes "nfs_Provision d kv opt ns e w = (Done (p, er), w')"
  shows "(p = None) = (er \<noteq> None) \<and> (\<forall>q. p = Some q \<longrightarrow> own q \<and> pv_name q = PVName opt \<and>
      pv_reclaimPolicy q = vo_reclaimPolicy opt \<and>
      pv_accessModes q = pvc_accessModes (PVC opt) \<and> pv_capacity q = pvc_storage (PVC opt) \<and> pv_claimRef q = None)"
  by (cases rule: nfs_Provision_cases [OF assms]) (auto simp: nfs_pv_own(1), auto simp: nfs_pv_def)

interpretation nfs: provisioner_contract "nfs_provisioner exportDir kubeVer" for exportDir kubeVer
proof
  fix opt ns e w
  show "\<exists>p er w'. Provision (nfs_provisioner exportDir kubeVer) opt ns e w = (Done (p, er), w')"
    using returnsD [OF nfs_returns(4)] by (fastforce simp: nfs_provisioner_def)
next
  fix q ns assume "\<not> own q"
  then show "\<exists>x. DeleteVolume (nfs_provisioner exportDir kubeVer) q ns = ret (Some x)"
    by (simp add: nfs_provisioner_def nfs_Delete_foreign)
qed (use nfs_Provision_volume in \<open>force simp: nfs_provisioner_def intro: issues_intro returns_intro issues_nfs_UpdateMapping\<close>)+

end
