(* ===== verification/FC.thy ===== *)
theory FC
  imports ISCSI
begin

text \<open>
  \<open>pkg/fc/provision.go\<close> and \<open>pkg/fc/delete.go\<close>. The package repeats the constants
  \<open>annCreatedBy\<close> and \<open>createdBy\<close> of the iSCSI package with the same values; its rollback goes
  through \<open>volDestroy\<close>, which detaches metadata and unmaps before it deletes.
\<close>

section \<open>Hosts and mappings\<close>

definition fc_getAccessModes :: "access_mode list" where
  "fc_getAccessModes = [ReadWriteOnce]"

definition fc_getReadOnly :: "string \<Rightarrow> bool" where
  "fc_getReadOnly readonly =
     (let (isReadOnly, err) = ParseBool readonly in if err \<noteq> None then False else isReadOnly)"

definition fc_getVolumeName :: "volume_options \<Rightarrow> string" where
  "fc_getVolumeName options = PVName options"

definition fc_getHostId :: "string \<Rightarrow> (int \<times> err) prog" where
  "fc_getHostId name =
     bind (rest GET ''api/rest/hosts'' (''name='' @ name) None) (\<lambda>resGet.
     checked (\<lambda>e. (0, e)) (''['' @ name @ '' ] error while getting host id '') resGet (\<lambda>resultGet err.
       if err \<noteq> None then ret (0, err)
       else bind (as_arr resultGet) (\<lambda>arrayOfResult.
         if length arrayOfResult = 0 then ret (0, Some (Err '' host id is not present ''))
         else bind (index arrayOfResult 0) (\<lambda>x. bind (as_obj x) (\<lambda>resultMap.
              bind (as_int 64 (jget resultMap ''id'')) (\<lambda>i. ret (i, None)))))))"

definition fc_mapping :: "int \<Rightarrow> int \<Rightarrow> int \<Rightarrow> (int \<times> err) prog" where
  "fc_mapping hostId volumeId lunNo =
     (let body = [(''volume_id'', JNum volumeId 0)] @ (if lunNo > -1 then [(''lun'', JNum lunNo 0)] else []) in
      bind (rest POST (''api/rest/hosts/'' @ itoa hostId @ ''/luns'') ''approved=true'' (Some (JObj body))) (\<lambda>restPost.
      checked (\<lambda>e. (0, e)) ''error while mapping volume to host '' restPost (\<lambda>resultPost err.
        if (case err of None \<Rightarrow> False | Some er \<Rightarrow> \<not> contains (Error er) ''MAPPING_ALREADY_EXISTS'')
        then ret (0, err)
        else bind (as_obj resultPost) (\<lambda>lunofVolume.
             bind (as_int 32 (jget lunofVolume ''lun'')) (\<lambda>l. ret (l, None))))))"

fun fc_mapLoop :: "string list \<Rightarrow> int \<Rightarrow> int \<Rightarrow> (int \<times> err) prog" where
  "fc_mapLoop [] volumeId lunNo = ret (lunNo, None)"
| "fc_mapLoop (hostName # hosts) volumeId lunNo =
     bind (fc_getHostId hostName) (\<lambda>(id, _).
     bind (fc_mapping id volumeId lunNo) (\<lambda>(lun, err).
       if err \<noteq> None then ret (0, err)
       else fc_mapLoop hosts volumeId (if lun > -1 then lun else lunNo)))"

definition fc_mapVolumeToHost :: "string list \<Rightarrow> int \<Rightarrow> (int \<times> err) prog" where
  "fc_mapVolumeToHost arrayOfHosts volumeId =
     guard None (\<lambda>e. (-1, e)) (''['' @ itoa volumeId @ '']  error while mapVolumeToHost '')
       (fc_mapLoop arrayOfHosts volumeId (-1))"

section \<open>Volumes\<close>

definition fc_getNumberOfVolumes :: "(int \<times> err) prog" where
  "fc_getNumberOfVolumes =
     bind (rest GET ''api/rest/volumes'' '''' None) (\<lambda>resGet.
     guard (reply_err resGet) (\<lambda>e. (0, e)) ''error while getting number of volumes '' (
     case resGet of
       NilResponse s \<Rightarrow> ret (0, Some (Err s))
     | Response res (Some s) \<Rightarrow> ret (0, Some (Err s))
     | Response res None \<Rightarrow>
         let response = (case decoded res of Inl _ \<Rightarrow> JNull | Inr v \<Rightarrow> v) in
         if response \<noteq> JNull then
           bind (as_obj response) (\<lambda>responseInMap.
           case ParseError (jget responseInMap ''error'') of
             (str, True) \<Rightarrow> ret (0, Some (Err str))
           | (_, False) \<Rightarrow>
               if jget responseInMap ''metadata'' \<noteq> JNull then
                 bind (as_obj (jget responseInMap ''metadata'')) (\<lambda>wholeMap.
                 bind (as_int 64 (jget wholeMap ''number_of_objects'')) (\<lambda>n. ret (n, None)))
               else bind (as_str (jget responseInMap ''metadata'')) (\<lambda>s. ret (0, Some (Err s))))
         else ret (0, Some (Err ''empty response while getting numberofvolumes ''))))"

definition fc_volCreate :: "string \<Rightarrow> string \<Rightarrow> volume_options \<Rightarrow> (int \<times> err) prog" where
  "fc_volCreate name pool options =
     (let msg = ''['' @ PVName options @ '']  error while volume create '' in
      bind (read_config ''provision_type'') (\<lambda>provtype.
      bind fc_getNumberOfVolumes (\<lambda>(noOfVolumes, _).
      bind (read_config ''max_volume'') (\<lambda>max_volume.
      let limit = fst (ParseInt max_volume 64) in
      if noOfVolumes \<ge> limit then
        ret (0, Some (Err (''Limit exceeded for volume creation '' @ itoa noOfVolumes)))
      else
        bind (GetPoolID pool) (\<lambda>(poolId, err).
        if err \<noteq> None then ret (0, err)
        else
          bind (read_config ''ssd_enabled'') (\<lambda>ssdEnabled.
          let requestBytes = pvc_storage (PVC options);
              ssd = fst (ParseBool (if ssdEnabled = '''' then show_bool True else ssdEnabled)) in
          bind (rest POST ''api/rest/volumes'' '''' (Some (JObj
            [(''pool_id'', JNum poolId 0), (''name'', JStr name), (''provtype'', JStr provtype),
             (''ssd_enabled'', JBool ssd), (''size'', JNum requestBytes 0)]))) (\<lambda>resCreate.
          checked (\<lambda>e. (0, e)) msg resCreate (\<lambda>resultpostcreate _.
            bind (as_obj resultpostcreate) (\<lambda>result.
            bind (as_int 64 (jget result ''id'')) (\<lambda>volumeId. ret (volumeId, None)))))))))))"

text \<open>The unmapping loop of \<open>volDestroy\<close>: it stops at the first error of \<open>UnMap\<close>.\<close>

fun fc_destroyUnmap :: "string list \<Rightarrow> int \<Rightarrow> err prog" where
  "fc_destroyUnmap [] volId = ret None"
| "fc_destroyUnmap (name # names) volId =
     bind (fc_getHostId name) (\<lambda>(hostid, _).
     bind (UnMap hostid volId) (\<lambda>err.
       if err \<noteq> None then ret err else fc_destroyUnmap names volId))"

definition fc_volDestroy :: "int \<Rightarrow> string \<Rightarrow> node list \<Rightarrow> err prog" where
  "fc_volDestroy volId vol nodeList =
     (let msg = ''error while volume deleting '' in
      bind (DetachMetadata volId vol) (\<lambda>err.
      if err \<noteq> None then ret err
      else
        bind (GetHostList nodeList) (\<lambda>(hostList1, _).
        bind (fc_destroyUnmap hostList1 volId) (\<lambda>err.
        if err \<noteq> None then ret err
        else
          bind (rest DELETE (''api/rest/volumes/'' @ itoa volId) ''approved=true'' None) (\<lambda>resdel.
          checked (\<lambda>e. e) msg resdel (\<lambda>resultdelvolumes _.
            if resultdelvolumes = JNull then ret (Some (Err ''Result field empty in volDestroy ''))
            else ret None))))))"

fun fc_unmapHosts :: "string list \<Rightarrow> int \<Rightarrow> unit prog" where
  "fc_unmapHosts [] volumeId = ret ()"
| "fc_unmapHosts (hostname # hosts) volumeId =
     bind (fc_getHostId hostname) (\<lambda>(hostid, _).
     seq (UnMap hostid volumeId) (fc_unmapHosts hosts volumeId))"

text \<open>\<open>createVolume\<close>, and its part after the volume exists.\<close>

definition fc_afterCreate :: "string \<Rightarrow> volume_options \<Rightarrow> string list \<Rightarrow> string \<Rightarrow> int \<Rightarrow> created prog" where
  "fc_afterCreate kubeVersion options hostList1 vol volumeId =
     (let tag = ''['' @ PVName options @ '']'' in
      bind (fc_mapVolumeToHost hostList1 volumeId) (\<lambda>(lun, err).
      if err \<noteq> None then ret (vol, lun, volumeId, err)
      else if lun = -1 then
        ret (vol, lun, volumeId, Some (Err (tag @ ''  volume not mapped to any host'')))
      else
        deferred (\<lambda>p. (vol, lun, volumeId, Some (Err (tag @ ''  error while AttachMetadata volume '' @ p))))
          (\<lambda>(_, _, vid, e). if e \<noteq> None \<and> vid \<noteq> 0 then fc_unmapHosts hostList1 vid else ret ())
          (bind (read_config ''fsType'') (\<lambda>fsType.
           bind (AttachMetadata volumeId options kubeVersion fsType) (\<lambda>err.
           if err \<noteq> None then ret (vol, lun, volumeId, err)
           else
             deferred (\<lambda>p. (vol, lun, volumeId, Some (Err (tag @ ''  error while creating volume '' @ p))))
               (\<lambda>(_, _, vid, e). if e \<noteq> None \<and> vid \<noteq> 0
                  then seq (DetachMetadata vid (PVName options)) (ret ()) else ret ())
               (ret (vol, lun, volumeId, None)))))))"

definition fc_createVolume :: "string \<Rightarrow> volume_options \<Rightarrow> node list \<Rightarrow> created prog" where
  "fc_createVolume kubeVersion options nodeList =
     (let vol = fc_getVolumeName options; tag = ''['' @ PVName options @ '']'' in
      guard None (\<lambda>e. (vol, 0, 0, e)) (tag @ '' error while creating volume '') (
      bind (read_config ''pool_name'') (\<lambda>pool.
      bind (GetHostList nodeList) (\<lambda>(hostList1, err).
      if err \<noteq> None then ret (vol, 0, 0, err)
      else
        bind (fc_volCreate vol pool options) (\<lambda>(volumeId, err).
        case err of
          Some er \<Rightarrow> ret (vol, 0, volumeId, Some (Err (vol @ '' '' @ Error er)))
        | None \<Rightarrow>
            deferred (\<lambda>p. (vol, 0, volumeId, Some (Err (tag @ ''  error while mapVolumeToHost volume '' @ p))))
              (\<lambda>(_, _, vid, e). if e \<noteq> None \<and> vid \<noteq> 0
                 then seq (fc_volDestroy vid (PVName options) nodeList) (ret ()) else ret ())
              (fc_afterCreate kubeVersion options hostList1 vol volumeId))))))"

section \<open>Provision\<close>

fun portLoop :: "json list \<Rightarrow> string list \<Rightarrow> string list prog" where
  "portLoop [] wwpns = ret wwpns"
| "portLoop (fcport # ports) wwpns =
     bind (as_obj fcport) (\<lambda>fcfields.
       portLoop ports
         (if jget fcfields ''link_state'' = JStr ''UP''
          then wwpns @ [filter (\<lambda>c. c \<noteq> CHR '':'') (sprint (jget fcfields ''wwpn''))]
          else wwpns))"

fun componentLoop :: "json list \<Rightarrow> string list \<Rightarrow> string list prog" where
  "componentLoop [] wwpns = ret wwpns"
| "componentLoop (fcPort # nodes) wwpns =
     bind (as_obj fcPort) (\<lambda>result.
     bind (as_arr (jget result ''fc_ports'')) (\<lambda>arrayofFCports.
     bind (portLoop arrayofFCports wwpns) (\<lambda>wwpns'. componentLoop nodes wwpns')))"

definition fc_wwpnList :: "(string list \<times> err) prog" where
  "fc_wwpnList =
     bind (rest GET ''api/rest/components/nodes'' ''fields=fc_ports'' None) (\<lambda>resFC.
     checked (\<lambda>e. ([], e)) ''error while getting wwpn list '' resFC (\<lambda>resssFc err.
       if err \<noteq> None then ret ([], err)
       else bind (as_arr resssFc) (\<lambda>arrayOfresult.
            bind (componentLoop arrayOfresult []) (\<lambda>wwpns. ret (wwpns, None)))))"

definition fc_annotations :: "string \<Rightarrow> int \<Rightarrow> int \<Rightarrow> strmap" where
  "fc_annotations vol volumeID lun =
     [(annCreatedBy, createdBy), (''volume_name'', vol), (''volumeId'', itoa volumeID), (''lun'', itoa lun)]"

definition fc_pv :: "volume_options \<Rightarrow> strmap \<Rightarrow> fc_source \<Rightarrow> pv" where
  "fc_pv options annotations src =
     \<lparr>pv_name = PVName options, pv_namespace = '''', pv_uid = '''', pv_annotations = Some annotations,
      pv_reclaimPolicy = vo_reclaimPolicy options, pv_accessModes = pvc_accessModes (PVC options),
      pv_capacity = pvc_storage (PVC options), pv_storageClassName = '''', pv_claimRef = None,
      pv_phase = '''', pv_fc = Some src, pv_iscsi = None, pv_nfs = None\<rparr>"

definition fc_Provision :: "string \<Rightarrow> volume_options \<Rightarrow> node list \<Rightarrow> (pv option \<times> err) prog" where
  "fc_Provision kubeVersion options nodeList =
     guard None (\<lambda>e. (None, e)) ('' ['' @ PVName options @ '']  error while provision volume '') (
     if \<not> AccessModesContainedInAll fc_getAccessModes (pvc_accessModes (PVC options)) then
       ret (None, Some (Err (''invalid AccessModes '' @ show_modes (pvc_accessModes (PVC options)) @
         '': only AccessModes '' @ show_modes fc_getAccessModes @ '' are supported'')))
     else
       seq (merge_config (Parameters options))
      (bind fc_wwpnList (\<lambda>(wwpnlist, err).
       if err \<noteq> None then ret (None, err)
       else
         bind (fc_createVolume kubeVersion options nodeList) (\<lambda>(vol, lun, volumeID, err).
         if err \<noteq> None then ret (None, err)
         else
           bind (read_config ''readonly'') (\<lambda>readonly.
           bind (read_config ''fsType'') (\<lambda>fsType.
           ret (Some (fc_pv options (fc_annotations vol volumeID lun)
             \<lparr>fc_targetWWNs = wwpnlist, fc_lun = lun, fc_readOnly = fc_getReadOnly readonly,
              fc_fsType = fsType\<rparr>), None)))))))"

section \<open>Delete\<close>

definition fc_provisioned :: "pv \<Rightarrow> bool \<times> err" where
  "fc_provisioned volume =
     (case mget (annotations_of (pv_annotations volume)) annCreatedBy of
        None \<Rightarrow> (False, Some (Err (''PV doesn't have an annotation '' @ annCreatedBy)))
      | Some provisionerID \<Rightarrow> (provisionerID = createdBy, None))"

definition fc_Delete :: "pv \<Rightarrow> node list \<Rightarrow> err prog" where
  "fc_Delete volume nodeList =
     guard None (\<lambda>e. e) ''error while deleting volume '' (
     case fc_provisioned volume of
       (_, Some er) \<Rightarrow> ret (Some (Err (''error determining if this provisioner was the one to provision volume '' @
           quote_string (pv_name volume) @ '': '' @ Error er)))
     | (provisioned, None) \<Rightarrow>
         if \<not> provisioned then ret (Some (IgnoredError (not_ours_text volume)))
         else
           let ann = annotations_of (pv_annotations volume); idStr = mstr ann ''volumeId'' in
           if idStr = '''' then ret (Some (Err ''volumeid is empty''))
           else
             (case ParseInt idStr 64 of
                (_, Some pe) \<Rightarrow> ret (Some (Err (parse_error_text ''ParseInt'' idStr pe)))
              | (volId, None) \<Rightarrow> fc_volDestroy volId (mstr ann ''volume_name'') nodeList))"

section \<open>UpdateMapping\<close>

fun fc_mapExisting :: "int \<Rightarrow> int \<Rightarrow> string list \<Rightarrow> unit prog" where
  "fc_mapExisting volID lunNumber [] = ret ()"
| "fc_mapExisting volID lunNumber (hostName # hosts) =
     bind (fc_getHostId hostName) (\<lambda>(hostID, _).
     bind (rest POST (''api/rest/hosts/'' @ itoa hostID @ ''/luns'') ''approved=true''
       (Some (JObj [(''volume_id'', JNum volID 0), (''lun'', JNum lunNumber 0)]))) (\<lambda>restPost.
     bind (lift (CheckResponse restPost)) (\<lambda>_.
       fc_mapExisting volID lunNumber hosts)))"

fun fc_mapPVs :: "pv list \<Rightarrow> string list \<Rightarrow> unit prog" where
  "fc_mapPVs [] hostList = ret ()"
| "fc_mapPVs (p # pvs) hostList =
     (let ann = annotations_of (pv_annotations p); volumeid = mstr ann ''volumeId'' in
      if pv_fc p \<noteq> None \<and> volumeid \<noteq> '''' then
        seq (fc_mapExisting (fst (ParseInt volumeid 64)) (fst (ParseInt (mstr ann ''lun'') 32)) hostList)
            (fc_mapPVs pvs hostList)
      else fc_mapPVs pvs hostList)"

fun fc_unmapPVs :: "pv list \<Rightarrow> int \<Rightarrow> unit prog" where
  "fc_unmapPVs [] hostID = ret ()"
| "fc_unmapPVs (p # pvs) hostID =
     (let volumeid = mstr (annotations_of (pv_annotations p)) ''volumeId'' in
      if pv_fc p \<noteq> None \<and> volumeid \<noteq> '''' then
        seq (UnMap hostID (fst (ParseInt volumeid 64))) (fc_unmapPVs pvs hostID)
      else fc_unmapPVs pvs hostID)"

fun fc_unmapNodes :: "node list \<Rightarrow> pv list \<Rightarrow> unit prog" where
  "fc_unmapNodes [] pvList = ret ()"
| "fc_unmapNodes (n # nodes) pvList =
     bind (fc_getHostId (node_name n)) (\<lambda>(hostID, _).
     seq (fc_unmapPVs pvList hostID) (fc_unmapNodes nodes pvList))"

definition fc_UpdateMapping :: "pv list \<Rightarrow> node list \<Rightarrow> bool \<Rightarrow> bool \<Rightarrow> node list \<Rightarrow> err prog" where
  "fc_UpdateMapping pvList nodeList nodeAddedFlag nodeDeletedFlag deletedNodes =
     bind (GetHostList nodeList) (\<lambda>(hostList, err).
     if err \<noteq> None then ret err
     else
       seq (fc_mapPVs pvList hostList)
      (seq (if nodeDeletedFlag then fc_unmapNodes deletedNodes pvList else ret ())
      (ret None)))"

section \<open>What the functions ask for, and that they return\<close>

lemma issues_fc_getHostId [issues_intro]: "issues (is_rest M) (fc_getHostId n)"
  unfolding fc_getHostId_def by (intro issues_intro) auto

lemma issues_fc_mapping [issues_intro]: "POST \<in> M \<Longrightarrow> issues (is_rest M) (fc_mapping h v l)"
  unfolding fc_mapping_def Let_def by (intro issues_intro) auto

lemma issues_fc_mapLoop [issues_intro]: "POST \<in> M \<Longrightarrow> issues (is_rest M) (fc_mapLoop hs v l)"
proof (induction hs arbitrary: l)
  case (Cons h hs)
  then show ?case unfolding fc_mapLoop.simps by (intro issues_intro Cons.IH)
qed (simp only: fc_mapLoop.simps issues_ret)

lemma issues_fc_mapVolumeToHost [issues_intro]: "POST \<in> M \<Longrightarrow> issues (is_rest M) (fc_mapVolumeToHost hs v)"
  unfolding fc_mapVolumeToHost_def by (intro issues_intro)

lemma issues_fc_getNumberOfVolumes [issues_intro]: "issues (is_rest M) fc_getNumberOfVolumes"
  unfolding fc_getNumberOfVolumes_def Let_def by (intro issues_intro) auto

lemma issues_fc_volCreate [issues_intro]: "POST \<in> M \<Longrightarrow> issues (is_rest M) (fc_volCreate n p opt)"
  unfolding fc_volCreate_def Let_def by (intro issues_intro) auto

lemma issues_fc_destroyUnmap [issues_intro]: "DELETE \<in> M \<Longrightarrow> issues (is_rest M) (fc_destroyUnmap hs v)"
proof (induction hs)
  case (Cons h hs)
  then show ?case unfolding fc_destroyUnmap.simps by (intro issues_intro Cons.IH)
qed (simp only: fc_destroyUnmap.simps issues_ret)

lemma issues_fc_volDestroy [issues_intro]: "DELETE \<in> M \<Longrightarrow> issues (is_rest M) (fc_volDestroy v n ns)"
  unfolding fc_volDestroy_def Let_def by (intro issues_intro) auto

lemma issues_fc_unmapHosts [issues_intro]: "DELETE \<in> M \<Longrightarrow> issues (is_rest M) (fc_unmapHosts hs v)"
proof (induction hs)
  case (Cons h hs)
  then show ?case unfolding fc_unmapHosts.simps by (intro issues_intro Cons.IH)
qed (simp only: fc_unmapHosts.simps issues_ret)

lemma issues_fc_afterCreate [issues_intro]:
  "{POST, PUT, DELETE} \<subseteq> M \<Longrightarrow> issues (is_rest M) (fc_afterCreate kv opt hs vol v)"
  unfolding fc_afterCreate_def Let_def by (intro issues_intro) auto

lemma issues_fc_createVolume [issues_intro]:
  "{POST, PUT, DELETE} \<subseteq> M \<Longrightarrow> issues (is_rest M) (fc_createVolume kv opt ns)"
  unfolding fc_createVolume_def Let_def by (intro issues_intro) auto

lemma issues_portLoop [issues_intro]: "issues P (portLoop ps ws)"
  by (induction ps ws rule: portLoop.induct) (auto simp only: portLoop.simps intro!: issues_intro)

lemma issues_componentLoop [issues_intro]: "issues P (componentLoop cs ws)"
  by (induction cs ws rule: componentLoop.induct) (auto simp only: componentLoop.simps intro!: issues_intro)

lemma issues_fc_wwpnList [issues_intro]: "issues (is_rest M) fc_wwpnList"
  unfolding fc_wwpnList_def by (intro issues_intro) auto

lemma issues_fc_Provision [issues_intro]:
  "{POST, PUT, DELETE} \<subseteq> M \<Longrightarrow> issues (is_rest M) (fc_Provision kv opt ns)"
  unfolding fc_Provision_def Let_def by (intro issues_intro) auto

lemma issues_fc_Delete [issues_intro]: "DELETE \<in> M \<Longrightarrow> issues (is_rest M) (fc_Delete p ns)"
  unfolding fc_Delete_def Let_def by (intro issues_intro)

lemma fc_basic_returns [returns_intro]:
  "returns (fc_getHostId n)" "returns (fc_mapping h v l)" "returns (fc_mapVolumeToHost hs v)"
  "returns fc_getNumberOfVolumes" "returns fc_wwpnList" "returns (fc_createVolume kv opt ns)"
  "returns (fc_Provision kv opt ns)" "returns (fc_Delete p ns)" "returns (fc_volCreate n pool opt)"
  unfolding fc_getHostId_def fc_mapping_def fc_mapVolumeToHost_def fc_getNumberOfVolumes_def
    fc_wwpnList_def fc_createVolume_def fc_Provision_def fc_Delete_def fc_volCreate_def Let_def
  by (intro returns_intro)+

lemma fc_destroyUnmap_returns [returns_intro]: "returns (fc_destroyUnmap hs v)"
proof (induction hs)
  case (Cons h hs)
  show ?case unfolding fc_destroyUnmap.simps by (intro returns_intro Cons.IH)
qed (simp only: fc_destroyUnmap.simps returns_intro)

lemma fc_volDestroy_returns [returns_intro]: "returns (fc_volDestroy v n ns)"
  unfolding fc_volDestroy_def Let_def by (intro returns_intro)

lemma fc_unmapHosts_returns [returns_intro]: "returns (fc_unmapHosts hs v)"
proof (induction hs)
  case (Cons h hs)
  show ?case unfolding fc_unmapHosts.simps by (intro returns_intro Cons.IH)
qed (simp only: fc_unmapHosts.simps returns_intro)

section \<open>Destroying a volume\<close>

text \<open>How \<open>volDestroy\<close> ends: at the metadata, at a mapping, or with the request for the deletion.\<close>

lemma fc_volDestroy_cases:
  assumes "fc_volDestroy v n ns e w = (Done res, w')"
  obtains (detach) x where "DetachMetadata v n e w = (Done (Some x), w')" "res = Some x"
  | (unmap) x w1 where "DetachMetadata v n e w = (Done None, w1)" "did (is_rest {DELETE}) w1 w'" "res = Some x"
  | (delete) w1 w2 where "DetachMetadata v n e w = (Done None, w1)" "did (is_rest {DELETE}) w1 w2"
      "did (is_rest {DELETE}) w2 w'" "ended DELETE (''api/rest/volumes/'' @ itoa v) w2 w'"
      "res = None \<longrightarrow> ended_ok e DELETE (''api/rest/volumes/'' @ itoa v) w2 w'"
proof -
  obtain d w1 where M: "DetachMetadata v n e w = (Done d, w1)" using returnsD [OF commons_return(2)] by blast
  obtain hs er w2 where G: "GetHostList ns e w1 = (Done (hs, er), w2)" using returnsD [OF commons_return(6)] by fastforce
  obtain u w3 where U: "fc_destroyUnmap hs v e w2 = (Done u, w3)" using returnsD [OF fc_destroyUnmap_returns] by blast
  have d: "did (is_rest {DELETE}) w1 w3"
    using issues_did [OF issues_GetHostList G] by (rule did_trans) (rule issues_did [OF issues_fc_destroyUnmap U], simp)
  note run = assms [unfolded fc_volDestroy_def Let_def]
  show thesis
  proof (cases d; cases u)
    fix x assume "d = Some x"
    then show thesis using run M by (intro detach [of x]) simp_all
  next
    fix x assume "d = Some x"
    then show thesis using run M by (intro detach [of x]) simp_all
  next
    fix x assume "d = None" "u = Some x"
    then show thesis using run M G U d by (intro unmap [of w1 x]) simp_all
  next
    assume none: "d = None" "u = None"
    have "bind (rest DELETE (''api/rest/volumes/'' @ itoa v) ''approved=true'' None) (\<lambda>resp.
        checked (\<lambda>e. e) ''error while volume deleting '' resp (\<lambda>x _.
        if x = JNull then ret (Some (Err ''Result field empty in volDestroy '')) else ret None)) e w3 = (Done res, w')"
      using run by (simp only: exec M [unfolded none] G U [unfolded none])
    note D = volume_deleted [OF this]
    show thesis by (rule delete [OF _ d D(2,1)]) (use M none D(3) in auto)
  qed
qed

section \<open>Creating a volume and undoing it\<close>

lemma fc_made:
  assumes "fc_getNumberOfVolumes e w = (Done x, w0)" "GetPoolID p e w0 = (Done y, w1)"
    "rest POST url q b e w1 = (Done r, w2)" "accepted r (JObj kvs)" "jget kvs ''id'' = JNum m k" "float_int 64 m k = i"
  shows "made e w w2 url i"
proof -
  have "prefix (history w) (history w1)"
    using issues_grows [OF issues_fc_getNumberOfVolumes [of "{}"] assms(1)]
      issues_grows [OF issues_GetPoolID [of "{}"] assms(2)] by (rule prefix_order.trans)
  then show ?thesis using made_by_post [OF assms(3-6)] made_earlier by blast
qed

lemma fc_volCreate_Done:
  assumes "fc_volCreate n p opt e w = (Done (i, er), w')"
  shows "(er \<noteq> None \<longrightarrow> i = 0) \<and> (er = None \<longrightarrow> made e w w' ''api/rest/volumes'' i)"
  using assms
  by (auto simp: fc_volCreate_def Let_def bind_eq_Done split: if_splits prod.splits
        dest!: checked_id intro: fc_made)

lemma fc_afterCreate_Done:
  assumes "on_panic (\<lambda>p. ret (vol, 0, vid, Some (Err (f p)))) (fc_afterCreate kv opt hs vol vid) e w =
      (Done (vol', lun, vid', er), w')"
  shows "vol' = vol \<and> vid' = vid \<and> (er = None \<longrightarrow> lun \<noteq> -1 \<and>
     (\<exists>w1 fs. fc_mapVolumeToHost hs vid e w = (Done (lun, None), w1) \<and> AttachMetadata vid opt kv fs e w1 = (Done None, w')))"
  using assms
  by (fastforce simp: fc_afterCreate_def Let_def bind_eq_Done deferred_eq_Done on_panic_eq_Done
    split: if_splits prod.splits)

lemma fc_afterCreate_history:
  assumes "on_panic (\<lambda>p. ret (vol, 0, vid, Some (Err (f p)))) (fc_afterCreate kv opt hs vol vid) e w =
      (Done (vol', lun, vid', None), w')"
  shows "did (is_rest {POST, PUT}) w w' \<and> ended PUT (''api/rest/metadata/'' @ itoa vid) w w'"
proof -
  obtain w1 fs where M: "fc_mapVolumeToHost hs vid e w = (Done (lun, None), w1)"
      "AttachMetadata vid opt kv fs e w1 = (Done None, w')"
    using fc_afterCreate_Done [OF assms] by blast
  have "did (is_rest {POST, PUT}) w w1" by (rule issues_did [OF issues_fc_mapVolumeToHost M(1)]) simp
  moreover have "did (is_rest {POST, PUT}) w1 w'" by (rule issues_did [OF issues_AttachMetadata M(2)]) simp
  ultimately show ?thesis using AttachMetadata_asks [OF M(2)] by (blast intro: did_trans ended_later)
qed

lemma fc_undo:
  assumes "deferred results (\<lambda>(_, _, vid, e). if e \<noteq> None \<and> vid \<noteq> 0
        then seq (fc_volDestroy vid n ns) (ret ()) else ret ()) m e w = (Done (vol, lun, vid, er), w')"
  shows "\<exists>w1. on_panic (\<lambda>p. ret (results p)) m e w = (Done (vol, lun, vid, er), w1) \<and>
     (er = None \<or> vid = 0 \<longrightarrow> w' = w1) \<and>
     (er \<noteq> None \<and> vid \<noteq> 0 \<longrightarrow> (\<exists>r. fc_volDestroy vid n ns e w1 = (Done r, w')))"
  using assms by (fastforce simp: deferred_eq_Done bind_eq_Done split: if_splits)

lemma fc_createVolume_cases:
  assumes "fc_createVolume kv opt ns e w = (Done (vol, lun, vid, er), w')"
  obtains (nothing) "vid = 0" "er \<noteq> None" "vol = PVName opt" "did (is_rest {POST}) w w'"
  | (undone) w1 r where "er \<noteq> None" "vol = PVName opt" "made e w w1 ''api/rest/volumes'' vid" "did (\<lambda>_. True) w w1"
      "if vid = 0 then w' = w1 else fc_volDestroy vid (PVName opt) ns e w1 = (Done r, w')"
  | (created) "er = None" "vol = PVName opt" "made e w w' ''api/rest/volumes'' vid"
      "did (is_rest {POST, PUT}) w w'" "ended PUT (''api/rest/metadata/'' @ itoa vid) w w'"
proof -
  show thesis
  proof (rule host_volume_cases [OF assms [unfolded fc_createVolume_def Let_def fc_getVolumeName_def]
      fc_basic_returns(9) issues_fc_volCreate fc_volCreate_Done], goal_cases)
    case (6 hs i w1)
    from fc_undo [OF 6(3)] obtain f w2 where U: "on_panic (\<lambda>p. ret (PVName opt, 0, i, Some (Err (f p))))
          (fc_afterCreate kv opt hs (PVName opt) i) e w1 = (Done (vol, lun, vid, er), w2)"
        "er = None \<or> vid = 0 \<longrightarrow> w' = w2"
        "er \<noteq> None \<and> vid \<noteq> 0 \<longrightarrow> (\<exists>r. fc_volDestroy vid (PVName opt) ns e w2 = (Done r, w'))"
      by (elim exE conjE) (rule that)
    have eq: "vol = PVName opt" "vid = i" using fc_afterCreate_Done [OF U(1)] by auto
    have d: "did (is_rest {POST, PUT, DELETE}) w1 w2"
      by (rule issues_did [OF issues_on_panic [OF issues_fc_afterCreate [OF order_refl] issues_ret] U(1)])
    show ?case
    proof (cases er)
      case None
      have h: "did (is_rest {POST, PUT}) w1 w'" "ended PUT (''api/rest/metadata/'' @ itoa vid) w1 w'"
        using fc_afterCreate_history [OF U(1) [folded eq(2), unfolded None]] U(2) None by auto
      have p: "did (is_rest {POST, PUT}) w w1" by (rule did_rest_mono [OF 6(1)]) auto
      show ?thesis
        by (rule that(3) [OF None eq(1) made_mono [OF 6(2) [folded eq(2)] did_prefix [OF h(1)]] did_trans [OF p h(1)] ended_later [OF p h(2)]])
    next
      case (Some x)
      have d': "did (\<lambda>_. True) w w2" by (rule did_trans [OF did_mono [OF 6(1) TrueI] did_mono [OF d TrueI]])
      obtain r where "if vid = 0 then w' = w2 else fc_volDestroy vid (PVName opt) ns e w2 = (Done r, w')"
        using U(2,3) Some by (cases "vid = 0") auto
      then show ?thesis using Some by (intro that(2) [OF _ eq(1) made_mono [OF 6(2) [folded eq(2)] did_prefix [OF d]] d']) auto
    qed
  qed (intro returns_intro | force intro: that(1))+
qed


section \<open>The outcomes of Provision\<close>

lemma fc_Provision_cases:
  assumes "fc_Provision kv opt ns e w = (Done (p, er), w')"
  obtains (refused) "p = None" "er \<noteq> None" "did (is_rest {}) w w'"
  | (failed) w1 vol lun vid x where "p = None" "er = Some x" "did (is_rest {}) w w1"
      "fc_createVolume kv opt ns e w1 = (Done (vol, lun, vid, Some x), w')"
  | (provisioned) w1 vol lun vid src where "er = None" "did (is_rest {}) w w1"
      "fc_createVolume kv opt ns e w1 = (Done (vol, lun, vid, None), w')"
      "p = Some (fc_pv opt (fc_annotations vol vid lun) src)" "fc_lun src = lun"
proof (cases "AccessModesContainedInAll fc_getAccessModes (pvc_accessModes (PVC opt))")
  case False
  then show thesis using assms by (intro refused) (auto simp: fc_Provision_def)
next
  case True
  from assms [unfolded fc_Provision_def eqTrueI [OF True] not_True_eq_False if_False] show thesis
  proof (cases rule: guard_bind)
    case (panicked s)
    then show thesis using refused did_mono [OF issues_did [OF issues_merge_config]] by blast
  next
    case merged: (went_on u w0)
    have d0: "did (is_rest {}) w w0" by (rule issues_did [OF issues_merge_config merged(1)])
    show thesis
    proof (rule guard_bind_returns [OF merged(2) fc_basic_returns(5)], goal_cases)
      case found: (1 x w1)
      obtain wwpns er1 where x: "x = (wwpns, er1)" by (cases x)
      have d: "did (is_rest {}) w w1" by (rule did_trans [OF d0 issues_did [OF issues_fc_wwpnList found(1)]])
      show thesis
      proof (cases er1)
        case (Some y)
        then show thesis using found(2) d by (intro refused) (auto simp: x)
      next
        case None
        show thesis
        proof (rule guard_bind_returns [OF found(2) [unfolded x prod.case None not_True_eq_False simp_thms if_False] fc_basic_returns(6)], goal_cases)
          case made: (1 y w2)
          then show thesis using failed [OF _ _ d] provisioned [OF _ d] by (cases y; cases "snd (snd (snd y))") auto
        qed
      qed
    qed
  qed
qed

lemma fc_pv_own:
  "fc_provisioned (fc_pv opt (fc_annotations vol vid lun) src) = (True, None)"
  "mstr (annotations_of (pv_annotations (fc_pv opt (fc_annotations vol vid lun) src))) ''volumeId'' = itoa vid"
  by (simp_all add: fc_provisioned_def fc_pv_def fc_annotations_def mstr_def annCreatedBy_def)

lemma fc_own_Delete:
  assumes "fc_provisioned p = (True, None)" "mstr (annotations_of (pv_annotations p)) ''volumeId'' = itoa vid" "fits 64 vid"
  shows "fc_Delete p ns e w = fc_volDestroy vid (mstr (annotations_of (pv_annotations p)) ''volume_name'') ns e w"
proof -
  have P: "ParseInt (itoa vid) 64 = (vid, None)" using assms(3) by (simp add: ParseInt_itoa)
  obtain r w' where V: "fc_volDestroy vid (mstr (annotations_of (pv_annotations p)) ''volume_name'') ns e w = (Done r, w')"
    using returnsD [OF fc_volDestroy_returns] by blast
  have "fc_Delete p ns e w = (Done r, w')"
    unfolding fc_Delete_def Let_def assms
    by (rule guard_Done) (simp only: exec P itoa_nonempty V)
  then show ?thesis using V by simp
qed


section \<open>A run against the sample InfiniBox\<close>

lemma demo_fc_wwpns:
  assumes "demo_ready w"
  shows "\<exists>w'. fc_wwpnList demo_env w = (Done ([''5742''], None), w') \<and> demo_ready w'"
  using assms by (simp add: demo_ready_def demo_simps fc_wwpnList_def)

lemma demo_fc_create:
  assumes "demo_ready w"
  shows "\<exists>w'. fc_createVolume ''1.9'' sample_options [demo_node] demo_env w = (Done (''k8s-u-1'', 11, 42, None), w')"
  using assms
  by (simp add: demo_ready_def demo_simps fc_createVolume_def fc_getVolumeName_def fc_volCreate_def fc_getNumberOfVolumes_def
    fc_mapVolumeToHost_def fc_getHostId_def fc_mapping_def fc_afterCreate_def)

lemma demo_fc_Provision:
  "\<exists>p w'. fc_Provision ''1.9'' sample_options [demo_node] demo_env demo_world = (Done (Some p, None), w')"
proof -
  have m: "Parameters sample_options = []" "set (pvc_accessModes (PVC sample_options)) \<subseteq> set fc_getAccessModes"
    by (simp_all add: sample_options_def sample_pvc_def fc_getAccessModes_def)
  obtain w3 where I: "fc_wwpnList demo_env demo_world = (Done ([''5742''], None), w3)" "demo_ready w3"
    using demo_fc_wwpns [OF demo_ready_world] by blast
  obtain w4 where C: "fc_createVolume ''1.9'' sample_options [demo_node] demo_env w3 = (Done (''k8s-u-1'', 11, 42, None), w4)"
    using demo_fc_create [OF I(2)] by blast
  show ?thesis by (simp add: fc_Provision_def m I(1) C)
qed


section \<open>UpdateMapping and the contract\<close>

lemma issues_fc_mapExisting [issues_intro]: "POST \<in> M \<Longrightarrow> issues (is_rest M) (fc_mapExisting v l hs)"
proof (induction hs)
  case (Cons h hs)
  then show ?case unfolding fc_mapExisting.simps by (intro issues_intro Cons.IH) auto
qed (simp only: fc_mapExisting.simps issues_ret)

lemma issues_fc_mapPVs [issues_intro]: "POST \<in> M \<Longrightarrow> issues (is_rest M) (fc_mapPVs pvs hs)"
proof (induction pvs)
  case (Cons p pvs)
  then show ?case unfolding fc_mapPVs.simps Let_def by (intro issues_intro Cons.IH)
qed (simp only: fc_mapPVs.simps issues_ret)

lemma issues_fc_unmapPVs [issues_intro]: "DELETE \<in> M \<Longrightarrow> issues (is_rest M) (fc_unmapPVs pvs h)"
proof (induction pvs)
  case (Cons p pvs)
  then show ?case unfolding fc_unmapPVs.simps Let_def by (intro issues_intro Cons.IH)
qed (simp only: fc_unmapPVs.simps issues_ret)

lemma issues_fc_unmapNodes [issues_intro]: "DELETE \<in> M \<Longrightarrow> issues (is_rest M) (fc_unmapNodes ns pvs)"
proof (induction ns)
  case (Cons n ns)
  then show ?case unfolding fc_unmapNodes.simps Let_def by (intro issues_intro Cons.IH)
qed (simp only: fc_unmapNodes.simps issues_ret)

lemma issues_fc_UpdateMapping:
  "POST \<in> M \<Longrightarrow> (deleted \<Longrightarrow> DELETE \<in> M) \<Longrightarrow> issues (is_rest M) (fc_UpdateMapping pvs ns added deleted nodes)"
  unfolding fc_UpdateMapping_def by (intro issues_intro) auto

text \<open>\<open>NewFCProvisioner\<close>\<close>

definition fc_provisioner :: "string \<Rightarrow> provisioner" where
  "fc_provisioner kubeVer =
     \<lparr>Provision = fc_Provision kubeVer, DeleteVolume = fc_Delete, UpdateMapping = fc_UpdateMapping\<rparr>"

lemma fc_Delete_foreign: "\<not> own q \<Longrightarrow> \<exists>x. fc_Delete q ns = ret (Some x)"
  by (cases "mget (annotations_of (pv_annotations q)) annCreatedBy")
    (auto simp: own_def fc_Delete_def fc_provisioned_def)

lemma fc_Provision_volume:
  assumes "fc_Provision kv opt ns e w = (Done (p, er), w')"
  shows "(p = None) = (er \<noteq> None) \<and> (\<forall>q. p = Some q \<longrightarrow> own q \<and> pv_name q = PVName opt \<and>
      pv_reclaimPolicy q = vo_reclaimPolicy opt \<and>
      pv_accessModes q = pvc_accessModes (PVC opt) \<and> pv_capacity q = pvc_storage (PVC opt) \<and> pv_claimRef q = None)"
  by (cases rule: fc_Provision_cases [OF assms])
    (auto simp: own_def fc_pv_def fc_annotations_def)

interpretation fc: provisioner_contract "fc_provisioner kubeVer" for kubeVer
proof
  fix opt ns e w
  show "\<exists>p er w'. Provision (fc_provisioner kubeVer) opt ns e w = (Done (p, er), w')"
    using returnsD [OF fc_basic_returns(7)] by (fastforce simp: fc_provisioner_def)
next
  fix q ns assume "\<not> own q"
  then show "\<exists>x. DeleteVolume (fc_provisioner kubeVer) q ns = ret (Some x)"
    by (simp add: fc_provisioner_def fc_Delete_foreign)
qed (use fc_Provision_volume in \<open>force simp: fc_provisioner_def intro: issues_intro returns_intro issues_fc_UpdateMapping\<close>)+

end
