(* ===== verification/Program.thy ===== *)
theory Program
  imports Operations Leadership NFSVolumes FC ISCSI "HOL-Library.Multiset"
begin

text \<open>
  \<open>main.go\<close>: the flags, the registry of the provisioners and the start of the controller; and
  what then holds of the whole program, which composes the controller with the three
  provisioners through the contract of \<open>Provisioner\<close>.
\<close>

section \<open>main\<close>

record flags =
  master :: string
  kubeconfig :: string
  serverHostname :: string

text \<open>What \<open>main\<close> asks of the client libraries: each answers a value or an error text.\<close>

record ('c, 'k) services =
  buildConfig :: "bool \<Rightarrow> string + 'c"
  newForConfig :: "'c \<Rightarrow> string + 'k"
  gitVersion :: "'k \<Rightarrow> string + string"
  parseSemantic :: "string \<Rightarrow> string + version"

definition exportDir :: string where "exportDir = ''/export''"
definition provisionerName :: string where "provisionerName = ''infinidat.com''"

definition supportedProvisioners :: "string \<Rightarrow> (string, provisioner) gomap" where
  "supportedProvisioners kubeVer =
     (let nfsProvisioner = nfs_provisioner exportDir kubeVer;
          iscsiProvisioner = iscsi_provisioner kubeVer;
          fcProvisioner = fc_provisioner kubeVer in
      mput (provisionerName @ ''/fc'') fcProvisioner
        (mput (provisionerName @ ''/iscsi'') iscsiProvisioner
          (mput (provisionerName @ ''/nfs'') nfsProvisioner
            (mput provisionerName nfsProvisioner []))))"

text \<open>
  \<open>main\<close>, up to the running controller: \<open>Inl\<close> is the text of a \<open>glog.Fatalf\<close>, which ends the
  program.
\<close>

definition main_program :: "flags \<Rightarrow> ('c, 'k) services \<Rightarrow> uid \<Rightarrow> string + controller outcome" where
  "main_program fl sv uuid =
     (let outOfCluster = master fl \<noteq> [] \<or> kubeconfig fl \<noteq> [] in
      if \<not> outOfCluster \<and> serverHostname fl \<noteq> [] then
        Inl ''Invalid flags specified: if server-hostname is set, either master or kube-config must also be set.''
      else case buildConfig sv outOfCluster of
        Inl err \<Rightarrow> Inl (''Failed to create config: '' @ err)
      | Inr config \<Rightarrow>
      (case newForConfig sv config of
        Inl err \<Rightarrow> Inl (''Failed to create client: '' @ err)
      | Inr clientset \<Rightarrow>
      (case gitVersion sv clientset of
        Inl err \<Rightarrow> Inl (''Error getting server version: '' @ err)
      | Inr serverVersion \<Rightarrow>
          Inr (case NewProvisionController uuid (supportedProvisioners serverVersion) (parseSemantic sv serverVersion) [] of
                 Panic s \<Rightarrow> Panic s
               | Done pc \<Rightarrow> Done (run_controller pc)))))"

definition boot :: "controller \<Rightarrow> world \<Rightarrow> int \<Rightarrow> system" where
  "boot ctrl w t = \<lparr>controller_of = ctrl, world_of = w, now_of = t, running = []\<rparr>"

section \<open>The registry\<close>

lemma supportedProvisioners_eq:
  "supportedProvisioners v = [(''infinidat.com'', nfs_provisioner exportDir v), (''infinidat.com/nfs'', nfs_provisioner exportDir v),
     (''infinidat.com/iscsi'', iscsi_provisioner v), (''infinidat.com/fc'', fc_provisioner v)]"
  by (simp add: supportedProvisioners_def provisionerName_def mput_def Let_def)

lemma supported_cases: "mget (supportedProvisioners v) n = Some p \<Longrightarrow>
    p \<in> {nfs_provisioner exportDir v, iscsi_provisioner v, fc_provisioner v}"
  by (auto simp: supportedProvisioners_eq split: if_splits)

lemma supported_contract: "mget (supportedProvisioners v) n = Some p \<Longrightarrow> provisioner_contract p"
  using supported_cases nfs.provisioner_contract_axioms iscsi.provisioner_contract_axioms fc.provisioner_contract_axioms
  by fastforce

interpretation supported: registry "supportedProvisioners kubeVer" for kubeVer
  by (rule registry.intro) (rule supported_contract)

text \<open>The state that \<open>main\<close> starts from, and what stays of it.\<close>

lemma main_starts:
  assumes "main_program fl sv u = Inr (Done ctrl)"
  obtains v where "proviserners ctrl = supportedProvisioners v" "createProvisionedPVRetryCount ctrl = 5"
      "failedDeleteThreshold ctrl = 15" "election_possible ctrl" "controller_reachable e (boot ctrl w t)"
proof -
  obtain sver pc where pc: "NewProvisionController u (supportedProvisioners sver) (parseSemantic sv sver) [] = Done pc"
      "ctrl = run_controller pc"
    using assms by (auto simp: main_program_def Let_def split: if_splits sum.splits outcome.splits)
  obtain ver where ver: "parseSemantic sv sver = Inr ver" using pc(1) by (auto simp: NewProvisionController_def split: sum.splits)
  have "controller_reachable e (boot ctrl w t)"
    unfolding boot_def pc(2) by (rule controller_reachable.init [OF pc(1) [unfolded ver]]) simp
  moreover have "proviserners ctrl = supportedProvisioners sver \<and> createProvisionedPVRetryCount ctrl = 5 \<and>
      failedDeleteThreshold ctrl = 15 \<and> election_possible ctrl"
    using pc ver by (auto simp: NewProvisionController_def run_controller_def election_possible_def jittered_def quot_def
        DefaultLeaseDuration_def DefaultRenewDeadline_def DefaultRetryPeriod_def DefaultCreateProvisionedPVRetryCount_def
        DefaultFailedDeleteThreshold_def second_def)
  ultimately show thesis using that by blast
qed

text \<open>A state of the program: one that the controller which \<open>main\<close> starts has reached.\<close>

definition program_state :: "env \<Rightarrow> system \<Rightarrow> bool" where
  "program_state e s \<longleftrightarrow> (\<exists>sv :: (string, string) services. \<exists>fl u ctrl w t.
     main_program fl sv u = Inr (Done ctrl) \<and> rtranclp (controller_step e) (boot ctrl w t) s)"

lemma program_stateE:
  assumes "program_state e s"
  obtains v where "proviserners (controller_of s) = supportedProvisioners v" "createProvisionedPVRetryCount (controller_of s) = 5"
      "failedDeleteThreshold (controller_of s) = 15" "election_possible (controller_of s)" "controller_reachable e s"
proof -
  obtain fl and sv :: "(string, string) services" and u ctrl w t where
    m: "main_program fl sv u = Inr (Done ctrl)" "rtranclp (controller_step e) (boot ctrl w t) s"
    using assms unfolding program_state_def by blast
  obtain v where v: "proviserners ctrl = supportedProvisioners v" "createProvisionedPVRetryCount ctrl = 5"
      "failedDeleteThreshold ctrl = 15" "election_possible ctrl" "controller_reachable e (boot ctrl w t)"
    using main_starts [OF m(1)] by blast
  have "controller_reachable e s" using m(2) v(5)
    by (induction rule: rtranclp_induct) (auto intro: controller_reachable.step)
  moreover have S: "setup_of (controller_of s) = setup_of ctrl" using steps_setup [OF m(2)] by (simp add: boot_def)
  moreover have "election_possible (controller_of s)" using setup_election [OF S] v(4) by simp
  ultimately show thesis using that v by (simp add: setup_of_def)
qed

section \<open>Claims and volumes\<close>

text \<open>
  C1. No volume is lost: in every state of the program, an operation that provisions a claim
  either sends no request to InfiniBox; or calls Provision once, of a registered provisioner and
  with the name made of the claim's uid, which fails (and its error is the operation's, unless it
  is to be ignored); or Provision makes a volume, and that is settled: its object is created, or
  the volume is deleted again, or the warning that it must be deleted by hand is recorded.
\<close>

theorem claim_outcome:
  assumes "program_state e s" "provisionClaimOperation (controller_of s) cl e w = (r, w')"
  shows "did no_rest w w' \<and> (r = Panic nil_dereference \<or> (\<exists>er. r = Done er)) \<or>
    (\<exists>v n p opt nodes w1 w2. mget (supportedProvisioners v) n = Some p \<and> PVName opt = ''k8s-'' @ pvc_uid cl \<and> PVC opt = cl \<and>
      did no_rest w w1 \<and>
      ((\<exists>x. Provision p opt nodes e w1 = (Done (None, Some x), w2) \<and> did no_rest w2 w' \<and>
         r = Done (case x of Err m \<Rightarrow> Some (Err m) | IgnoredError _ \<Rightarrow> None)) \<or>
       (\<exists>q ref. Provision p opt nodes e w1 = (Done (Some q, None), w2) \<and> claim_reference e cl = Inr ref \<and> r = Done None \<and>
         settled (controller_of s) cl p
           (claimed_volume (kubeVersion (controller_of s)) ref n (GetPersistentVolumeClaimClass cl) q) e w2 w')))"
proof -
  obtain v where v: "proviserners (controller_of s) = supportedProvisioners v" "createProvisionedPVRetryCount (controller_of s) = 5"
    by (rule program_stateE [OF assms(1)])
  have c: "0 < createProvisionedPVRetryCount (controller_of s)" using v(2) by simp
  show ?thesis
  proof (rule supported.provision_cases [OF v(1) c, of cl e w])
    fix r' w'' assume "provisionClaimOperation (controller_of s) cl e w = (r', w'')" "did no_rest w w''"
      "r' = Panic nil_dereference \<or> (\<exists>er. r' = Done er)"
    then show ?thesis using assms(2) by auto
  next
    fix n p opt nodes w1 w2 x er w''
    assume "mget (supportedProvisioners v) n = Some p" "PVName opt = ''k8s-'' @ pvc_uid cl" "PVC opt = cl"
      "did no_rest w w1" "Provision p opt nodes e w1 = (Done (None, Some x), w2)"
      "provisionClaimOperation (controller_of s) cl e w = (Done er, w'')" "did no_rest w2 w''"
      "er = (case x of Err s \<Rightarrow> Some (Err s) | IgnoredError _ \<Rightarrow> None)"
    moreover from this have "r = Done (case x of Err s \<Rightarrow> Some (Err s) | IgnoredError _ \<Rightarrow> None)" "w' = w''"
      using assms(2) by auto
    ultimately show ?thesis by (intro disjI2) blast
  next
    fix n p opt nodes ref w1 w2 q w''
    assume "mget (supportedProvisioners v) n = Some p" "PVName opt = ''k8s-'' @ pvc_uid cl" "PVC opt = cl"
      "did no_rest w w1" "claim_reference e cl = Inr ref"
      "Provision p opt nodes e w1 = (Done (Some q, None), w2)" "provisionClaimOperation (controller_of s) cl e w = (Done None, w'')"
      "settled (controller_of s) cl p (claimed_volume (kubeVersion (controller_of s)) ref n (GetPersistentVolumeClaimClass cl) q) e w2 w''"
    moreover from this have "r = Done None" "w' = w''" using assms(2) by auto
    ultimately show ?thesis by (intro disjI2) blast
  qed
qed

lemma deletion_outcome:
  assumes "program_state e s" "deleteVolumeOperation (controller_of s) volume e w = (r, w')"
  shows "did aside w w' \<or>
    (\<exists>v n p nodes w1 w2. mget (supportedProvisioners v) n = Some p \<and> did aside w w1 \<and>
      ((\<exists>x. DeleteVolume p volume nodes e w1 = (Done (Some x), w2) \<and> did aside w2 w') \<or>
       own volume \<and> DeleteVolume p volume nodes e w1 = (Done None, w2) \<and>
         w' = w2\<lparr>history := history w2 @ [DeletePV (pv_name volume)]\<rparr>))"
proof -
  obtain v where v: "proviserners (controller_of s) = supportedProvisioners v"
    by (rule program_stateE [OF assms(1)])
  have ran: "\<exists>n. mget (supportedProvisioners v) n = Some p" if "p \<in> ran (mget (supportedProvisioners v))" for p
    using that by (auto simp: ran_def)
  show ?thesis
  proof (rule supported.delete_cases [OF v, of volume e w])
    fix r' w'' assume "deleteVolumeOperation (controller_of s) volume e w = (r', w'')" "did aside w w''"
    then show ?thesis using assms(2) by auto
  next
    fix p nodes w1 w2 x w''
    assume "p \<in> ran (mget (supportedProvisioners v))" "did aside w w1" "DeleteVolume p volume nodes e w1 = (Done (Some x), w2)"
      "did aside w2 w''"
      "deleteVolumeOperation (controller_of s) volume e w = (Done (case x of Err s \<Rightarrow> Some (Err s) | IgnoredError _ \<Rightarrow> None, controller_of s), w'')"
    moreover from this have "w' = w''" using assms(2) by auto
    ultimately show ?thesis using ran [of p] by (intro disjI2) blast
  next
    fix p nodes w1 w2
    assume "p \<in> ran (mget (supportedProvisioners v))" "own volume" "did aside w w1" "DeleteVolume p volume nodes e w1 = (Done None, w2)"
      "deleteVolumeOperation (controller_of s) volume e w =
         (Done (None, controller_of s), w2\<lparr>history := history w2 @ [DeletePV (pv_name volume)]\<rparr>)"
    moreover from this have "w' = w2\<lparr>history := history w2 @ [DeletePV (pv_name volume)]\<rparr>" using assms(2) by auto
    ultimately show ?thesis using ran [of p] by (intro disjI2) blast
  qed
qed

text \<open>
  C6. A volume's object goes last: in every state of the program, an operation that deletes a
  volume deletes the object only as its last action, after a registered provisioner has deleted
  the volume without an error, and only of a volume that carries the creator's mark. In every
  other case it sends requests to InfiniBox at most in one call of Delete that fails.
\<close>

theorem object_deleted_last:
  assumes "program_state e s" "deleteVolumeOperation (controller_of s) volume e w = (r, w')"
  shows "did aside w w' \<or>
    (\<exists>v n p nodes w1 w2. mget (supportedProvisioners v) n = Some p \<and> did aside w w1 \<and>
      ((\<exists>x. DeleteVolume p volume nodes e w1 = (Done (Some x), w2) \<and> did aside w2 w') \<or>
       own volume \<and> DeleteVolume p volume nodes e w1 = (Done None, w2) \<and>
         w' = w2\<lparr>history := history w2 @ [DeletePV (pv_name volume)]\<rparr>))"
  by (rule deletion_outcome [OF assms])

text \<open>
  C16. Volumes of others are left alone: of a volume without the creator's mark, the operation
  neither deletes the object nor sends any request to InfiniBox, whatever the volume's other
  annotations say.
\<close>

theorem foreign_volume_untouched:
  assumes "program_state e s" "\<not> own volume"
  shows "did aside w (snd (deleteVolumeOperation (controller_of s) volume e w))"
proof -
  obtain r w' where R: "deleteVolumeOperation (controller_of s) volume e w = (r, w')" by fastforce
  have F: "w2 = w1" if "mget (supportedProvisioners v) n = Some p" "DeleteVolume p volume nodes e w1 = (x, w2)" for v n p nodes x w1 w2
    using provisioner_contract.Delete_foreign [OF supported_contract [OF that(1)] assms(2), of nodes] that(2) by (auto simp: ret_def)
  show ?thesis using deletion_outcome [OF assms(1) R] assms(2) F did_trans unfolding R by (metis snd_conv)
qed

section \<open>Nodes\<close>

text \<open>
  The calls of \<open>UpdateMapping\<close> for one node, of a list of provisioners in turn, each with the
  volumes and nodes that are in the caches at that moment.
\<close>

fun tell :: "bool \<Rightarrow> bool \<Rightarrow> node \<Rightarrow> provisioner list \<Rightarrow> unit prog" where
  "tell added deleted node [] = ret ()"
| "tell added deleted node (p # ps) =
     bind getPVList (\<lambda>pvs. bind getNodeList (\<lambda>nodes.
     seq (UpdateMapping p pvs nodes added deleted [node]) (tell added deleted node ps)))"

lemma update_mappings_tell:
  "update_mappings added deleted node ps = tell added deleted node (map snd (filter (\<lambda>(n, p). contains n ''/'') ps))"
  by (induction ps) auto

lemma issues_tell:
  assumes "\<And>p pvs nodes. p \<in> set ps \<Longrightarrow> issues (is_rest M) (UpdateMapping p pvs nodes added deleted [node])"
  shows "issues (\<lambda>a. is_rest M a \<or> a \<in> {ReadNodes, ReadVolumes}) (tell added deleted node ps)"
  using assms
proof (induction ps)
  case (Cons p ps)
  have "issues (\<lambda>a. is_rest M a \<or> a \<in> {ReadNodes, ReadVolumes}) (UpdateMapping p pvs nodes added deleted [node])" for pvs nodes
    using issues_mono [OF Cons.prems [of p]] by simp
  moreover have "issues (\<lambda>a. is_rest M a \<or> a \<in> {ReadNodes, ReadVolumes}) getPVList"
      "issues (\<lambda>a. is_rest M a \<or> a \<in> {ReadNodes, ReadVolumes}) getNodeList"
    unfolding getPVList_def getNodeList_def by (intro issues_intro; simp)+
  ultimately show ?case using Cons by (auto intro!: issues_bind)
qed (simp add: issues_intro)



section \<open>A run of the program\<close>

definition demo_services :: "(string, string) services" where
  "demo_services = \<lparr>buildConfig = (\<lambda>b. Inr ''in-cluster''), newForConfig = (\<lambda>c. Inr ''client''), gitVersion = (\<lambda>k. Inr ''v1.8.0''),
     parseSemantic = (\<lambda>s. Inr \<lparr>major = 1, minor = 8, patch = 0, preRelease = []\<rparr>)\<rparr>"

definition demo_flags :: flags where
  "demo_flags = \<lparr>master = [], kubeconfig = [], serverHostname = []\<rparr>"

lemma demo_main:
  obtains ctrl where "main_program demo_flags demo_services ''A'' = Inr (Done ctrl)"
    "proviserners ctrl = supportedProvisioners ''v1.8.0''" "runningOperations ctrl = []" "leaderElectors ctrl = []"
    "identity ctrl = ''A''" "failedProvisionStats ctrl = []" "failedDeleteStats ctrl = []" "leaseDuration ctrl = 15000000000"
    "renewDeadline ctrl = 10000000000" "retryPeriod ctrl = 2000000000" "termLimit ctrl = 30000000000"
    "kubeVersion ctrl = \<lparr>major = 1, minor = 8, patch = 0, preRelease = []\<rparr>"
  by (simp add: main_program_def demo_flags_def demo_services_def NewProvisionController_def run_controller_def
      DefaultLeaseDuration_def DefaultRenewDeadline_def DefaultRetryPeriod_def DefaultTermLimit_def second_def)

lemma demo_boot: "main_program demo_flags demo_services ''A'' = Inr (Done ctrl) \<Longrightarrow> program_state e (boot ctrl w t)"
  unfolding program_state_def by blast

theorem claim_outcome_witness:
  "\<exists>ctrl r w'. main_program demo_flags demo_services ''A'' = Inr (Done ctrl) \<and>
     provisionClaimOperation ctrl sample_pvc demo_env demo_world = (r, w') \<and>
     (did no_rest demo_world w' \<or> (\<exists>v n p opt nodes w1 w2 x. mget (supportedProvisioners v) n = Some p \<and>
        PVName opt = ''k8s-u-1'' \<and> Provision p opt nodes demo_env w1 = (Done x, w2)))"
proof -
  obtain ctrl where c: "main_program demo_flags demo_services ''A'' = Inr (Done ctrl)" by (rule demo_main)
  obtain r w' where R: "provisionClaimOperation ctrl sample_pvc demo_env demo_world = (r, w')" by fastforce
  have "provisionClaimOperation (controller_of (boot ctrl demo_world 0)) sample_pvc demo_env demo_world = (r, w')"
    using R by (simp add: boot_def)
  from claim_outcome [OF demo_boot [OF c] this] c R show ?thesis by (auto simp: sample_pvc_def)
qed

definition foreign_volume :: pv where
  "foreign_volume = \<lparr>pv_name = ''theirs'', pv_namespace = [], pv_uid = ''u-9'',
     pv_annotations = Some [(annDynamicallyProvisioned, ''infinidat.com/fc'')], pv_reclaimPolicy = ''Delete'',
     pv_accessModes = [ReadWriteOnce], pv_capacity = 1073741824, pv_storageClassName = ''gold'', pv_claimRef = None,
     pv_phase = ''Released'', pv_fc = None, pv_iscsi = None, pv_nfs = None\<rparr>"

lemma foreign_volume_foreign: "\<not> own foreign_volume"
  by (simp add: own_def foreign_volume_def annDynamicallyProvisioned_def annCreatedBy_def)

theorem object_deleted_last_witness:
  "\<exists>ctrl r w'. main_program demo_flags demo_services ''A'' = Inr (Done ctrl) \<and>
     deleteVolumeOperation ctrl foreign_volume demo_env demo_world = (r, w') \<and>
     (did aside demo_world w' \<or> (\<exists>v n p nodes w1 w2 x. mget (supportedProvisioners v) n = Some p \<and>
        DeleteVolume p foreign_volume nodes demo_env w1 = (Done x, w2)))"
proof -
  obtain ctrl where c: "main_program demo_flags demo_services ''A'' = Inr (Done ctrl)" by (rule demo_main)
  obtain r w' where R: "deleteVolumeOperation ctrl foreign_volume demo_env demo_world = (r, w')" by fastforce
  have "deleteVolumeOperation (controller_of (boot ctrl demo_world 0)) foreign_volume demo_env demo_world = (r, w')"
    using R by (simp add: boot_def)
  from object_deleted_last [OF demo_boot [OF c] this] c R show ?thesis by blast
qed

theorem foreign_volume_untouched_witness:
  "\<exists>ctrl. main_program demo_flags demo_services ''A'' = Inr (Done ctrl) \<and>
     did aside demo_world (snd (deleteVolumeOperation ctrl foreign_volume demo_env demo_world))"
proof -
  obtain ctrl where c: "main_program demo_flags demo_services ''A'' = Inr (Done ctrl)" by (rule demo_main)
  have "controller_of (boot ctrl demo_world 0) = ctrl" by (simp add: boot_def)
  with foreign_volume_untouched [OF demo_boot [OF c] foreign_volume_foreign] c show ?thesis by metis
qed

definition annotated_pvc :: pvc where
  "annotated_pvc = sample_pvc\<lparr>pvc_annotations := Some [(annStorageProvisioner, ''infinidat.com/nfs'')]\<rparr>"

lemma op_names_differ: "opName (ProvisionClaim c) \<noteq> opName (LockProvision c')"
  by simp

text \<open>The race for a claim is on.\<close>

lemma demo_race:
  obtains s where "controller_reachable quiet_env s" "running s = [LockProvision annotated_pvc]" "now_of s = 0"
    "fst ` set (runningOperations (controller_of s)) = {opName (LockProvision annotated_pvc)}"
    "identity (controller_of s) = ''A''" "leaseDuration (controller_of s) = 15000000000"
    "renewDeadline (controller_of s) = 10000000000" "retryPeriod (controller_of s) = 2000000000"
    "termLimit (controller_of s) = 30000000000"
proof -
  obtain ctrl where c: "main_program demo_flags demo_services ''A'' = Inr (Done ctrl)"
    "proviserners ctrl = supportedProvisioners ''v1.8.0''" "runningOperations ctrl = []" "leaderElectors ctrl = []"
    "identity ctrl = ''A''" "failedProvisionStats ctrl = []" "leaseDuration ctrl = 15000000000"
    "renewDeadline ctrl = 10000000000" "retryPeriod ctrl = 2000000000" "termLimit ctrl = 30000000000"
    by (rule demo_main)
  define r where "r = scheduleOperation 0 (LockProvision annotated_pvc) ctrl"
  have P: "shouldProvision ctrl annotated_pvc = ret (True, ctrl)"
    using c by (simp add: shouldProvision_def given_up_def annotated_pvc_def sample_pvc_def supportedProvisioners_eq)
  have u: "mget (leaderElectors ctrl) (pvc_uid annotated_pvc) = None" using c by simp
  have "notify 0 ctrl (ClaimAdded (Some annotated_pvc)) quiet_env idle_world = (Done r, idle_world)"
    by (simp add: addClaim_def P u r_def bind_def ret_def)
  then have "controller_step quiet_env (boot ctrl idle_world 0) (started r idle_world (boot ctrl idle_world 0))"
    
    by (intro controller_step.notified [where ev = "ClaimAdded (Some annotated_pvc)"]) (simp add: boot_def)
  moreover have "controller_reachable quiet_env (boot ctrl idle_world 0)" using main_starts [OF c(1)] by blast
  ultimately have R: "controller_reachable quiet_env (started r idle_world (boot ctrl idle_world 0))"
    by (rule controller_reachable.step [rotated])
  have r: "fst r = Some (LockProvision annotated_pvc)" "setup_of (snd r) = setup_of ctrl"
      "fst ` set (runningOperations (snd r)) = {opName (LockProvision annotated_pvc)}"
    using c(3) by (simp_all add: r_def scheduleOperation_def grm_run_def mput_def setup_of_def)
  show thesis by (rule that [OF R]) (use r c in \<open>simp_all add: started_def boot_def setup_of_def\<close>)
qed

text \<open>An elector that holds the lock already leads at once.\<close>

lemma demo_attempt:
  "\<exists>s' le'. tryAcquireOrRenew (sample_attempt 9000000000) (held_by ''A'' 7) (sample_elector ''A'') = Done (True, s', le')"
  by (simp add: tryAcquireOrRenew_def sample_simps Get_def decide_def Update_def put_claim_def next_record_def
      proposal_def conclude_def reread_def Let_def)

lemma demo_Run:
  "\<exists>cs s' le'. Run [\<lparr>task = None, timeout = False, attempts = [sample_attempt 9000000000]\<rparr>] [] (held_by ''A'' 7) (sample_elector ''A'')
     = Done (False, cs @ [StartedLeading], s', le')"
proof -
  obtain s1 le1 where T: "tryAcquireOrRenew (sample_attempt 9000000000) (held_by ''A'' 7) (sample_elector ''A'') = Done (True, s1, le1)"
    using demo_attempt by blast
  show ?thesis by (cases "maybeReportTransition le1") (simp add: Run_def T)
qed

lemma demo_leads:
  assumes "identity ctrl = ''A''" "leaseDuration ctrl = 15000000000" "renewDeadline ctrl = 10000000000"
    "retryPeriod ctrl = 2000000000" "termLimit ctrl = 30000000000"
  shows "\<exists>cs s' ctrl' w'. lockProvisionClaimOperation [\<lparr>task = None, timeout = False, attempts = [sample_attempt 9000000000]\<rparr>] []
      (held_by ''A'' 7) ctrl annotated_pvc quiet_env w = (Done (False, cs @ [StartedLeading], s', ctrl'), w')"
proof -
  have E: "NewLeaderElector (Some \<lparr>PVCMeta = (pvc_namespace annotated_pvc, pvc_name annotated_pvc), Identity = identity ctrl, pl_p = None\<rparr>)
      (leaseDuration ctrl) (renewDeadline ctrl) (retryPeriod ctrl) (termLimit ctrl) = Inr (sample_elector ''A'')"
    using NewLeaderElector_sample [of "''A''"] by (simp add: assms annotated_pvc_def sample_pvc_def sample_lock_def)
  obtain cs s' le' where R: "Run [\<lparr>task = None, timeout = False, attempts = [sample_attempt 9000000000]\<rparr>] [] (held_by ''A'' 7) (sample_elector ''A'')
     = Done (False, cs @ [StartedLeading], s', le')" using demo_Run by blast
  obtain ts w1 where W: "watchPVC annotated_pvc quiet_env w = (Done (Inr ts), w1)"
    by (simp add: watchPVC_def getPVCEventWatch_def quiet_env_def Let_def)
  show ?thesis by (simp add: lockProvisionClaimOperation_def E R W bind_def Let_def ret_def)
qed

theorem operations_exclusive_witness:
  "\<exists>s. controller_reachable quiet_env s \<and> running s = [LockProvision annotated_pvc] \<and>
     scheduleOperation 5 (LockProvision annotated_pvc) (controller_of s) = (None, controller_of s)"
proof -
  obtain s where "controller_reachable quiet_env s" "running s = [LockProvision annotated_pvc]" by (rule demo_race)
  with operations_exclusive [OF this(1)] show ?thesis by auto
qed


theorem provisioned_is_deletable_witness:
  "\<exists>ctrl. main_program demo_flags demo_services ''A'' = Inr (Done ctrl) \<and>
     shouldDelete ctrl ((claimed_volume (kubeVersion ctrl) \<lparr>ref_namespace = ''default'', ref_name = ''data'', ref_uid = ''u-1'',
       ref_resourceVersion = ''7''\<rparr> ''infinidat.com/fc'' ''gold'' foreign_volume)\<lparr>pv_phase := ''Released'', pv_uid := ''u-9''\<rparr>) =
     ret (True, ctrl)"
proof -
  obtain ctrl where c: "main_program demo_flags demo_services ''A'' = Inr (Done ctrl)"
    "proviserners ctrl = supportedProvisioners ''v1.8.0''" "failedDeleteStats ctrl = []" by (rule demo_main)
  have "mget (proviserners ctrl) ''infinidat.com/fc'' = Some (fc_provisioner ''v1.8.0'')"
    using c(2) by (simp add: supportedProvisioners_eq)
  moreover have "pv_reclaimPolicy foreign_volume = ''Delete''"
    "mget (annotations_of (pv_annotations foreign_volume)) BetaStorageClassAnnotation = None"
    by (simp_all add: foreign_volume_def annDynamicallyProvisioned_def BetaStorageClassAnnotation_def)
  moreover have "\<not> given_up (failedDeleteThreshold ctrl) (failedDeleteStats ctrl) ''u-9''"
    using c(3) by (simp add: given_up_def)
  ultimately show ?thesis using provisioned_is_deletable c(1) by blast
qed

section \<open>The elections of the program\<close>

text \<open>
  C40. Every race for a claim gets its elector: the durations that \<open>main\<close> leaves at their
  defaults pass the checks of \<open>NewLeaderElector\<close> in every state of the program, and the elector
  starts without a record, under the controller's identity, on the lock of the claim.
\<close>

theorem elections_start:
  assumes "program_state e s"
  shows "\<exists>le. NewLeaderElector (Some \<lparr>PVCMeta = m, Identity = identity (controller_of s), pl_p = None\<rparr>)
      (leaseDuration (controller_of s)) (renewDeadline (controller_of s)) (retryPeriod (controller_of s)) (termLimit (controller_of s)) = Inr le \<and>
    elector_identity le = identity (controller_of s) \<and> PVCMeta (el_lock le) = m \<and>
    (IsLeader le \<longleftrightarrow> identity (controller_of s) = []) \<and> unexpired now le = False"
proof -
  have "election_possible (controller_of s)" by (rule program_stateE [OF assms])
  then show ?thesis
    by (auto simp: NewLeaderElector_def election_possible_def elector_identity_def IsLeader_def zero_record_def unexpired_def)
qed

theorem elections_start_witness:
  "\<exists>ctrl le. main_program demo_flags demo_services ''A'' = Inr (Done ctrl) \<and>
     NewLeaderElector (Some \<lparr>PVCMeta = (''default'', ''data''), Identity = identity ctrl, pl_p = None\<rparr>)
       (leaseDuration ctrl) (renewDeadline ctrl) (retryPeriod ctrl) (termLimit ctrl) = Inr le"
proof -
  obtain ctrl where c: "main_program demo_flags demo_services ''A'' = Inr (Done ctrl)" by (rule demo_main)
  have "controller_of (boot ctrl idle_world 0) = ctrl" by (simp add: boot_def)
  with elections_start [OF demo_boot [where e = quiet_env and w = idle_world and t = 0, OF c], of "(''default'', ''data'')"] c show ?thesis by metis
qed

end
